(* ===== verification/Prelude.thy ===== *)
theory Prelude
  imports Complex_Main "HOL-Library.Multiset" "HOL-Library.AList" "HOL-Library.Char_ord"
    "HOL-Library.List_Lexorder" "HOL-Library.Product_Lexorder"
begin

text \<open>
  Shared vocabulary of the development: Go's 64-bit integers with their wrap-around, Go strings
  as byte strings, the contract of \<open>sort.Slice\<close> as a locale with an executable model, and the
  "look the key up, create the bucket when it is missing, update it" loop over a Go map, kept
  as an association list whose order stands for one possible iteration order.
\<close>

named_theorems go_ints "wrap-around of Go integers"
named_theorems go_maps "lookups after a bucket update"

section \<open>Go integers\<close>

text \<open>
  On the platforms the program is built for, \<open>int\<close>, \<open>int64\<close> and \<open>time.Duration\<close> are
  64-bit two's complement. They are kept as \<open>int\<close>, and every operation that can leave the
  range is wrapped explicitly by \<open>wrap64\<close>.
\<close>

type_synonym int64 = int
type_synonym duration = int

definition wrap64 :: "int \<Rightarrow> int64" where
  "wrap64 x = (x + 2 ^ 63) mod 2 ^ 64 - 2 ^ 63"

definition in_int64 :: "int \<Rightarrow> bool" where
  "in_int64 x \<longleftrightarrow> - (2 ^ 63) \<le> x \<and> x < 2 ^ 63"

lemma wrap64_id [go_ints]: "in_int64 x \<Longrightarrow> wrap64 x = x"
  by (simp add: wrap64_def in_int64_def)

lemma in_int64_wrap64 [simp, intro]: "in_int64 (wrap64 x)"
proof -
  have "0 \<le> (x + 2 ^ 63) mod 2 ^ 64" "(x + 2 ^ 63) mod 2 ^ 64 < (2::int) ^ 64"
    by (simp_all)
  then show ?thesis by (simp add: wrap64_def in_int64_def)
qed

lemma wrap64_cong: "x mod 2 ^ 64 = y mod 2 ^ 64 \<Longrightarrow> wrap64 x = wrap64 y"
  unfolding wrap64_def by (metis mod_add_left_eq)

lemma wrap64_mod [go_ints]: "wrap64 x mod 2 ^ 64 = x mod 2 ^ 64"
  unfolding wrap64_def by (metis mod_diff_left_eq add_diff_cancel_right')

lemma wrap64_add_left [go_ints]: "wrap64 (wrap64 x + y) = wrap64 (x + y)"
  by (rule wrap64_cong) (metis mod_add_left_eq wrap64_mod)

lemma wrap64_add_right [go_ints]: "wrap64 (x + wrap64 y) = wrap64 (x + y)"
  by (metis add.commute wrap64_add_left)

lemma wrap64_0 [simp]: "wrap64 0 = 0"
  by (simp add: wrap64_def)

text \<open>Go's signed division truncates towards zero.\<close>

definition go_div :: "int \<Rightarrow> int \<Rightarrow> int" where
  "go_div a b = sgn a * sgn b * (\<bar>a\<bar> div \<bar>b\<bar>)"

definition go_mod :: "int \<Rightarrow> int \<Rightarrow> int" where
  "go_mod a b = a - b * go_div a b"

lemma go_div_nonneg [simp]: "0 \<le> a \<Longrightarrow> 0 < b \<Longrightarrow> go_div a b = a div b"
  by (cases "a = 0") (simp_all add: go_div_def)

lemma go_mod_nonneg [simp]: "0 \<le> a \<Longrightarrow> 0 < b \<Longrightarrow> go_mod a b = a mod b"
  by (simp add: go_mod_def minus_div_mult_eq_mod mult.commute minus_mult_div_eq_mod)

section \<open>Sorting with a comparison function\<close>

text \<open>
  \<open>sort.Slice(x, less)\<close> and \<open>sort.Strings\<close> promise a permutation of the input in which no
  element is followed by a smaller one, for a strict weak order \<open>lt\<close>; nothing is promised
  on the order of elements that compare equal. The locale \<open>slice_sort\<close> states that contract;
  its lemma \<open>unique\<close> is what every client uses: when \<open>lt\<close> compares some injective key,
  the contract determines the result.
\<close>

locale strict_weak =
  fixes lt :: "'a \<Rightarrow> 'a \<Rightarrow> bool"
  assumes asym: "lt x y \<Longrightarrow> \<not> lt y x"
    and neg_trans: "\<not> lt x y \<Longrightarrow> \<not> lt y z \<Longrightarrow> \<not> lt x z"

locale slice_sort = strict_weak lt for lt :: "'a \<Rightarrow> 'a \<Rightarrow> bool" +
  fixes srt :: "'a list \<Rightarrow> 'a list"
  assumes perm: "mset (srt xs) = mset xs"
    and ordered: "sorted_wrt (\<lambda>x y. \<not> lt y x) (srt xs)"
begin

lemma length_srt: "length (srt xs) = length xs"
  using perm by (metis size_mset)

lemma set_srt: "set (srt xs) = set xs"
  using perm by (metis set_mset_mset)

lemma ordered_unique:
  assumes "mset xs = mset ys" "sorted_wrt (\<lambda>x y. \<not> lt y x) xs"
    "sorted_wrt (\<lambda>x y. \<not> lt y x) ys"
    and total: "\<And>x y. x \<in> set xs \<Longrightarrow> y \<in> set xs \<Longrightarrow> \<not> lt x y \<Longrightarrow> \<not> lt y x \<Longrightarrow> x = y"
  shows "xs = ys"
  using assms
proof (induction xs arbitrary: ys)
  case Nil
  then show ?case by simp
next
  case (Cons x xs)
  then obtain y ys' where ys: "ys = y # ys'" by (cases ys) auto
  have "x \<in> set ys" using Cons.prems(1) by (metis list.set_intros(1) set_mset_mset)
  moreover have "y \<in> set (x # xs)" using Cons.prems(1) ys by (metis list.set_intros(1) set_mset_mset)
  ultimately have "x = y"
    using Cons.prems(2,3,4) ys by auto
  moreover have "xs = ys'"
    using Cons.prems ys \<open>x = y\<close> by (intro Cons.IH) auto
  ultimately show ?case using ys by simp
qed

lemma unique:
  assumes "mset ys = mset xs" "sorted_wrt (\<lambda>x y. \<not> lt y x) ys"
    and "\<And>x y. x \<in> set xs \<Longrightarrow> y \<in> set xs \<Longrightarrow> \<not> lt x y \<Longrightarrow> \<not> lt y x \<Longrightarrow> x = y"
  shows "srt xs = ys"
  using assms by (intro ordered_unique) (auto simp: perm ordered set_srt)

lemma perm_invariant:
  assumes "mset ys = mset xs"
    and "\<And>x y. x \<in> set xs \<Longrightarrow> y \<in> set xs \<Longrightarrow> \<not> lt x y \<Longrightarrow> \<not> lt y x \<Longrightarrow> x = y"
  shows "srt ys = srt xs"
  using assms by (intro unique [symmetric]) (auto simp: perm ordered)

end

text \<open>The executable model: insertion by the comparison.\<close>

fun slice_insert :: "('a \<Rightarrow> 'a \<Rightarrow> bool) \<Rightarrow> 'a \<Rightarrow> 'a list \<Rightarrow> 'a list" where
  "slice_insert lt x [] = [x]"
| "slice_insert lt x (y # ys) =
     (if lt y x then y # slice_insert lt x ys else x # y # ys)"

definition sort_slice :: "('a \<Rightarrow> 'a \<Rightarrow> bool) \<Rightarrow> 'a list \<Rightarrow> 'a list" where
  "sort_slice lt xs = foldr (slice_insert lt) xs []"

lemma sort_slice_simps [simp]:
  "sort_slice lt [] = []"
  "sort_slice lt (x # xs) = slice_insert lt x (sort_slice lt xs)"
  by (simp_all add: sort_slice_def)

lemma mset_slice_insert [simp]: "mset (slice_insert lt x xs) = add_mset x (mset xs)"
  by (induction xs) auto

lemma set_slice_insert [simp]: "set (slice_insert lt x xs) = insert x (set xs)"
  by (induction xs) auto

lemma mset_sort_slice [simp]: "mset (sort_slice lt xs) = mset xs"
  by (induction xs) auto

lemma set_sort_slice [simp]: "set (sort_slice lt xs) = set xs"
  by (induction xs) auto

lemma length_sort_slice [simp]: "length (sort_slice lt xs) = length xs"
  by (metis mset_sort_slice size_mset)

context strict_weak
begin

lemma sorted_slice_insert:
  "sorted_wrt (\<lambda>x y. \<not> lt y x) xs \<Longrightarrow> sorted_wrt (\<lambda>x y. \<not> lt y x) (slice_insert lt x xs)"
  by (induction xs) (auto dest: asym, metis neg_trans)

lemma sorted_sort_slice: "sorted_wrt (\<lambda>x y. \<not> lt y x) (sort_slice lt xs)"
  by (induction xs) (auto intro: sorted_slice_insert)

end

sublocale strict_weak \<subseteq> slice_sort lt "sort_slice lt"
  by unfold_locales (auto simp: sorted_sort_slice)

text \<open>The comparisons of the program all compare a key in a linear order.\<close>

lemma strict_weak_key: "strict_weak (\<lambda>x y. (f x :: 'b :: linorder) < f y)"
  by unfold_locales auto

lemma slice_sort_by_key:
  assumes "\<And>x y. lt x y \<longleftrightarrow> (f x :: 'b :: linorder) < f y"
  shows "slice_sort lt (sort_slice lt)"
proof -
  have "lt = (\<lambda>x y. f x < f y)" using assms by (intro ext)
  then have "strict_weak lt" using strict_weak_key by simp
  then show ?thesis
    by (simp add: slice_sort_def slice_sort_axioms_def strict_weak.sorted_sort_slice)
qed

text \<open>
  \<open>sort.Slice\<close> on durations (64-bit integers) and \<open>sort.Strings\<close> on byte strings: the
  comparison is the linear order itself, and the result is the library's sorted list.
\<close>

interpretation int_sort: slice_sort "(<) :: int \<Rightarrow> int \<Rightarrow> bool" "sort_slice (<)"
  by (rule slice_sort_by_key [where f = id]) simp

interpretation string_sort: slice_sort "(<) :: string \<Rightarrow> string \<Rightarrow> bool" "sort_slice (<)"
  by (rule slice_sort_by_key [where f = id]) simp

lemma sort_slice_int: "sort_slice (<) (xs :: int list) = sort xs"
  by (rule int_sort.unique) (auto simp: not_less)

lemma sort_slice_string: "sort_slice (<) (xs :: string list) = sort xs"
  by (rule string_sort.unique) (auto simp: not_less)

section \<open>Filling the buckets of a Go map\<close>

text \<open>
  \<^verbatim>\<open>
    for _, r := range xs {
        b, ok := buckets[key(r)]
        if !ok { b = fresh(r); buckets[key(r)] = b }
        update b with r
    }
  \<close>
  A map is an association list with distinct keys. Its order carries no meaning: Go does not
  specify the order of \<open>range\<close> over a map, so whatever ranges over a map takes the order as
  a parameter (any permutation of the entries).
\<close>

definition bucket_step ::
  "('a \<Rightarrow> 'k) \<Rightarrow> ('a \<Rightarrow> 'b) \<Rightarrow> ('a \<Rightarrow> 'b \<Rightarrow> 'b) \<Rightarrow> ('k \<times> 'b) list \<Rightarrow> 'a \<Rightarrow> ('k \<times> 'b) list" where
  "bucket_step key fresh upd m r =
     (let k = key r; b = (case map_of m k of None \<Rightarrow> fresh r | Some b \<Rightarrow> b)
      in AList.update k (upd r b) m)"

definition fill_buckets ::
  "('a \<Rightarrow> 'k) \<Rightarrow> ('a \<Rightarrow> 'b) \<Rightarrow> ('a \<Rightarrow> 'b \<Rightarrow> 'b) \<Rightarrow> 'a list \<Rightarrow> ('k \<times> 'b) list" where
  "fill_buckets key fresh upd xs = foldl (bucket_step key fresh upd) [] xs"

definition bucket_of :: "('a \<Rightarrow> 'b) \<Rightarrow> ('a \<Rightarrow> 'b \<Rightarrow> 'b) \<Rightarrow> 'a list \<Rightarrow> 'b option" where
  "bucket_of fresh upd rs =
     (case rs of [] \<Rightarrow> None | r # _ \<Rightarrow> Some (foldl (\<lambda>b x. upd x b) (fresh r) rs))"

lemma bucket_of_Nil [go_maps]: "bucket_of fresh upd [] = None"
  and bucket_of_Cons [go_maps]:
    "bucket_of fresh upd (r # rs) = Some (foldl (\<lambda>b x. upd x b) (fresh r) (r # rs))"
  by (simp_all add: bucket_of_def)

lemma bucket_of_snoc [go_maps]:
  "bucket_of fresh upd (rs @ [r]) =
     Some (upd r (case bucket_of fresh upd rs of None \<Rightarrow> fresh r | Some b \<Rightarrow> b))"
  by (cases rs) (simp_all add: bucket_of_def)

lemma fill_buckets_snoc [go_maps]:
  "fill_buckets key fresh upd (xs @ [x]) =
     bucket_step key fresh upd (fill_buckets key fresh upd xs) x"
  by (simp add: fill_buckets_def)

lemma fill_buckets_Nil [simp]: "fill_buckets key fresh upd [] = []"
  by (simp add: fill_buckets_def)

text \<open>What the loop leaves in the map: the update folded over the elements with that key.\<close>

lemma map_of_fill_buckets:
  "map_of (fill_buckets key fresh upd xs) k = bucket_of fresh upd (filter (\<lambda>r. key r = k) xs)"
proof (induction xs rule: rev_induct)
  case Nil
  then show ?case by (simp add: bucket_of_Nil)
next
  case (snoc x xs)
  then show ?case
    by (auto simp: go_maps bucket_step_def Let_def update_conv)
qed

lemma distinct_fill_buckets: "distinct (map fst (fill_buckets key fresh upd xs))"
  by (induction xs rule: rev_induct) (simp_all add: go_maps bucket_step_def Let_def distinct_update)

lemma keys_fill_buckets: "fst ` set (fill_buckets key fresh upd xs) = key ` set xs"
  by (induction xs rule: rev_induct) (auto simp: go_maps bucket_step_def Let_def dom_update)

lemma fill_buckets_eq_Nil_iff [simp]: "fill_buckets key fresh upd xs = [] \<longleftrightarrow> xs = []"
  using keys_fill_buckets [of key fresh upd xs] by (metis image_is_empty set_empty)

lemma mem_fill_buckets:
  "(k, b) \<in> set (fill_buckets key fresh upd xs) \<longleftrightarrow>
     bucket_of fresh upd (filter (\<lambda>r. key r = k) xs) = Some b"
  by (metis distinct_fill_buckets map_of_eq_Some_iff map_of_fill_buckets)

text \<open>Every element lands in exactly one bucket, so a per-bucket count adds up.\<close>

lemma sum_over_keys:
  fixes f :: "'a \<Rightarrow> 'n :: comm_monoid_add"
  shows "(\<Sum>k\<in>key ` set xs. sum_list (map f (filter (\<lambda>r. key r = k) xs))) = sum_list (map f xs)"
proof (induction xs)
  case Nil
  then show ?case by simp
next
  case (Cons x xs)
  let ?g = "\<lambda>ys k. sum_list (map f (filter (\<lambda>r. key r = k) ys))"
  have zero: "?g xs k = 0" if "k \<notin> key ` set xs" for k
    using that by (subst filter_False) auto
  have "(\<Sum>k\<in>insert (key x) (key ` set xs). ?g (x # xs) k) =
      (\<Sum>k\<in>insert (key x) (key ` set xs). (if k = key x then f x else 0) + ?g xs k)"
    by (rule sum.cong) auto
  also have "\<dots> = f x + (\<Sum>k\<in>insert (key x) (key ` set xs). ?g xs k)"
    by (simp add: sum.distrib)
  also have "(\<Sum>k\<in>insert (key x) (key ` set xs). ?g xs k) = (\<Sum>k\<in>key ` set xs. ?g xs k)"
    using zero by (intro sum.mono_neutral_right) auto
  finally show ?case using Cons.IH by simp
qed

end
