(* ===== verification/Compression.thy ===== *)
theory Compression
  imports Prelude
begin

text \<open>
  \<open>pkg/bench/compression.go\<close>: the names of the codecs, and the stats handler that adds up the bytes of
  one RPC. The counters of a call live behind a pointer kept in the call's context, and gRPC reports
  payload events from goroutines of its own, for many calls at once; so the counters are a heap from
  addresses to \<open>wireBytes\<close>, and the events of all calls are one interleaved list.
\<close>

section \<open>The code\<close>

definition CompressionIdentity :: string where "CompressionIdentity = ''identity''"
definition CompressionGzip :: string where "CompressionGzip = ''gzip''"
definition CompressionSnappy :: string where "CompressionSnappy = ''snappy''"
definition CompressionZstd :: string where "CompressionZstd = ''zstd''"

definition validCompressions :: "string list" where
  "validCompressions = [CompressionIdentity, CompressionGzip, CompressionSnappy, CompressionZstd]"

definition isValidCompression :: "string \<Rightarrow> bool" where
  "isValidCompression name \<longleftrightarrow> name \<in> set validCompressions"

record wireBytes =
  SentUncompressed :: int64
  SentWire :: int64
  ReceivedUncompressed :: int64
  ReceivedWire :: int64

definition zero_wireBytes :: wireBytes where
  "zero_wireBytes =
     \<lparr>SentUncompressed = 0, SentWire = 0, ReceivedUncompressed = 0, ReceivedWire = 0\<rparr>"

text \<open>A context is a chain of key/value pairs; the newest value of a key wins.\<close>

type_synonym addr = nat

datatype ctx_key = wireBytesKey | OtherKey nat
datatype ctx_value = WireBytesPtr addr | OtherValue nat
datatype ctx = Background | WithValue ctx ctx_key ctx_value

fun ctx_Value :: "ctx \<Rightarrow> ctx_key \<Rightarrow> ctx_value option" where
  "ctx_Value Background k = None"
| "ctx_Value (WithValue c k' v) k = (if k = k' then Some v else ctx_Value c k)"

definition contextWithWireBytes :: "ctx \<Rightarrow> addr \<Rightarrow> ctx" where
  "contextWithWireBytes c b = WithValue c wireBytesKey (WireBytesPtr b)"

definition wireBytesFromContext :: "ctx \<Rightarrow> addr option" where
  "wireBytesFromContext c =
     (case ctx_Value c wireBytesKey of Some (WireBytesPtr b) \<Rightarrow> Some b | _ \<Rightarrow> None)"

text \<open>The events of \<open>grpc/stats\<close> the handler tells apart, with \<open>Length\<close> and \<open>WireLength\<close>.\<close>

datatype RPCStats = OutPayload int64 int64 | InPayload int64 int64 | OtherStats

definition add_stats :: "RPCStats \<Rightarrow> wireBytes \<Rightarrow> wireBytes" where
  "add_stats s b =
     (case s of
        OutPayload len wire \<Rightarrow>
          b\<lparr>SentUncompressed := wrap64 (SentUncompressed b + len), SentWire := wrap64 (SentWire b + wire)\<rparr>
      | InPayload len wire \<Rightarrow>
          b\<lparr>ReceivedUncompressed := wrap64 (ReceivedUncompressed b + len),
            ReceivedWire := wrap64 (ReceivedWire b + wire)\<rparr>
      | OtherStats \<Rightarrow> b)"

type_synonym bag_heap = "addr \<Rightarrow> wireBytes"

definition HandleRPC :: "ctx \<Rightarrow> RPCStats \<Rightarrow> bag_heap \<Rightarrow> bag_heap" where
  "HandleRPC c s h =
     (case wireBytesFromContext c of None \<Rightarrow> h | Some b \<Rightarrow> h(b := add_stats s (h b)))"

definition TagRPC :: "ctx \<Rightarrow> ctx" where "TagRPC c = c"
definition TagConn :: "ctx \<Rightarrow> ctx" where "TagConn c = c"

definition handle_all :: "(ctx \<times> RPCStats) list \<Rightarrow> bag_heap \<Rightarrow> bag_heap" where
  "handle_all evs h = foldl (\<lambda>h (c, s). HandleRPC c s h) h evs"

section \<open>What a bag holds\<close>

definition stats_total :: "RPCStats list \<Rightarrow> wireBytes" where
  "stats_total ss =
     \<lparr>SentUncompressed = (\<Sum>s\<leftarrow>ss. case s of OutPayload len _ \<Rightarrow> len | _ \<Rightarrow> 0),
      SentWire = (\<Sum>s\<leftarrow>ss. case s of OutPayload _ wire \<Rightarrow> wire | _ \<Rightarrow> 0),
      ReceivedUncompressed = (\<Sum>s\<leftarrow>ss. case s of InPayload len _ \<Rightarrow> len | _ \<Rightarrow> 0),
      ReceivedWire = (\<Sum>s\<leftarrow>ss. case s of InPayload _ wire \<Rightarrow> wire | _ \<Rightarrow> 0)\<rparr>"

definition wrap_bytes :: "wireBytes \<Rightarrow> wireBytes" where
  "wrap_bytes b =
     \<lparr>SentUncompressed = wrap64 (SentUncompressed b), SentWire = wrap64 (SentWire b),
      ReceivedUncompressed = wrap64 (ReceivedUncompressed b), ReceivedWire = wrap64 (ReceivedWire b)\<rparr>"

definition events_of :: "addr \<Rightarrow> (ctx \<times> RPCStats) list \<Rightarrow> RPCStats list" where
  "events_of a evs = map snd (filter (\<lambda>e. wireBytesFromContext (fst e) = Some a) evs)"

lemma wireBytesFromContext_With [simp]: "wireBytesFromContext (contextWithWireBytes c b) = Some b"
  by (simp add: wireBytesFromContext_def contextWithWireBytes_def)

lemma handle_all_snoc: "handle_all (evs @ [(c, s)]) h = HandleRPC c s (handle_all evs h)"
  by (simp add: handle_all_def)

lemma add_stats_total: "add_stats s (wrap_bytes (stats_total ss)) = wrap_bytes (stats_total (ss @ [s]))"
  by (cases s) (simp_all add: add_stats_def wrap_bytes_def stats_total_def go_ints)

lemma handle_all_bag:
  assumes "h a = zero_wireBytes"
  shows "handle_all evs h a = wrap_bytes (stats_total (events_of a evs))"
proof (induction evs rule: rev_induct)
  case Nil
  then show ?case
    using assms by (simp add: handle_all_def events_of_def stats_total_def wrap_bytes_def zero_wireBytes_def)
next
  case (snoc e evs)
  obtain c s where e: "e = (c, s)" by (cases e)
  have ev: "events_of a (evs @ [e]) =
      events_of a evs @ (if wireBytesFromContext c = Some a then [s] else [])"
    by (simp add: events_of_def e)
  show ?case
    unfolding ev
    by (simp add: e handle_all_snoc HandleRPC_def snoc.IH add_stats_total split: option.split)
qed

lemma sum_list_mset: "mset xs = mset ys \<Longrightarrow> sum_list (map f xs) = sum_list (map f ys :: int list)"
  by (metis mset_map sum_mset_sum_list)

lemma stats_total_mset: "mset xs = mset ys \<Longrightarrow> stats_total xs = stats_total ys"
  unfolding stats_total_def by (simp only: sum_list_mset [of xs ys])

section \<open>Properties\<close>

text \<open>
  C28: However gRPC interleaves the payload events of the calls in flight, the counters of a call end as
  the sums, in 64 bits, over the events reported under its own context: the events of the other calls
  and the order of the events make no difference.
\<close>

theorem wire_bytes_isolated:
  assumes "h a = zero_wireBytes"
  shows "handle_all evs h a = wrap_bytes (stats_total (events_of a evs)) \<and>
    (\<forall>evs'. mset (events_of a evs') = mset (events_of a evs) \<longrightarrow> handle_all evs' h a = handle_all evs h a)"
  using handle_all_bag [where h = h and a = a, OF assms] stats_total_mset by metis

theorem wire_bytes_isolated_witness:
  "handle_all [(contextWithWireBytes Background 1, OutPayload 100 40),
      (contextWithWireBytes Background 2, OutPayload 7 7),
      (contextWithWireBytes Background 1, InPayload 9 5)] (\<lambda>_. zero_wireBytes) 1 =
    \<lparr>SentUncompressed = 100, SentWire = 40, ReceivedUncompressed = 9, ReceivedWire = 5\<rparr>"
proof -
  let ?evs = "[(contextWithWireBytes Background 1, OutPayload 100 40),
      (contextWithWireBytes Background 2, OutPayload 7 7),
      (contextWithWireBytes Background 1, InPayload 9 5)]"
  have "handle_all ?evs (\<lambda>_. zero_wireBytes) 1 = wrap_bytes (stats_total (events_of 1 ?evs))"
    using wire_bytes_isolated [of "\<lambda>_. zero_wireBytes" 1 ?evs] by blast
  then show ?thesis
    by (simp add: events_of_def stats_total_def wrap_bytes_def wrap64_def)
qed

end
