(* ===== verification/Gostr.thy ===== *)
theory Gostr
  imports Prelude
begin

text \<open>
  The parts of Go's \<open>unicode/utf8\<close>, \<open>strings\<close> and \<open>strconv\<close> that the program calls. A Go string
  is a sequence of bytes, which is what HOL's \<open>string\<close> is; a rune is the natural number of its
  code point. Ill-formed UTF-8 decodes to U+FFFD one byte at a time, as in Go.
\<close>

section \<open>UTF-8\<close>

type_synonym rune = nat

abbreviation byte :: "char \<Rightarrow> nat" where
  "byte c \<equiv> of_char c"

definition rune_error :: rune where
  "rune_error = 0xFFFD"

definition valid_rune :: "rune \<Rightarrow> bool" where
  "valid_rune r \<longleftrightarrow> r < 0xD800 \<or> 0xE000 \<le> r \<and> r \<le> 0x10FFFF"

definition seq_len :: "nat \<Rightarrow> nat" where
  "seq_len b = (if b < 0x80 then 1 else if b < 0xC2 then 0 else if b < 0xE0 then 2
     else if b < 0xF0 then 3 else if b < 0xF5 then 4 else 0)"

definition cont :: "nat \<Rightarrow> bool" where
  "cont b \<longleftrightarrow> 0x80 \<le> b \<and> b \<le> 0xBF"

definition second_ok :: "nat \<Rightarrow> nat \<Rightarrow> bool" where
  "second_ok b0 b1 \<longleftrightarrow>
     (if b0 = 0xE0 then 0xA0 else if b0 = 0xF0 then 0x90 else 0x80) \<le> b1 \<and>
     b1 \<le> (if b0 = 0xED then 0x9F else if b0 = 0xF4 then 0x8F else 0xBF)"

text \<open>\<open>utf8.DecodeRuneInString\<close> on a non-empty string: the rune and its width.\<close>

definition decode_rune :: "string \<Rightarrow> rune \<times> nat" where
  "decode_rune s =
     (let b = \<lambda>i. byte (s ! i); n = seq_len (b 0) in
      if n = 1 then (b 0, 1)
      else if n = 0 \<or> length s < n \<or> \<not> second_ok (b 0) (b 1) then (rune_error, 1)
      else if n = 2 then ((b 0 mod 32) * 64 + b 1 mod 64, 2)
      else if \<not> cont (b 2) then (rune_error, 1)
      else if n = 3 then ((b 0 mod 16) * 4096 + (b 1 mod 64) * 64 + b 2 mod 64, 3)
      else if \<not> cont (b 3) then (rune_error, 1)
      else ((b 0 mod 8) * 262144 + (b 1 mod 64) * 4096 + (b 2 mod 64) * 64 + b 3 mod 64, 4))"

lemma decode_rune_width: "1 \<le> snd (decode_rune s)" "snd (decode_rune s) \<le> 4"
  by (simp_all add: decode_rune_def Let_def)

text \<open>\<open>[]rune(s)\<close>.\<close>

function runes :: "string \<Rightarrow> rune list" where
  "runes s = (if s = [] then [] else
     fst (decode_rune s) # runes (drop (snd (decode_rune s)) s))"
  by pat_completeness auto
termination
  by (relation "measure length") (use decode_rune_width in \<open>auto simp: Suc_le_eq\<close>)

declare runes.simps [simp del]

lemma runes_Nil [simp]: "runes [] = []"
  by (simp add: runes.simps)

definition rune_count :: "string \<Rightarrow> nat" where
  "rune_count s = length (runes s)"

text \<open>\<open>string(rune)\<close>: surrogates and values beyond U+10FFFF become U+FFFD.\<close>

definition encode_rune :: "rune \<Rightarrow> string" where
  "encode_rune r0 =
     (let r = (if valid_rune r0 then r0 else rune_error) in
      if r < 0x80 then [char_of r]
      else if r < 0x800 then [char_of (0xC0 + r div 64), char_of (0x80 + r mod 64)]
      else if r < 0x10000 then
        [char_of (0xE0 + r div 4096), char_of (0x80 + (r div 64) mod 64), char_of (0x80 + r mod 64)]
      else
        [char_of (0xF0 + r div 262144), char_of (0x80 + (r div 4096) mod 64),
         char_of (0x80 + (r div 64) mod 64), char_of (0x80 + r mod 64)])"

definition string_of_runes :: "rune list \<Rightarrow> string" where
  "string_of_runes rs = concat (map encode_rune rs)"

lemma byte_char_of: "n < 256 \<Longrightarrow> byte (char_of n) = n"
  by (simp add: of_char_of)

lemma div_mod_split2: "(r::nat) div 64 * 64 + r mod 64 = r"
  by simp

lemma div_mod_split3: "(r::nat) div 4096 * 4096 + r div 64 mod 64 * 64 + r mod 64 = r"
  using mod_mult2_eq [of r 64 64] div_mult_mod_eq [of r 4096] by (simp add: ac_simps)

lemma div_mod_split4:
  "(r::nat) div 262144 * 262144 + r div 4096 mod 64 * 4096 + r div 64 mod 64 * 64 + r mod 64 = r"
  using mod_mult2_eq [of r 4096 64] mod_mult2_eq [of r 64 64] div_mult_mod_eq [of r 262144]
  by (simp add: ac_simps)

lemma tag_mod: "a mod n = 0 \<Longrightarrow> q < n \<Longrightarrow> (a + q) mod n = (q :: nat)"
  by (metis add_0 mod_add_left_eq mod_less)

lemma cont_tag: "q < 64 \<Longrightarrow> cont (0x80 + q)"
  by (simp add: cont_def)

lemma decode_encode1:
  assumes "r < 0x80" shows "decode_rune (char_of r # s) = (r, 1)"
  using assms by (simp add: decode_rune_def byte_char_of seq_len_def)

lemma decode_encode2:
  assumes "0x80 \<le> r" "r < 0x800"
  shows "decode_rune (char_of (0xC0 + r div 64) # char_of (0x80 + r mod 64) # s) = (r, 2)"
proof -
  have a: "2 \<le> r div 64" "r div 64 < 32" using assms by auto
  have b: "r mod 64 < 64" by simp
  have c: "byte (char_of (0xC0 + r div 64)) = 0xC0 + r div 64"
    "byte (char_of (0x80 + r mod 64)) = 0x80 + r mod 64"
    using a b by (auto intro!: byte_char_of)
  have d: "(0xC0 + r div 64) mod 32 = r div 64" "(0x80 + r mod 64) mod 64 = r mod 64"
    using a b by (auto intro!: tag_mod)
  show ?thesis
    using a b by (simp add: decode_rune_def c d seq_len_def second_ok_def div_mod_split2)
qed

lemma decode_encode3:
  assumes "0x800 \<le> r" "r < 0x10000" "valid_rune r"
  shows "decode_rune (char_of (0xE0 + r div 4096) # char_of (0x80 + r div 64 mod 64)
    # char_of (0x80 + r mod 64) # s) = (r, 3)"
proof -
  have a: "r div 4096 < 16" using assms by auto
  have b: "r mod 64 < 64" "r div 64 mod 64 < 64" by auto
  have c: "byte (char_of (0xE0 + r div 4096)) = 0xE0 + r div 4096"
    "byte (char_of (0x80 + r div 64 mod 64)) = 0x80 + r div 64 mod 64"
    "byte (char_of (0x80 + r mod 64)) = 0x80 + r mod 64"
    using a b by (auto intro!: byte_char_of)
  have d: "(0xE0 + r div 4096) mod 16 = r div 4096" "(0x80 + r mod 64) mod 64 = r mod 64"
    "(0x80 + r div 64 mod 64) mod 64 = r div 64 mod 64"
    using a b by (auto intro!: tag_mod)
  have lo: "r div 4096 = 0 \<Longrightarrow> 0x20 \<le> r div 64 mod 64"
    using assms div_mod_split3 [of r] b by linarith
  have sur: "r div 4096 = 13 \<Longrightarrow> r div 64 mod 64 < 0x20"
    using assms div_mod_split3 [of r] b unfolding valid_rune_def by linarith
  have "second_ok (0xE0 + r div 4096) (0x80 + r div 64 mod 64)"
    using a b lo sur by (auto simp: second_ok_def)
  then show ?thesis
    using a b by (simp add: decode_rune_def c d seq_len_def cont_tag div_mod_split3)
qed

lemma decode_encode4:
  assumes "0x10000 \<le> r" "valid_rune r"
  shows "decode_rune (char_of (0xF0 + r div 262144) # char_of (0x80 + r div 4096 mod 64)
    # char_of (0x80 + r div 64 mod 64) # char_of (0x80 + r mod 64) # s) = (r, 4)"
proof -
  have a: "r div 262144 < 5" using assms by (auto simp: valid_rune_def)
  have b: "r mod 64 < 64" "r div 64 mod 64 < 64" "r div 4096 mod 64 < 64" by auto
  have c: "byte (char_of (0xF0 + r div 262144)) = 0xF0 + r div 262144"
    "byte (char_of (0x80 + r div 4096 mod 64)) = 0x80 + r div 4096 mod 64"
    "byte (char_of (0x80 + r div 64 mod 64)) = 0x80 + r div 64 mod 64"
    "byte (char_of (0x80 + r mod 64)) = 0x80 + r mod 64"
    using a b by (auto intro!: byte_char_of)
  have d: "(0xF0 + r div 262144) mod 8 = r div 262144" "(0x80 + r mod 64) mod 64 = r mod 64"
    "(0x80 + r div 64 mod 64) mod 64 = r div 64 mod 64"
    "(0x80 + r div 4096 mod 64) mod 64 = r div 4096 mod 64"
    using a b by (auto intro!: tag_mod)
  have lo: "r div 262144 = 0 \<Longrightarrow> 0x10 \<le> r div 4096 mod 64"
    using assms div_mod_split4 [of r] b by linarith
  have hi: "r div 262144 = 4 \<Longrightarrow> r div 4096 mod 64 < 0x10"
    using assms div_mod_split4 [of r] b unfolding valid_rune_def by linarith
  have "second_ok (0xF0 + r div 262144) (0x80 + r div 4096 mod 64)"
    using a b lo hi by (auto simp: second_ok_def)
  then show ?thesis
    using a b by (simp add: decode_rune_def c d seq_len_def cont_tag div_mod_split4 numeral_3_eq_3)
qed

lemma encode_rune_nonempty [simp]: "encode_rune r \<noteq> []"
  by (simp add: encode_rune_def Let_def)

lemma decode_encode:
  assumes "valid_rune r"
  shows "decode_rune (encode_rune r @ s) = (r, length (encode_rune r))"
  using assms decode_encode1 [of r s] decode_encode2 [of r s] decode_encode3 [of r s]
    decode_encode4 [of r s]
  by (simp add: encode_rune_def Let_def)

lemma runes_string_of_runes_append:
  "list_all valid_rune rs \<Longrightarrow> runes (string_of_runes rs @ s) = rs @ runes s"
proof (induction rs)
  case Nil
  then show ?case by (simp add: string_of_runes_def)
next
  case (Cons r rs)
  have "string_of_runes (r # rs) @ s = encode_rune r @ string_of_runes rs @ s"
    by (simp add: string_of_runes_def)
  then show ?case
    using Cons by (simp add: runes.simps [of "encode_rune r @ _"] decode_encode)
qed

lemma runes_ascii: "byte c < 0x80 \<Longrightarrow> runes (c # s) = byte c # runes s"
  by (simp add: runes.simps [of "c # s"] decode_rune_def seq_len_def)

lemma cont_mod: "0x80 \<le> b \<Longrightarrow> b \<le> 0xBF \<Longrightarrow> b mod 64 = b - (0x80 :: nat)"
  using tag_mod [of "0x80" 64 "b - 0x80"] by simp

lemma valid_decode_rune: "valid_rune (fst (decode_rune s))"
proof -
  have small: "x < 0xD800 \<Longrightarrow> valid_rune x" for x by (simp add: valid_rune_def)
  let ?b0 = "byte (s ! 0)" and ?b1 = "byte (s ! 1)"
  have e: "valid_rune rune_error" by (simp add: rune_error_def valid_rune_def)
  have m: "y mod 64 < 64" for y :: nat by simp
  have two: "valid_rune ((x mod 32) * 64 + y mod 64)" for x y :: nat
    using m [of y] mod_less_divisor [of 32 x] by (intro small) linarith
  have three: "valid_rune ((?b0 mod 16) * 4096 + (?b1 mod 64) * 64 + y mod 64)"
    if "seq_len ?b0 = 3" "second_ok ?b0 ?b1" for y :: nat
  proof (cases "?b0 = 0xED")
    case True
    with that have "0x80 \<le> ?b1" "?b1 \<le> 0x9F" by (simp_all add: second_ok_def)
    then have "?b1 mod 64 < 32" by (simp add: cont_mod)
    with True m [of y] show ?thesis by (intro small) simp
  next
    case False
    have r: "0xE0 \<le> ?b0" "?b0 < 0xF0" using that by (auto simp: seq_len_def split: if_splits)
    then have d: "?b0 mod 16 = ?b0 - 0xE0" using tag_mod [of "0xE0" 16 "?b0 - 0xE0"] by simp
    show ?thesis
    proof (cases "?b0 < 0xED")
      case True
      with d m [of y] m [of ?b1] r show ?thesis by (intro small) linarith
    next
      case 2: False
      let ?v = "(?b0 mod 16) * 4096 + (?b1 mod 64) * 64 + y mod 64"
      have "0xE000 \<le> ?v" "?v \<le> 0x10FFFF"
        using 2 False r d m [of y] m [of ?b1] by linarith+
      then show ?thesis by (simp add: valid_rune_def)
    qed
  qed
  have four: "valid_rune ((?b0 mod 8) * 262144 + (?b1 mod 64) * 4096 + (y mod 64) * 64 + z mod 64)"
    if "seq_len ?b0 = 4" "second_ok ?b0 ?b1" for y z :: nat
  proof -
    have r: "0xF0 \<le> ?b0" "?b0 < 0xF5" using that by (auto simp: seq_len_def split: if_splits)
    then have d: "?b0 mod 8 = ?b0 - 0xF0" using tag_mod [of "0xF0" 8 "?b0 - 0xF0"] by simp
    have lo: "?b0 = 0xF0 \<Longrightarrow> 0x10 \<le> ?b1 mod 64" and hi: "?b0 = 0xF4 \<Longrightarrow> ?b1 mod 64 < 0x10"
      using that(2) unfolding second_ok_def by (auto simp: cont_mod)
    let ?v = "(?b0 mod 8) * 262144 + (?b1 mod 64) * 4096 + (y mod 64) * 64 + z mod 64"
    have "0xE000 \<le> ?v"
    proof (cases "?b0 = 0xF0")
      case True
      with lo d show ?thesis by simp
    next
      case False
      with r d have "1 \<le> ?b0 mod 8" by linarith
      then show ?thesis by linarith
    qed
    moreover have "?v \<le> 0x10FFFF"
    proof (cases "?b0 = 0xF4")
      case True
      with hi d m [of y] m [of z] have "?b0 mod 8 = 4" "?b1 mod 64 \<le> 15" "y mod 64 \<le> 63" "z mod 64 \<le> 63"
        by simp_all
      then show ?thesis by linarith
    next
      case False
      with r d m [of y] m [of z] m [of ?b1]
      have "?b0 mod 8 \<le> 3" "?b1 mod 64 \<le> 63" "y mod 64 \<le> 63" "z mod 64 \<le> 63"
        by simp_all
      then show ?thesis by linarith
    qed
    ultimately show ?thesis by (simp add: valid_rune_def)
  qed
  have len: "seq_len ?b0 \<in> {0, 1, 2, 3, 4}" by (simp add: seq_len_def)
  have one: "seq_len ?b0 = 1 \<Longrightarrow> valid_rune ?b0"
    by (intro small) (auto simp: seq_len_def split: if_splits)
  show ?thesis
    using len one two three four e by (auto simp: decode_rune_def Let_def)
qed

lemma valid_runes: "list_all valid_rune (runes s)"
proof (induction s rule: runes.induct)
  case (1 s)
  then show ?case by (subst runes.simps) (simp add: valid_decode_rune)
qed

section \<open>strings: Split, Join, TrimSpace\<close>

text \<open>\<open>strings.Split(s, sep)\<close> for a one-byte separator.\<close>

fun split_on :: "char \<Rightarrow> string \<Rightarrow> string list" where
  "split_on sep [] = [[]]"
| "split_on sep (c # s) =
     (if c = sep then [] # split_on sep s
      else (case split_on sep s of [] \<Rightarrow> [[c]] | t # ts \<Rightarrow> (c # t) # ts))"

text \<open>\<open>strings.Join(parts, sep)\<close>.\<close>

fun join :: "string \<Rightarrow> string list \<Rightarrow> string" where
  "join sep [] = []"
| "join sep [x] = x"
| "join sep (x # y # xs) = x @ sep @ join sep (y # xs)"

lemma split_on_nonempty [simp]: "split_on sep s \<noteq> []"
  by (induction s) (auto split: list.splits)

lemma split_on_none: "sep \<notin> set s \<Longrightarrow> split_on sep s = [s]"
  by (induction s) auto

lemma split_on_append: "sep \<notin> set x \<Longrightarrow> split_on sep (x @ sep # s) = x # split_on sep s"
  by (induction x) auto

lemma split_on_join:
  "xs \<noteq> [] \<Longrightarrow> \<forall>x\<in>set xs. sep \<notin> set x \<Longrightarrow> split_on sep (join [sep] xs) = xs"
  by (induction "[sep]" xs rule: join.induct) (auto simp: split_on_none split_on_append)

lemma split_on_parts: "x \<in> set (split_on sep s) \<Longrightarrow> sep \<notin> set x \<and> set x \<subseteq> set s"
  by (induction s arbitrary: x) (fastforce split: if_splits list.splits)+

lemma join_split_on: "join [sep] (split_on sep s) = s"
proof (induction s)
  case Nil
  then show ?case by simp
next
  case (Cons c s)
  obtain t ts where t: "split_on sep s = t # ts" by (cases "split_on sep s") auto
  with Cons show ?case by (cases ts) auto
qed

text \<open>\<open>unicode.IsSpace\<close>.\<close>

definition is_space :: "rune \<Rightarrow> bool" where
  "is_space r \<longleftrightarrow> r \<in> {9, 10, 11, 12, 13, 32, 0x85, 0xA0, 0x1680, 0x2028, 0x2029, 0x202F, 0x205F, 0x3000}
     \<or> 0x2000 \<le> r \<and> r \<le> 0x200A"

text \<open>\<open>utf8.DecodeLastRuneInString\<close> on a non-empty string: the last rune and its width. The
  candidate start is the nearest of the last four bytes that can start a rune.\<close>

definition last_start :: "string \<Rightarrow> nat option" where
  "last_start s = List.find (\<lambda>k. k \<le> length s \<and> \<not> cont (byte (s ! (length s - k)))) [1, 2, 3, 4]"

definition decode_last_rune :: "string \<Rightarrow> rune \<times> nat" where
  "decode_last_rune s =
     (case last_start s of None \<Rightarrow> (rune_error, 1)
      | Some k \<Rightarrow> (let (r, n) = decode_rune (drop (length s - k) s)
                  in if n = k then (r, n) else (rune_error, 1)))"

lemma decode_last_rune_width: "1 \<le> snd (decode_last_rune s)"
  using decode_rune_width by (auto simp: decode_last_rune_def split: option.splits prod.splits)
    (metis snd_conv)

function trim_left_space :: "string \<Rightarrow> string" where
  "trim_left_space s = (if s = [] then [] else
     if is_space (fst (decode_rune s)) then trim_left_space (drop (snd (decode_rune s)) s) else s)"
  by pat_completeness auto
termination
  by (relation "measure length") (use decode_rune_width in \<open>auto simp: Suc_le_eq\<close>)

function trim_right_space :: "string \<Rightarrow> string" where
  "trim_right_space s = (if s = [] then [] else
     if is_space (fst (decode_last_rune s))
     then trim_right_space (take (length s - snd (decode_last_rune s)) s) else s)"
  by pat_completeness auto
termination
proof (relation "measure length", goal_cases)
  case (2 s)
  then show ?case using decode_last_rune_width [of s] by (cases s) auto
qed auto

declare trim_left_space.simps [simp del] trim_right_space.simps [simp del]

text \<open>\<open>strings.TrimSpace\<close>.\<close>

definition trim_space :: "string \<Rightarrow> string" where
  "trim_space s = trim_right_space (trim_left_space s)"

text \<open>A string that starts and ends with a printable ASCII byte is left alone.\<close>

definition ascii_graphic :: "char \<Rightarrow> bool" where
  "ascii_graphic c \<longleftrightarrow> 32 < byte c \<and> byte c < 127"

lemma decode_rune_ascii: "byte c < 0x80 \<Longrightarrow> decode_rune (c # s) = (byte c, 1)"
  by (simp add: decode_rune_def seq_len_def)

lemma decode_last_rune_ascii: "byte c < 0x80 \<Longrightarrow> decode_last_rune (s @ [c]) = (byte c, 1)"
  by (simp add: decode_last_rune_def last_start_def cont_def decode_rune_ascii)

lemma trim_space_graphic:
  assumes "s \<noteq> []" "ascii_graphic (hd s)" "ascii_graphic (last s)"
  shows "trim_space s = s"
proof -
  have sp: "\<not> is_space (byte c)" if "ascii_graphic c" for c
    using that by (auto simp: ascii_graphic_def is_space_def)
  obtain c t where s: "s = c # t" using assms(1) by (cases s) auto
  have "trim_left_space s = s"
    using assms(2) sp [of c] unfolding s
    by (subst trim_left_space.simps) (simp add: decode_rune_ascii ascii_graphic_def)
  moreover have "trim_right_space s = s"
    using assms sp [of "last s"] decode_last_rune_ascii [of "last s" "butlast s"]
    by (subst trim_right_space.simps) (simp add: ascii_graphic_def)
  ultimately show ?thesis by (simp add: trim_space_def)
qed

end
