(* ===== verification/Echopb.thy ===== *)
theory Echopb
  imports Strconv "HOL-Library.Word"
begin

text \<open>
  The protocol messages of \<open>pkg/echo/v1/echo.pb.go\<close> as the hand-written code sees them: the open
  enum \<open>PayloadShape\<close> (an \<open>int32\<close>, so unknown numbers are values too) with its two name tables,
  and the messages as records. A pointer field is an \<open>option\<close>, a \<open>oneof\<close> is a datatype with one
  constructor per wrapper struct, and \<open>float32\<close>/\<open>float64\<close> payload values are kept as their bit
  patterns, because the program moves them but never computes with them. The bookkeeping fields
  of the protobuf runtime (\<open>state\<close>, \<open>unknownFields\<close>, \<open>sizeCache\<close>) are left out.
\<close>

section \<open>PayloadShape\<close>

type_synonym int32 = "32 word"
type_synonym PayloadShape = int32
type_synonym bytes = string

definition PAYLOAD_SHAPE_UNSPECIFIED :: PayloadShape where "PAYLOAD_SHAPE_UNSPECIFIED = 0"
definition PAYLOAD_SHAPE_STRING :: PayloadShape where "PAYLOAD_SHAPE_STRING = 1"
definition PAYLOAD_SHAPE_BYTES :: PayloadShape where "PAYLOAD_SHAPE_BYTES = 2"
definition PAYLOAD_SHAPE_EMBEDDING_FLOAT :: PayloadShape where "PAYLOAD_SHAPE_EMBEDDING_FLOAT = 3"
definition PAYLOAD_SHAPE_EMBEDDING_BYTES :: PayloadShape where "PAYLOAD_SHAPE_EMBEDDING_BYTES = 4"
definition PAYLOAD_SHAPE_MIXED :: PayloadShape where "PAYLOAD_SHAPE_MIXED = 5"

lemmas shape_defs [simp] = PAYLOAD_SHAPE_UNSPECIFIED_def PAYLOAD_SHAPE_STRING_def
  PAYLOAD_SHAPE_BYTES_def PAYLOAD_SHAPE_EMBEDDING_FLOAT_def PAYLOAD_SHAPE_EMBEDDING_BYTES_def
  PAYLOAD_SHAPE_MIXED_def

definition PayloadShape_name :: "PayloadShape \<rightharpoonup> string" where
  "PayloadShape_name = map_of
     [(0, ''PAYLOAD_SHAPE_UNSPECIFIED''), (1, ''PAYLOAD_SHAPE_STRING''), (2, ''PAYLOAD_SHAPE_BYTES''),
      (3, ''PAYLOAD_SHAPE_EMBEDDING_FLOAT''), (4, ''PAYLOAD_SHAPE_EMBEDDING_BYTES''),
      (5, ''PAYLOAD_SHAPE_MIXED'')]"

definition PayloadShape_value :: "string \<rightharpoonup> PayloadShape" where
  "PayloadShape_value = map_of
     [(''PAYLOAD_SHAPE_UNSPECIFIED'', 0), (''PAYLOAD_SHAPE_STRING'', 1), (''PAYLOAD_SHAPE_BYTES'', 2),
      (''PAYLOAD_SHAPE_EMBEDDING_FLOAT'', 3), (''PAYLOAD_SHAPE_EMBEDDING_BYTES'', 4),
      (''PAYLOAD_SHAPE_MIXED'', 5)]"

text \<open>\<open>PayloadShape.String\<close>: the protobuf runtime prints an unknown number in decimal.\<close>

definition PayloadShape_String :: "PayloadShape \<Rightarrow> string" where
  "PayloadShape_String p =
     (case PayloadShape_name p of Some s \<Rightarrow> s | None \<Rightarrow> show_int (sint p))"

section \<open>Messages\<close>

record KeyMultivalue =
  kmv_Key :: string
  kmv_Values :: "string list"

record EmbeddingFloat =
  ef_Values :: "32 word list"

record MixedPayload =
  mp_Id :: int64
  mp_Name :: string
  mp_Count :: int32
  mp_Ratio :: "64 word"
  mp_Enabled :: bool
  mp_Tags :: "string list"
  mp_Numbers :: "int32 list"
  mp_Attrs :: "(string \<times> string) list"
  mp_Blob :: bytes
  mp_Extra :: "KeyMultivalue option"

datatype EchoRequest_Payload =
    EchoRequest_StringPayload string
  | EchoRequest_BytesPayload bytes
  | EchoRequest_EmbeddingFloat "EmbeddingFloat option"
  | EchoRequest_EmbeddingBytes bytes
  | EchoRequest_Mixed "MixedPayload option"

record EchoRequest =
  rq_Query :: string
  rq_Shape :: PayloadShape
  rq_Payload :: "EchoRequest_Payload option"

datatype EchoResponse_Payload =
    EchoResponse_StringPayload string
  | EchoResponse_BytesPayload bytes
  | EchoResponse_EmbeddingFloat "EmbeddingFloat option"
  | EchoResponse_EmbeddingBytes bytes
  | EchoResponse_Mixed "MixedPayload option"

record KubernetesInfo =
  ki_Hostname :: string
  ki_PodName :: string
  ki_PodNamespace :: string
  ki_PodNode :: string

record ParsedURL =
  pu_Scheme :: string
  pu_Host :: string
  pu_Path :: string
  pu_RawPath :: string
  pu_RawQuery :: string
  pu_Query :: "KeyMultivalue list"

record RequestInfo =
  ri_Protocol :: string
  ri_RemoteAddr :: string
  ri_Method :: string
  ri_Uri :: string
  ri_ParsedUrl :: "ParsedURL option"
  ri_Header :: "KeyMultivalue list"

record RuntimeInfo =
  rt_GoVersion :: string
  rt_GoArch :: string
  rt_GoOs :: string
  rt_NumCpus :: int64
  rt_NumGoroutines :: int64
  rt_MainModule :: string
  rt_MainPath :: string
  rt_MainVersion :: string

record ExtendedInfo =
  ei_Name :: string
  ei_Info :: "KeyMultivalue option"

record EchoResponse =
  rs_Query :: string
  rs_Kubernetes :: "KubernetesInfo option"
  rs_Request :: "RequestInfo option"
  rs_Runtime :: "RuntimeInfo option"
  rs_Extensions :: "ExtendedInfo list"
  rs_ServerDurationNs :: int64
  rs_ReceivedAtUnixNano :: int64
  rs_SentAtUnixNano :: int64
  rs_Shape :: PayloadShape
  rs_Payload :: "EchoResponse_Payload option"

record StatusRequest =
  sr_ForceGrpcStatus :: "32 word"
  sr_Message :: string

text \<open>A message without fields.\<close>

datatype StatusResponse = StatusResponse

section \<open>Getters of the oneof\<close>

text \<open>The generated getters return the zero value on a nil message and on another oneof case.\<close>

fun GetStringPayload :: "EchoRequest option \<Rightarrow> string" where
  "GetStringPayload None = []"
| "GetStringPayload (Some x) =
     (case rq_Payload x of Some (EchoRequest_StringPayload s) \<Rightarrow> s | _ \<Rightarrow> [])"

fun GetBytesPayload :: "EchoRequest option \<Rightarrow> bytes" where
  "GetBytesPayload None = []"
| "GetBytesPayload (Some x) =
     (case rq_Payload x of Some (EchoRequest_BytesPayload b) \<Rightarrow> b | _ \<Rightarrow> [])"

fun GetEmbeddingFloat :: "EchoRequest option \<Rightarrow> EmbeddingFloat option" where
  "GetEmbeddingFloat None = None"
| "GetEmbeddingFloat (Some x) =
     (case rq_Payload x of Some (EchoRequest_EmbeddingFloat e) \<Rightarrow> e | _ \<Rightarrow> None)"

fun GetEmbeddingBytes :: "EchoRequest option \<Rightarrow> bytes" where
  "GetEmbeddingBytes None = []"
| "GetEmbeddingBytes (Some x) =
     (case rq_Payload x of Some (EchoRequest_EmbeddingBytes b) \<Rightarrow> b | _ \<Rightarrow> [])"

fun GetMixed :: "EchoRequest option \<Rightarrow> MixedPayload option" where
  "GetMixed None = None"
| "GetMixed (Some x) =
     (case rq_Payload x of Some (EchoRequest_Mixed m) \<Rightarrow> m | _ \<Rightarrow> None)"

section \<open>The two name tables agree\<close>

lemma PayloadShape_value_name: "PayloadShape_name p = Some s \<Longrightarrow> PayloadShape_value s = Some p"
  by (auto simp: PayloadShape_name_def PayloadShape_value_def split: if_splits)

lemma PayloadShape_name_value: "PayloadShape_value s = Some p \<Longrightarrow> PayloadShape_name p = Some s"
  by (auto simp: PayloadShape_name_def PayloadShape_value_def split: if_splits)

end
