(* ===== verification/Float64.thy ===== *)
theory Float64
  imports Prelude "HOL-Library.Log_Nat"
begin

text \<open>
  Go's \<open>float64\<close>, as far as the program uses it: conversions from integers, multiplication,
  division, addition, \<open>math.Ceil\<close>, \<open>math.Sqrt\<close> and the truncating conversion back. A finite
  \<open>float64\<close> is the rational number it denotes, and an operation is the exact rational result
  rounded to 53 significant bits, ties to even (IEEE 754 binary64). Exponents are unbounded
  here: every value the program computes is zero or has a magnitude between \<open>2 ^ (-70)\<close> and
  \<open>2 ^ 200\<close>, far from overflow and from the subnormal range, so infinities and subnormals do not
  arise. Divisions are guarded in the source, so NaN does not arise either.
\<close>

type_synonym float64 = rat

section \<open>Rounding to the nearest integer, ties to even\<close>

definition rne :: "rat \<Rightarrow> int" where
  "rne q = (let f = \<lfloor>q\<rfloor>; r = q - of_int f in
     if r < 1 / 2 then f else if r > 1 / 2 then f + 1 else if even f then f else f + 1)"

lemma rne_of_int [simp]: "rne (of_int n) = n"
  by (simp add: rne_def)

lemma rne_dist: "\<bar>of_int (rne q) - q\<bar> \<le> 1 / 2"
proof -
  have "of_int \<lfloor>q\<rfloor> \<le> q" "q < of_int \<lfloor>q\<rfloor> + 1" by linarith+
  then show ?thesis unfolding rne_def Let_def by (auto simp: abs_le_iff)
qed

lemma rne_floor_ceiling: "\<lfloor>q\<rfloor> \<le> rne q" "rne q \<le> \<lceil>q\<rceil>"
proof -
  show "\<lfloor>q\<rfloor> \<le> rne q" by (simp add: rne_def Let_def)
  show "rne q \<le> \<lceil>q\<rceil>"
  proof (cases "q = of_int \<lfloor>q\<rfloor>")
    case True
    then obtain n where "q = of_int n" by blast
    then show ?thesis by simp
  next
    case False
    then have "\<lceil>q\<rceil> = \<lfloor>q\<rfloor> + 1" by (simp add: ceiling_altdef)
    then show ?thesis by (simp add: rne_def Let_def)
  qed
qed

lemma rne_mono: assumes "p \<le> q" shows "rne p \<le> rne q"
proof (cases "\<lfloor>p\<rfloor> = \<lfloor>q\<rfloor>")
  case True
  with assms show ?thesis unfolding rne_def Let_def by auto
next
  case False
  with assms have "\<lfloor>p\<rfloor> + 1 \<le> \<lfloor>q\<rfloor>" by (meson floor_mono not_le order_antisym zless_imp_add1_zle)
  moreover have "rne p \<le> \<lfloor>p\<rfloor> + 1" by (simp add: rne_def Let_def)
  moreover have "\<lfloor>q\<rfloor> \<le> rne q" by (rule rne_floor_ceiling)
  ultimately show ?thesis by linarith
qed

lemma rne_near: assumes "\<bar>q - of_int m\<bar> < 1 / 2" shows "rne q = m"
proof -
  have "\<bar>of_int (rne q) - of_int m\<bar> < (1 :: rat)"
    using rne_dist [of q] assms by linarith
  then have "\<bar>rne q - m\<bar> < 1" by (metis of_int_abs of_int_diff of_int_less_1_iff)
  then show ?thesis by simp
qed

section \<open>The binary exponent\<close>

definition flog2 :: "rat \<Rightarrow> int" where
  "flog2 q = (let (n, d) = quotient_of q; l = bitlen n - bitlen d
              in if 2 powi l \<le> q then l else l - 1)"

lemma two_powi_pos [simp, intro]: "0 < (2 :: rat) powi e"
  by (simp add: zero_less_power_int)

lemma two_powi_mono: "a \<le> b \<Longrightarrow> (2 :: rat) powi a \<le> 2 powi b"
  by (simp add: power_int_increasing)

lemma two_powi_less_imp: "(2 :: rat) powi a < 2 powi b \<Longrightarrow> a < b"
  by (meson leD not_le two_powi_mono)

lemma bitlen_powi: "0 < n \<Longrightarrow> (2::rat) powi (bitlen n - 1) \<le> of_int n \<and> of_int n < (2::rat) powi (bitlen n)"
proof -
  assume n: "0 < n"
  then have b: "1 \<le> bitlen n" by (metis bitlen_eq_zero_iff bitlen_nonneg leD linorder_not_le order_antisym int_one_le_iff_zero_less)
  have "2 ^ nat (bitlen n - 1) \<le> n" "n < 2 ^ nat (bitlen n)"
    using bitlen_bounds [OF n] by auto
  then have "(of_int (2 ^ nat (bitlen n - 1)) :: rat) \<le> of_int n" "(of_int n :: rat) < of_int (2 ^ nat (bitlen n))"
    by (simp_all only: of_int_le_iff of_int_less_iff)
  with b show ?thesis by (simp add: power_int_def)
qed

lemma flog2_bounds:
  assumes "0 < q"
  shows "2 powi flog2 q \<le> q" "q < 2 powi (flog2 q + 1)"
proof -
  obtain n d where nd: "quotient_of q = (n, d)" by force
  then have d: "0 < d" by (rule quotient_of_denom_pos)
  have q: "q = of_int n / of_int d" using nd by (rule quotient_of_div)
  with assms d have n: "0 < n" by (simp add: zero_less_divide_iff)
  let ?l = "bitlen n - bitlen d"
  note bn = bitlen_powi [OF n] and bd = bitlen_powi [OF d]
  have up: "q < 2 powi (?l + 1)"
  proof -
    have "q < 2 powi (bitlen n) / 2 powi (bitlen d - 1)"
      unfolding q using bn bd d n by (intro frac_less) auto
    also have "\<dots> = 2 powi (?l + 1)"
      by (subst power_int_diff [symmetric]) (simp_all add: algebra_simps)
    finally show ?thesis .
  qed
  have low: "2 powi (?l - 1) \<le> q"
  proof -
    have "(2::rat) powi (?l - 1) = 2 powi (bitlen n - 1) / 2 powi (bitlen d)"
      by (subst power_int_diff [symmetric]) (simp_all add: algebra_simps)
    also have "\<dots> \<le> q"
      unfolding q using bn bd d n by (intro frac_le) auto
    finally show ?thesis .
  qed
  have e: "flog2 q = (if 2 powi ?l \<le> q then ?l else ?l - 1)"
    by (simp add: flog2_def nd)
  show "2 powi flog2 q \<le> q" using low by (simp add: e)
  show "q < 2 powi (flog2 q + 1)" using up by (simp add: e not_le)
qed

lemma flog2_unique: "2 powi e \<le> q \<Longrightarrow> q < 2 powi (e + 1) \<Longrightarrow> flog2 q = e"
proof -
  assume a: "2 powi e \<le> q" "q < 2 powi (e + 1)"
  then have "0 < q" by (meson less_le_trans two_powi_pos)
  from flog2_bounds [OF this] a have "(2::rat) powi e < 2 powi (flog2 q + 1)" "(2::rat) powi flog2 q < 2 powi (e + 1)"
    by linarith+
  then show ?thesis by (auto dest!: two_powi_less_imp)
qed

lemma flog2_mono: "0 < p \<Longrightarrow> p \<le> q \<Longrightarrow> flog2 p \<le> flog2 q"
proof -
  assume a: "0 < p" "p \<le> q"
  then have "(2::rat) powi flog2 p < 2 powi (flog2 q + 1)"
    using flog2_bounds [of p] flog2_bounds [of q] by linarith
  then show ?thesis by (auto dest!: two_powi_less_imp)
qed

section \<open>Rounding to 53 significant bits\<close>

definition f64 :: "rat \<Rightarrow> float64" where
  "f64 q = (if q = 0 then 0 else
     let e = flog2 \<bar>q\<bar> - 52 in of_int (rne (q / 2 powi e)) * 2 powi e)"

lemma f64_0 [simp]: "f64 0 = 0"
  by (simp add: f64_def)

lemma f64_pos_def: "0 < q \<Longrightarrow> f64 q = of_int (rne (q / 2 powi (flog2 q - 52))) * 2 powi (flog2 q - 52)"
  by (simp add: f64_def Let_def)

lemma f64_bracket:
  assumes "0 < q"
  shows "2 powi flog2 q \<le> f64 q" "f64 q \<le> 2 powi (flog2 q + 1)"
proof -
  let ?e = "flog2 q - 52"
  have split: "(2::rat) powi flog2 q = 2 ^ 52 * 2 powi ?e"
    "(2::rat) powi (flog2 q + 1) = 2 ^ 53 * 2 powi ?e"
    by (simp_all add: power_int_diff power_int_add)
  note b = flog2_bounds [OF assms, unfolded split]
  have "of_int (2 ^ 52) \<le> q / 2 powi ?e" "q / 2 powi ?e \<le> of_int (2 ^ 53)"
    using b by (simp_all add: le_divide_eq divide_le_eq less_imp_le)
  from this [THEN rne_mono] have r: "2 ^ 52 \<le> rne (q / 2 powi ?e)" "rne (q / 2 powi ?e) \<le> 2 ^ 53"
    by (simp_all only: rne_of_int)
  then have "(of_int (2 ^ 52) :: rat) \<le> of_int (rne (q / 2 powi ?e))"
    "(of_int (rne (q / 2 powi ?e)) :: rat) \<le> of_int (2 ^ 53)"
    by (simp_all only: of_int_le_iff)
  then show "2 powi flog2 q \<le> f64 q" "f64 q \<le> 2 powi (flog2 q + 1)"
    unfolding f64_pos_def [OF assms] split of_int_power of_int_numeral
    by (auto intro: mult_right_mono less_imp_le)
qed

lemma f64_pos: "0 < q \<Longrightarrow> 0 < f64 q"
  using f64_bracket [of q] two_powi_pos [of "flog2 q"] by linarith

lemma f64_nonneg: "0 \<le> q \<Longrightarrow> 0 \<le> f64 q"
  using f64_pos [of q] by (cases "q = 0") auto

lemma f64_eq_0_iff: "0 \<le> q \<Longrightarrow> f64 q = 0 \<longleftrightarrow> q = 0"
  using f64_pos [of q] by (cases "q = 0") auto

lemma f64_mono_pos:
  assumes "0 < p" "p \<le> q"
  shows "f64 p \<le> f64 q"
proof (cases "flog2 p = flog2 q")
  case True
  have "rne (p / 2 powi (flog2 q - 52)) \<le> rne (q / 2 powi (flog2 q - 52))"
    using assms by (intro rne_mono divide_right_mono) auto
  with True assms show ?thesis
    by (simp add: f64_pos_def mult_right_mono)
next
  case False
  with assms have "flog2 p + 1 \<le> flog2 q" using flog2_mono [of p q] by simp
  then have "(2::rat) powi (flog2 p + 1) \<le> 2 powi flog2 q" by (rule two_powi_mono)
  with f64_bracket(2) [of p] f64_bracket(1) [of q] assms show ?thesis by linarith
qed

lemma f64_mono: "0 \<le> p \<Longrightarrow> p \<le> q \<Longrightarrow> f64 p \<le> f64 q"
  using f64_mono_pos [of p q] f64_nonneg [of q] by (cases "p = 0") auto

lemma f64_rel_error:
  assumes "0 < q"
  shows "\<bar>f64 q - q\<bar> \<le> q / 2 ^ 53"
proof -
  let ?u = "(2::rat) powi (flog2 q - 52)"
  have "f64 q - q = (of_int (rne (q / ?u)) - q / ?u) * ?u"
    unfolding f64_pos_def [OF assms] by (simp add: left_diff_distrib)
  then have "\<bar>f64 q - q\<bar> = \<bar>of_int (rne (q / ?u)) - q / ?u\<bar> * ?u"
    by (simp add: abs_mult)
  also have "\<dots> \<le> 1 / 2 * ?u"
    by (intro mult_right_mono rne_dist) auto
  also have "\<dots> = 2 powi flog2 q / 2 ^ 53"
    by (simp add: power_int_diff)
  also have "\<dots> \<le> q / 2 ^ 53"
    using flog2_bounds(1) [OF assms] by (intro divide_right_mono) auto
  finally show ?thesis .
qed

lemma scaled_near:
  fixes q m u :: rat
  assumes u: "0 < u" and m: "m / u < 2 ^ 54" and near: "\<bar>q - m\<bar> * 2 ^ 55 < m"
  shows "\<bar>q / u - m / u\<bar> < 1 / 2"
proof -
  have "\<bar>q / u - m / u\<bar> = \<bar>q - m\<bar> / u"
    using u by (simp add: diff_divide_distrib [symmetric])
  also have "\<bar>q - m\<bar> / u < m / 2 ^ 55 / u"
    using near u by (intro divide_strict_right_mono) (simp_all add: less_divide_eq)
  also have "m / 2 ^ 55 / u = m / u / 2 ^ 55" by simp
  also have "m / u / 2 ^ 55 < 2 ^ 54 / 2 ^ 55"
    using m by (intro divide_strict_right_mono) simp_all
  finally show ?thesis by simp
qed

text \<open>A value very close to an integer of at most 53 bits is rounded to that integer.\<close>

lemma f64_near:
  assumes m: "0 < m" "m < 2 ^ 53" and near: "\<bar>q - of_int m\<bar> * 2 ^ 55 < of_int m"
  shows "f64 q = of_int m"
proof -
  have M: "(0 :: rat) < of_int m" "(of_int m :: rat) \<le> 2 ^ 53 - 1"
  proof -
    show "(0 :: rat) < of_int m" using m by simp
    have "m \<le> 2 ^ 53 - 1" using m by simp
    then have "(of_int m :: rat) \<le> of_int (2 ^ 53 - 1)" by (simp only: of_int_le_iff)
    then show "(of_int m :: rat) \<le> 2 ^ 53 - 1" by simp
  qed
  have q: "0 < q" "q < 2 ^ 53" "of_int m < 2 * q"
    using near M by (auto simp: abs_if split: if_splits)
  have "(2::rat) powi flog2 q < 2 powi 53"
    using flog2_bounds(1) [OF q(1)] q(2) by simp
  then have "flog2 q < 53" by (rule two_powi_less_imp)
  then have e: "flog2 q - 52 \<le> 0" by simp
  let ?u = "(2::rat) powi (flog2 q - 52)"
  obtain k where k: "?u = 1 / 2 ^ k" "k = nat (52 - flog2 q)"
    using e by (auto simp: power_int_def power_one_over inverse_eq_divide)
  have mu: "of_int m / ?u = (of_int (m * 2 ^ k) :: rat)" by (simp add: k)
  have "of_int m < 2 * (2::rat) powi (flog2 q + 1)"
    using q(3) flog2_bounds(2) [OF q(1)] by linarith
  also have "\<dots> = 2 ^ 54 * ?u" by (simp add: power_int_diff power_int_add)
  finally have "of_int m / ?u < 2 ^ 54" by (simp add: divide_less_eq)
  then have "\<bar>q / ?u - of_int m / ?u\<bar> < 1 / 2"
    using near by (intro scaled_near) auto
  then have "\<bar>q / ?u - of_int (m * 2 ^ k)\<bar> < 1 / 2" by (simp only: mu)
  then have "rne (q / ?u) = m * 2 ^ k" by (rule rne_near)
  then show ?thesis using mu by (simp add: f64_pos_def [OF q(1)] k)
qed

lemma f64_of_int: "0 \<le> m \<Longrightarrow> m < 2 ^ 53 \<Longrightarrow> f64 (of_int m) = of_int m"
  using f64_near [of m "of_int m"] by (cases "m = 0") auto

section \<open>Square root\<close>

text \<open>\<open>math.Sqrt\<close> is correctly rounded: the integer square root of the scaled radicand, then
  the tie rule.\<close>

fun isqrt :: "nat \<Rightarrow> nat" where
  "isqrt n = (if n = 0 then 0 else
     let r = 2 * isqrt (n div 4) in if (r + 1) * (r + 1) \<le> n then r + 1 else r)"

declare isqrt.simps [simp del]

lemma isqrt_bounds: "isqrt n * isqrt n \<le> n \<and> n < (isqrt n + 1) * (isqrt n + 1)"
proof (induction n rule: isqrt.induct)
  case (1 n)
  show ?case
  proof (cases "n = 0")
    case True
    then show ?thesis by (simp add: isqrt.simps)
  next
    case False
    define s where "s = isqrt (n div 4)"
    have IH: "s * s \<le> n div 4" "n div 4 < (s + 1) * (s + 1)"
      using "1.IH" [OF False] by (simp_all add: s_def)
    then have "4 * (s * s) \<le> n" "n < 4 * ((s + 1) * (s + 1))" by auto
    moreover have "isqrt n = (if (2 * s + 1) * (2 * s + 1) \<le> n then 2 * s + 1 else 2 * s)"
      using False by (subst isqrt.simps) (simp add: s_def Let_def)
    ultimately show ?thesis by (auto simp: algebra_simps)
  qed
qed

definition f64_sqrt :: "float64 \<Rightarrow> float64" where
  "f64_sqrt q = (if q \<le> 0 then 0 else
     let e = flog2 q div 2 - 52; s = q / 4 powi e; m = int (isqrt (nat \<lfloor>s\<rfloor>));
         mid = of_int (m * m + m) + 1 / 4;
         r = (if s < mid then m else if s > mid then m + 1 else if even m then m else m + 1)
     in of_int r * 2 powi e)"

lemma f64_sqrt_nonneg: "0 \<le> f64_sqrt q"
  by (simp add: f64_sqrt_def Let_def)

lemma f64_sqrt_0 [simp]: "f64_sqrt 0 = 0"
  by (simp add: f64_sqrt_def)

end
