(* ===== verification/Durations.thy ===== *)
theory Durations
  imports Float64 Strconv Prelude
begin

text \<open>
  \<open>time.Duration.String\<close> and \<open>time.ParseDuration\<close> of Go's standard library, which the reports
  of \<open>pkg/bench\<close> print and parse durations with, and their round trip over the whole 64-bit range. The
  printer writes its buffer from the right, so the functions take the text already written as an
  accumulator. Parse errors carry no text here: the program only wraps them.
\<close>

section \<open>Printing\<close>

fun fmt_frac_loop :: "nat \<Rightarrow> nat \<Rightarrow> bool \<Rightarrow> string \<Rightarrow> nat \<times> bool \<times> string" where
  "fmt_frac_loop 0 v pr buf = (v, pr, buf)"
| "fmt_frac_loop (Suc k) v pr buf =
     (let d = v mod 10; pr = (pr \<or> d \<noteq> 0)
      in fmt_frac_loop k (v div 10) pr (if pr then digit d # buf else buf))"

definition fmt_frac :: "nat \<Rightarrow> nat \<Rightarrow> string \<Rightarrow> nat \<times> string" where
  "fmt_frac prec v buf =
     (let (v, pr, buf) = fmt_frac_loop prec v False buf in (v, if pr then CHR ''.'' # buf else buf))"

definition fmt_int :: "nat \<Rightarrow> string \<Rightarrow> string" where
  "fmt_int v buf = show_nat v @ buf"

definition unit_ns :: string where "unit_ns = ''ns''"
definition unit_us :: string where "unit_us = [CHR 0xC2, CHR 0xB5, CHR ''s'']"
definition unit_ms :: string where "unit_ms = ''ms''"

definition abs_string :: "nat \<Rightarrow> string" where
  "abs_string u =
     (if u < 1000000000 then
        (if u = 0 then ''0s''
         else if u < 1000 then (case fmt_frac 0 u unit_ns of (v, buf) \<Rightarrow> fmt_int v buf)
         else if u < 1000000 then (case fmt_frac 3 u unit_us of (v, buf) \<Rightarrow> fmt_int v buf)
         else (case fmt_frac 6 u unit_ms of (v, buf) \<Rightarrow> fmt_int v buf))
      else
        (case fmt_frac 9 u ''s'' of (v, buf) \<Rightarrow>
           let buf = fmt_int (v mod 60) buf; v = v div 60 in
           if v > 0 then
             let buf = fmt_int (v mod 60) (CHR ''m'' # buf); v = v div 60 in
             if v > 0 then fmt_int v (CHR ''h'' # buf) else buf
           else buf))"

definition Duration_String :: "duration \<Rightarrow> string" where
  "Duration_String d =
     (let s = abs_string (nat \<bar>d\<bar>) in if d < 0 then CHR ''-'' # s else s)"

section \<open>Parsing\<close>

fun leading_int :: "nat \<Rightarrow> string \<Rightarrow> (nat \<times> string) option" where
  "leading_int x [] = Some (x, [])"
| "leading_int x (c # s) =
     (if \<not> is_digit c then Some (x, c # s)
      else if x > 2 ^ 63 div 10 then None
      else let x = x * 10 + digit_val c in if x > 2 ^ 63 then None else leading_int x s)"

fun leading_fraction :: "nat \<Rightarrow> float64 \<Rightarrow> bool \<Rightarrow> string \<Rightarrow> nat \<times> float64 \<times> string" where
  "leading_fraction x scale ov [] = (x, scale, [])"
| "leading_fraction x scale ov (c # s) =
     (if \<not> is_digit c then (x, scale, c # s)
      else if ov then leading_fraction x scale True s
      else if x > (2 ^ 63 - 1) div 10 then leading_fraction x scale True s
      else let y = x * 10 + digit_val c in
           if y > 2 ^ 63 then leading_fraction x scale True s
           else leading_fraction y (f64 (scale * 10)) False s)"

definition unit_map :: "string \<Rightarrow> nat option" where
  "unit_map = map_of [(unit_ns, 1), (''us'', 1000), (unit_us, 1000),
     ([CHR 0xCE, CHR 0xBC, CHR ''s''], 1000), (unit_ms, 1000000), (''s'', 1000000000),
     (''m'', 60000000000), (''h'', 3600000000000)]"

definition num_char :: "char \<Rightarrow> bool" where
  "num_char c \<longleftrightarrow> c = CHR ''.'' \<or> is_digit c"

text \<open>
  One number, \<open>[0-9]*(\.[0-9]*)?\<close>, as its integer part, the digits of its fraction and their scale; then
  its unit, with the arithmetic of \<open>uint64\<close> and \<open>float64\<close>.
\<close>

definition parse_fraction :: "string \<Rightarrow> nat \<times> float64 \<times> string \<times> bool" where
  "parse_fraction s =
     (if s \<noteq> [] \<and> hd s = CHR ''.''
      then let (f, scale, r) = leading_fraction 0 1 False (tl s) in (f, scale, r, length r \<noteq> length (tl s))
      else (0, 1, s, False))"

definition parse_number :: "string \<Rightarrow> (nat \<times> nat \<times> float64 \<times> string) option" where
  "parse_number s =
     (if s = [] \<or> \<not> num_char (hd s) then None else
      case leading_int 0 s of None \<Rightarrow> None
      | Some (v, s1) \<Rightarrow>
          let pre = (length s1 \<noteq> length s); (f, scale, s2, post) = parse_fraction s1
          in if \<not> pre \<and> \<not> post then None else Some (v, f, scale, s2))"

definition parse_unit :: "nat \<Rightarrow> nat \<Rightarrow> nat \<Rightarrow> float64 \<Rightarrow> string \<Rightarrow> (nat \<times> string) option" where
  "parse_unit d v f scale s =
     (let u = takeWhile (Not \<circ> num_char) s; rest = dropWhile (Not \<circ> num_char) s in
      if u = [] then None else
      case unit_map u of None \<Rightarrow> None
      | Some unit \<Rightarrow>
          if v > 2 ^ 63 div unit then None else
          let v = v * unit;
              v = (if f > 0 then v + nat \<lfloor>f64 (f64 (of_nat f) * f64 (of_nat unit / scale))\<rfloor> else v)
          in if v > 2 ^ 63 then None
             else let d = (d + v) mod 2 ^ 64 in if d > 2 ^ 63 then None else Some (d, rest))"

definition parse_term :: "nat \<Rightarrow> string \<Rightarrow> (nat \<times> string) option" where
  "parse_term d s =
     (case parse_number s of None \<Rightarrow> None | Some (v, f, scale, r) \<Rightarrow> parse_unit d v f scale r)"

lemma leading_int_length: "leading_int x s = Some (v, r) \<Longrightarrow> length r \<le> length s"
  by (induction x s rule: leading_int.induct) (fastforce simp: Let_def split: if_splits)+

lemma leading_fraction_length: "leading_fraction x sc ov s = (v, sc', r) \<Longrightarrow> length r \<le> length s"
  by (induction x sc ov s rule: leading_fraction.induct) (fastforce simp: Let_def split: if_splits)+

lemma dropWhile_shorter: "takeWhile P s \<noteq> [] \<Longrightarrow> length (dropWhile P s) < length s"
  by (cases s) (auto simp: le_imp_less_Suc length_dropWhile_le split: if_splits)

lemma parse_number_length: "parse_number s = Some (v, f, scale, r) \<Longrightarrow> length r \<le> length s"
  by (auto simp: parse_number_def parse_fraction_def Let_def split: if_splits option.splits prod.splits
      dest!: leading_int_length leading_fraction_length)

lemma parse_unit_length: "parse_unit d v f scale s = Some (d', r) \<Longrightarrow> length r < length s"
  by (auto simp: parse_unit_def Let_def split: if_splits option.splits dest!: dropWhile_shorter)

lemma parse_term_shorter: "parse_term d s = Some (d', r) \<Longrightarrow> length r < length s"
  by (auto simp: parse_term_def split: option.splits dest!: parse_number_length parse_unit_length)

function parse_terms :: "nat \<Rightarrow> string \<Rightarrow> nat option" where
  "parse_terms d s =
     (if s = [] then Some d
      else case parse_term d s of None \<Rightarrow> None | Some (d', r) \<Rightarrow> parse_terms d' r)"
  by pat_completeness auto
termination
  by (relation "measure (\<lambda>(d, s). length s)") (auto dest: parse_term_shorter)

declare parse_terms.simps [simp del]

definition ParseDuration :: "string \<Rightarrow> duration option" where
  "ParseDuration s =
     (let neg = (s \<noteq> [] \<and> hd s = CHR ''-'');
          s = (if s \<noteq> [] \<and> hd s \<in> {CHR ''-'', CHR ''+''} then tl s else s)
      in if s = ''0'' then Some 0 else if s = [] then None
         else case parse_terms 0 s of None \<Rightarrow> None
           | Some d \<Rightarrow> if neg then Some (wrap64 (- int d))
                      else if d > 2 ^ 63 - 1 then None else Some (int d))"

section \<open>Digits\<close>

abbreviation digits_from :: "nat \<Rightarrow> string \<Rightarrow> nat" where
  "digits_from x ds \<equiv> foldl (\<lambda>n c. 10 * n + digit_val c) x ds"

definition ends_number :: "string \<Rightarrow> bool" where
  "ends_number r \<longleftrightarrow> r = [] \<or> \<not> is_digit (hd r)"

lemma digits_from_ge: "x \<le> digits_from x ds"
proof (induction ds arbitrary: x)
  case (Cons c ds)
  have "x \<le> 10 * x + digit_val c" by simp
  also have "\<dots> \<le> digits_from (10 * x + digit_val c) ds" by (rule Cons)
  finally show ?case by simp
qed simp

lemma leading_int_digits:
  assumes "list_all is_digit ds" "ends_number r" "digits_from x ds \<le> 2 ^ 63"
  shows "leading_int x (ds @ r) = Some (digits_from x ds, r)"
  using assms
proof (induction ds arbitrary: x)
  case Nil
  then show ?case by (cases r) (simp_all add: ends_number_def)
next
  case (Cons c ds)
  have le: "10 * x + digit_val c \<le> 2 ^ 63"
    using digits_from_ge [of "10 * x + digit_val c" ds] Cons.prems(3) by simp
  then have "\<not> x > 2 ^ 63 div 10" by linarith
  with Cons le show ?case by (simp add: mult.commute)
qed

lemma pow10_exact: "k \<le> 15 \<Longrightarrow> f64 (10 ^ k) = 10 ^ k"
proof -
  assume "k \<le> 15"
  then have "(10 :: int) ^ k \<le> 10 ^ 15" by (intro power_increasing) auto
  also have "(10 :: int) ^ 15 < 2 ^ 53" by simp
  finally show "f64 (10 ^ k) = 10 ^ k" using f64_of_int [of "10 ^ k"] by simp
qed

lemma leading_fraction_digits:
  assumes "list_all is_digit ds" "ends_number r" "digits_from x ds < 2 ^ 63" "k + length ds \<le> 15"
  shows "leading_fraction x (10 ^ k) False (ds @ r) = (digits_from x ds, 10 ^ (k + length ds), r)"
  using assms
proof (induction ds arbitrary: x k)
  case Nil
  then show ?case by (cases r) (simp_all add: ends_number_def)
next
  case (Cons c ds)
  have lt: "10 * x + digit_val c < 2 ^ 63"
    using digits_from_ge [of "10 * x + digit_val c" ds] Cons.prems(3) by simp
  then have "\<not> x > (2 ^ 63 - 1) div 10" by linarith
  moreover have "f64 (10 ^ k * 10) = 10 ^ Suc k"
    using pow10_exact [of "Suc k"] Cons.prems(4) by (simp add: mult.commute)
  moreover have "leading_fraction (10 * x + digit_val c) (10 ^ Suc k) False (ds @ r) =
      (digits_from (10 * x + digit_val c) ds, 10 ^ (Suc k + length ds), r)"
    using Cons.prems by (intro Cons.IH) simp_all
  ultimately show ?case using Cons.prems(1) lt by (simp add: mult.commute)
qed

lemma digits_value_append: "digits_value (ds @ [c]) = 10 * digits_value ds + digit_val c"
  by (rule digits_value_snoc)

lemma fmt_frac_loop_digits:
  "\<exists>ds. fmt_frac_loop k v pr buf = (v div 10 ^ k, pr \<or> v mod 10 ^ k \<noteq> 0, ds @ buf) \<and>
     list_all is_digit ds \<and> length ds \<le> k \<and> digits_value ds * 10 ^ (k - length ds) = v mod 10 ^ k \<and>
     (pr \<longrightarrow> length ds = k) \<and> (\<not> pr \<and> v mod 10 ^ k = 0 \<longrightarrow> ds = [])"
proof (induction k arbitrary: v pr buf)
  case 0
  show ?case by (simp add: digits_value_def)
next
  case (Suc k)
  let ?d = "v mod 10" and ?pr = "pr \<or> v mod 10 \<noteq> 0"
  let ?buf = "if ?pr then digit ?d # buf else buf"
  have m: "v mod 10 ^ Suc k = 10 * ((v div 10) mod 10 ^ k) + ?d"
    by (simp add: mod_mult2_eq)
  have dv: "v div 10 div 10 ^ k = v div 10 ^ Suc k" by (simp add: div_mult2_eq)
  obtain ds where ds: "fmt_frac_loop k (v div 10) ?pr ?buf =
        (v div 10 ^ Suc k, ?pr \<or> (v div 10) mod 10 ^ k \<noteq> 0, ds @ ?buf)"
      "list_all is_digit ds" "length ds \<le> k" "digits_value ds * 10 ^ (k - length ds) = (v div 10) mod 10 ^ k"
      "?pr \<longrightarrow> length ds = k" "\<not> ?pr \<and> (v div 10) mod 10 ^ k = 0 \<longrightarrow> ds = []"
    using Suc.IH [of "v div 10" ?pr ?buf] unfolding dv by blast
  have step: "fmt_frac_loop (Suc k) v pr buf = fmt_frac_loop k (v div 10) ?pr ?buf" by (simp add: Let_def)
  have nz: "(?pr \<or> (v div 10) mod 10 ^ k \<noteq> 0) = (pr \<or> v mod 10 ^ Suc k \<noteq> 0)" unfolding m by auto
  show ?case
  proof (cases ?pr)
    case True
    have len: "length ds = k" using ds(5) True by blast
    then have "digits_value (ds @ [digit ?d]) = v mod 10 ^ Suc k"
      using ds(4) unfolding m by (simp add: digits_value_append)
    then show ?thesis
      using ds(1,2) True nz len unfolding step
      by (intro exI [of _ "ds @ [digit ?d]"]) auto
  next
    case False
    have "digits_value ds * 10 ^ (Suc k - length ds) = v mod 10 ^ Suc k"
      using ds(3,4) False m by (simp add: Suc_diff_le)
    then show ?thesis
      using ds False m nz unfolding step by (intro exI [of _ ds]) simp
  qed
qed

text \<open>The printed fraction, if there is one, has at least the value it stands for.\<close>

definition fraction_of :: "nat \<Rightarrow> nat \<Rightarrow> string \<Rightarrow> bool" where
  "fraction_of prec m fr \<longleftrightarrow> fr = [] \<and> m = 0 \<or>
     (\<exists>ds. fr = CHR ''.'' # ds \<and> list_all is_digit ds \<and> length ds \<le> prec \<and>
        digits_value ds * 10 ^ (prec - length ds) = m)"

lemma fmt_frac_fraction:
  obtains fr where "fmt_frac prec v buf = (v div 10 ^ prec, fr @ buf)" "fraction_of prec (v mod 10 ^ prec) fr"
proof -
  obtain ds where ds: "fmt_frac_loop prec v False buf = (v div 10 ^ prec, v mod 10 ^ prec \<noteq> 0, ds @ buf)"
      "list_all is_digit ds" "length ds \<le> prec" "digits_value ds * 10 ^ (prec - length ds) = v mod 10 ^ prec"
      "v mod 10 ^ prec = 0 \<longrightarrow> ds = []"
    using fmt_frac_loop_digits [of prec v False buf] by auto
  show thesis
    using ds by (intro that [of "if v mod 10 ^ prec \<noteq> 0 then CHR ''.'' # ds else []"])
      (auto simp: fmt_frac_def fraction_of_def)
qed

section \<open>Parsing what was printed\<close>

definition good_unit :: "string \<Rightarrow> bool" where
  "good_unit u \<longleftrightarrow> u \<noteq> [] \<and> list_all (Not \<circ> num_char) u"

lemma show_nat_hd_num: "num_char (hd (show_nat q @ r))"
  using hd_show_nat(1) [of q] by (simp add: num_char_def)

lemma unit_split:
  assumes "good_unit u" "r = [] \<or> num_char (hd r)"
  shows "takeWhile (Not \<circ> num_char) (u @ r) = u \<and> dropWhile (Not \<circ> num_char) (u @ r) = r"
  using assms by (cases r) (auto simp: good_unit_def list_all_iff takeWhile_append2 dropWhile_append2)

lemma parse_number_printed:
  assumes "fraction_of prec m fr" "m < 10 ^ prec" "prec \<le> 9" "good_unit u" "q \<le> 2 ^ 63"
  shows "\<exists>f k. parse_number (show_nat q @ fr @ u @ r) = Some (q, f, 10 ^ k, u @ r) \<and> k \<le> prec \<and>
    f * 10 ^ (prec - k) = m"
proof -
  have nd: "\<not> is_digit (hd (u @ r))" "hd (u @ r) \<noteq> CHR ''.''" "u @ r \<noteq> []"
    using assms(4) by (cases u; auto simp: good_unit_def num_char_def)+
  have dot: "\<not> is_digit (CHR ''.'')" by (simp add: is_digit_def)
  have fr: "fr = [] \<or> hd fr = CHR ''.''" using assms(1) by (auto simp: fraction_of_def)
  then have "ends_number (fr @ u @ r)" using nd dot by (cases fr) (auto simp: ends_number_def)
  with leading_int_digits [OF list_all_show_nat, of "fr @ u @ r" 0 q] assms(5)
  have li: "leading_int 0 (show_nat q @ fr @ u @ r) = Some (q, fr @ u @ r)"
    by (simp add: digits_value_def [symmetric])
  have hdn: "num_char (hd (show_nat q @ fr @ u @ r))" by (rule show_nat_hd_num)
  have lt: "length (fr @ u @ r) \<noteq> length (show_nat q @ fr @ u @ r)" by simp
  show ?thesis
  proof (cases "fr = []")
    case True
    then have "m = 0" using assms(1) by (simp add: fraction_of_def)
    moreover have "parse_fraction (u @ r) = (0, 1, u @ r, False)" using nd by (simp add: parse_fraction_def)
    ultimately show ?thesis
      using li hdn True by (intro exI [of _ 0]) (simp add: parse_number_def)
  next
    case False
    then obtain ds where ds: "fr = CHR ''.'' # ds" "list_all is_digit ds" "length ds \<le> prec"
        "digits_value ds * 10 ^ (prec - length ds) = m"
      using assms(1) by (auto simp: fraction_of_def)
    have "digits_value ds \<le> m" unfolding ds(4) [symmetric] by simp
    also have "m < 10 ^ 9" using assms(2,3) power_increasing [of prec 9 "10 :: nat"] by linarith
    finally have "digits_from 0 ds < 2 ^ 63" unfolding digits_value_def by simp
    moreover have "ends_number (u @ r)" using nd(1) by (simp add: ends_number_def)
    ultimately have "leading_fraction 0 (10 ^ 0) False (ds @ u @ r) = (digits_from 0 ds, 10 ^ (0 + length ds), u @ r)"
      using ds(2,3) assms(3) by (intro leading_fraction_digits) simp_all
    then have "parse_fraction (fr @ u @ r) = (digits_value ds, 10 ^ length ds, u @ r, ds \<noteq> [])"
      by (simp add: parse_fraction_def ds(1) digits_value_def)
    then show ?thesis
      using li hdn lt ds(3,4) by (intro exI [of _ "digits_value ds"] exI [of _ "length ds"]) (simp add: parse_number_def)
  qed
qed

lemma parse_unit_printed:
  assumes "good_unit u" "unit_map u = Some U" "r = [] \<or> num_char (hd r)" "0 < U"
    and "k \<le> prec" "f * 10 ^ (prec - k) = m" "m = 0 \<or> U = 10 ^ prec \<and> prec \<le> 9 \<and> m < 10 ^ prec"
    and "d + (q * U + m) \<le> 2 ^ 63"
  shows "parse_unit d q f (10 ^ k) (u @ r) = Some (d + (q * U + m), r)"
proof -
  have add: "(if f > 0 then q * U + nat \<lfloor>f64 (f64 (of_nat f) * f64 (of_nat U / 10 ^ k))\<rfloor> else q * U) = q * U + m"
  proof (cases "f = 0")
    case True
    then show ?thesis using assms(6) by simp
  next
    case False
    then have U: "U = 10 ^ prec" "prec \<le> 9" "m < 10 ^ prec" using assms(6,7) by auto
    have m9: "int m < 2 ^ 53" using U(2,3) power_increasing [of prec 9 "10 :: nat"] by simp
    have "f \<le> m" unfolding assms(6) [symmetric] by simp
    then have f: "f64 (of_nat f) = of_nat f" using f64_of_int [of "int f"] m9 by simp
    have "(of_nat U / 10 ^ k :: rat) = 10 ^ (prec - k)"
      using assms(5) by (simp add: U(1) power_diff)
    then have sc: "f64 (of_nat U / 10 ^ k) = 10 ^ (prec - k)" using pow10_exact [of "prec - k"] U(2) by simp
    have "(of_nat f * 10 ^ (prec - k) :: rat) = of_nat m"
      unfolding assms(6) [symmetric] by simp
    then have "f64 (f64 (of_nat f) * f64 (of_nat U / 10 ^ k)) = of_nat m"
      unfolding f sc using f64_of_int [of "int m"] m9 by simp
    then show ?thesis using False by simp
  qed
  have "q * U \<le> 2 ^ 63" using assms(8) by simp
  then have "q \<le> 2 ^ 63 div U" using assms(4) by (simp add: less_eq_div_iff_mult_less_eq)
  with unit_split [OF assms(1,3)] assms(1,2,8) show ?thesis
    unfolding parse_unit_def Let_def add by (simp add: add good_unit_def)
qed

lemma parse_term_printed:
  assumes "good_unit u" "unit_map u = Some U" "r = [] \<or> num_char (hd r)" "0 < U" "fraction_of prec m fr"
    and "m < 10 ^ prec" "prec \<le> 9" "m = 0 \<or> U = 10 ^ prec" "d + (q * U + m) \<le> 2 ^ 63"
  shows "parse_term d (show_nat q @ fr @ u @ r) = Some (d + (q * U + m), r)"
proof -
  have "q \<le> q * U" using assms(4) by (cases U) auto
  then have "q \<le> 2 ^ 63" using assms(9) by linarith
  from parse_number_printed [OF assms(5,6,7,1) this] obtain f k where
    "parse_number (show_nat q @ fr @ u @ r) = Some (q, f, 10 ^ k, u @ r)" "k \<le> prec" "f * 10 ^ (prec - k) = m"
    by blast
  with parse_unit_printed [OF assms(1-4), of k prec f m d q] assms(6-9) show ?thesis
    by (auto simp: parse_term_def)
qed

lemma parse_terms_printed:
  assumes "good_unit u" "unit_map u = Some U" "r = [] \<or> num_char (hd r)" "0 < U" "fraction_of prec m fr"
    and "m < 10 ^ prec" "prec \<le> 9" "m = 0 \<or> U = 10 ^ prec" "d + (q * U + m) \<le> 2 ^ 63"
  shows "parse_terms d (show_nat q @ fr @ u @ r) = parse_terms (d + (q * U + m)) r"
  by (subst parse_terms.simps) (simp add: parse_term_printed [OF assms])

lemma good_units:
  "good_unit unit_ns" "good_unit unit_us" "good_unit unit_ms" "good_unit ''s''" "good_unit ''m''" "good_unit ''h''"
  by (simp_all add: good_unit_def num_char_def is_digit_def unit_ns_def unit_us_def unit_ms_def)

lemma unit_map_values:
  "unit_map unit_ns = Some 1" "unit_map unit_us = Some 1000" "unit_map unit_ms = Some 1000000"
  "unit_map ''s'' = Some 1000000000" "unit_map ''m'' = Some 60000000000" "unit_map ''h'' = Some 3600000000000"
  by (simp_all add: unit_map_def unit_ns_def unit_us_def unit_ms_def)

lemma fraction_of_Nil: "fraction_of 0 0 []"
  by (simp add: fraction_of_def)

lemma parse_terms_Nil: "parse_terms d [] = Some d"
  by (simp add: parse_terms.simps)

lemma whole_terms:
  assumes "d + q * 60000000000 \<le> 2 ^ 63" "num_char (hd r)"
  shows "parse_terms d (show_nat q @ ''m'' @ r) = parse_terms (d + q * 60000000000) r"
  using parse_terms_printed [OF good_units(5) unit_map_values(5) _ _ fraction_of_Nil, of r d q] assms by simp

lemma whole_hours:
  assumes "d + q * 3600000000000 \<le> 2 ^ 63" "num_char (hd r)"
  shows "parse_terms d (show_nat q @ ''h'' @ r) = parse_terms (d + q * 3600000000000) r"
  using parse_terms_printed [OF good_units(6) unit_map_values(6) _ _ fraction_of_Nil, of r d q] assms by simp

text \<open>A duration below a second: one number in the largest unit that is not larger.\<close>

lemma parse_small:
  assumes "good_unit un" "unit_map un = Some (10 ^ prec)" "prec \<le> 9" "u \<le> 2 ^ 63"
  shows "parse_terms 0 (case fmt_frac prec u un of (v, buf) \<Rightarrow> fmt_int v buf) = Some u"
proof -
  obtain fr where fr: "fmt_frac prec u un = (u div 10 ^ prec, fr @ un)" "fraction_of prec (u mod 10 ^ prec) fr"
    by (rule fmt_frac_fraction)
  have "u div 10 ^ prec * 10 ^ prec + u mod 10 ^ prec = u" by (rule div_mult_mod_eq)
  with parse_terms_printed [OF assms(1,2) _ _ fr(2), of "[]" 0 "u div 10 ^ prec"] assms(3,4)
  show ?thesis by (simp add: fr(1) fmt_int_def parse_terms_Nil)
qed

text \<open>A duration of a second or more: hours and minutes when they are not zero, then the seconds.\<close>

lemma parse_large:
  assumes "u \<le> 2 ^ 63" "1000000000 \<le> u"
  shows "parse_terms 0 (abs_string u) = Some u"
proof -
  obtain fr where fr: "fmt_frac 9 u ''s'' = (u div 10 ^ 9, fr @ ''s'')" "fraction_of 9 (u mod 10 ^ 9) fr"
    by (rule fmt_frac_fraction)
  define v m where "v = u div 10 ^ 9" and "m = u mod 10 ^ 9"
  have u: "v * 1000000000 + m = u" "m < 10 ^ 9" by (simp_all add: v_def m_def)
  have sec: "parse_terms d (show_nat q @ fr @ ''s'') = Some (d + (q * 1000000000 + m))"
    if "d + (q * 1000000000 + m) \<le> 2 ^ 63" for d q
    using parse_terms_printed [OF good_units(4) unit_map_values(4) _ _ fr(2) [folded m_def], of "[]" d q] that u(2)
    by (simp add: parse_terms_Nil)
  have shape: "abs_string u =
      (if v div 60 = 0 then show_nat (v mod 60) @ fr @ ''s''
       else if v div 60 div 60 = 0 then show_nat (v div 60 mod 60) @ ''m'' @ show_nat (v mod 60) @ fr @ ''s''
       else show_nat (v div 60 div 60) @ ''h'' @ show_nat (v div 60 mod 60) @ ''m'' @ show_nat (v mod 60) @ fr @ ''s'')"
    using assms(2) by (simp add: abs_string_def fr(1) [folded v_def] fmt_int_def Let_def)
  have v: "v = v div 60 * 60 + v mod 60" "v div 60 = v div 60 div 60 * 60 + v div 60 mod 60"
    by (simp_all only: div_mult_mod_eq)
  define h mi se where "h = v div 60 div 60" and "mi = v div 60 mod 60" and "se = v mod 60"
  have hms: "v div 60 = h * 60 + mi" "v = (h * 60 + mi) * 60 + se"
    using v unfolding h_def mi_def se_def by simp_all
  have tot: "h * 3600000000000 + mi * 60000000000 + (se * 1000000000 + m) = u"
    using u(1) hms(2) by (simp add: algebra_simps)
  consider "v div 60 = 0" | "v div 60 \<noteq> 0" "h = 0" | "h \<noteq> 0" "v div 60 \<noteq> 0" by (cases "h = 0") (auto simp: h_def)
  then show ?thesis
  proof cases
    case 1
    then have "h = 0" "mi = 0" using hms(1) by simp_all
    with 1 tot assms(1) sec [of 0 se] show ?thesis unfolding shape se_def by simp
  next
    case 2
    have "parse_terms 0 (abs_string u) = parse_terms (mi * 60000000000) (show_nat se @ fr @ ''s'')"
      using 2 whole_terms [of 0 mi "show_nat se @ fr @ ''s''"] tot assms(1) show_nat_hd_num
      unfolding shape h_def mi_def se_def by simp
    with 2 tot assms(1) sec [of "mi * 60000000000" se] show ?thesis by simp
  next
    case 3
    have "parse_terms 0 (abs_string u) =
        parse_terms (h * 3600000000000) (show_nat mi @ ''m'' @ show_nat se @ fr @ ''s'')"
      using 3 whole_hours [of 0 h "show_nat mi @ ''m'' @ show_nat se @ fr @ ''s''"] tot assms(1) show_nat_hd_num
      unfolding shape h_def mi_def se_def by simp
    also have "\<dots> = parse_terms (h * 3600000000000 + mi * 60000000000) (show_nat se @ fr @ ''s'')"
      using tot assms(1) by (intro whole_terms show_nat_hd_num) simp
    also have "\<dots> = Some u" using tot assms(1) sec [of "h * 3600000000000 + mi * 60000000000" se] by simp
    finally show ?thesis .
  qed
qed

lemma parse_abs_string:
  assumes "u \<le> 2 ^ 63"
  shows "parse_terms 0 (abs_string u) = Some u"
proof -
  consider "u = 0" | "0 < u" "u < 1000" | "1000 \<le> u" "u < 1000000" | "1000000 \<le> u" "u < 1000000000" | "1000000000 \<le> u"
    by linarith
  then show ?thesis
  proof cases
    case 1
    have "show_nat 0 = ''0''" by (simp add: show_nat.simps digit_def char_of_def bit_0)
    with parse_terms_printed [OF good_units(4) unit_map_values(4) _ _ fraction_of_Nil, of "[]" 0 0] 1
    show ?thesis by (simp add: abs_string_def parse_terms_Nil)
  next
    case 2
    then show ?thesis using parse_small [OF good_units(1), of 0 u] unit_map_values(1) assms by (simp add: abs_string_def)
  next
    case 3
    then show ?thesis using parse_small [OF good_units(2), of 3 u] unit_map_values(2) assms by (simp add: abs_string_def)
  next
    case 4
    then show ?thesis using parse_small [OF good_units(3), of 6 u] unit_map_values(3) assms by (simp add: abs_string_def)
  next
    case 5
    then show ?thesis by (rule parse_large [OF assms])
  qed
qed

lemma abs_string_nonempty: "abs_string u \<noteq> []"
  by (auto simp: abs_string_def fmt_int_def Let_def split: prod.split)

lemma parse_terms_start: "parse_terms d s = Some u \<Longrightarrow> s \<noteq> [] \<Longrightarrow> num_char (hd s) \<and> s \<noteq> ''0''"
  by (subst (asm) parse_terms.simps)
    (auto simp: parse_term_def parse_number_def parse_fraction_def parse_unit_def is_digit_def digit_val_def
      split: if_splits option.splits)

text \<open>The printed form of every 64-bit duration parses back to it.\<close>

lemma ParseDuration_String:
  assumes "in_int64 d"
  shows "ParseDuration (Duration_String d) = Some d"
proof -
  let ?u = "nat \<bar>d\<bar>" and ?s = "abs_string (nat \<bar>d\<bar>)"
  have u: "?u \<le> 2 ^ 63" "0 \<le> d \<Longrightarrow> ?u \<le> 2 ^ 63 - 1"
    using assms by (auto simp: in_int64_def nat_le_iff abs_le_iff)
  have p: "parse_terms 0 ?s = Some ?u" by (rule parse_abs_string [OF u(1)])
  note start = parse_terms_start [OF p abs_string_nonempty]
  then have sign: "hd ?s \<noteq> CHR ''-''" "hd ?s \<noteq> CHR ''+''" by (auto simp: num_char_def is_digit_def)
  show ?thesis
  proof (cases "d < 0")
    case True
    then have "wrap64 (- int ?u) = d" using assms by (simp add: wrap64_id)
    then show ?thesis
      using True p start abs_string_nonempty by (simp add: ParseDuration_def Duration_String_def)
  next
    case False
    then show ?thesis
      using p start sign abs_string_nonempty u(2) by (simp add: ParseDuration_def Duration_String_def)
  qed
qed

section \<open>Valid UTF-8\<close>

definition to_valid_utf8 :: "string \<Rightarrow> string" where
  "to_valid_utf8 s = string_of_runes (runes s)"

definition valid_utf8 :: "string \<Rightarrow> bool" where
  "valid_utf8 s \<longleftrightarrow> to_valid_utf8 s = s"

lemma string_of_runes_append: "string_of_runes (xs @ ys) = string_of_runes xs @ string_of_runes ys"
  by (simp add: string_of_runes_def)

lemma valid_utf8_append: "valid_utf8 s \<Longrightarrow> valid_utf8 t \<Longrightarrow> valid_utf8 (s @ t)"
proof -
  assume s: "valid_utf8 s" and t: "valid_utf8 t"
  have "runes (string_of_runes (runes s) @ t) = runes s @ runes t"
    by (rule runes_string_of_runes_append [OF valid_runes])
  then have "runes (s @ t) = runes s @ runes t" using s by (simp add: valid_utf8_def to_valid_utf8_def)
  then show "valid_utf8 (s @ t)"
    using s t by (simp add: valid_utf8_def to_valid_utf8_def string_of_runes_append)
qed

lemma encode_ascii: "byte c < 0x80 \<Longrightarrow> encode_rune (byte c) = [c]"
  by (simp add: encode_rune_def Let_def valid_rune_def)

lemma valid_utf8_Nil [simp]: "valid_utf8 []"
  by (simp add: valid_utf8_def to_valid_utf8_def string_of_runes_def)

lemma valid_utf8_ascii: "list_all (\<lambda>c. byte c < 0x80) s \<Longrightarrow> valid_utf8 s"
  by (induction s)
    (simp_all add: valid_utf8_def to_valid_utf8_def runes_ascii string_of_runes_def encode_ascii)

lemma digits_ascii: "list_all is_digit s \<Longrightarrow> valid_utf8 s"
  by (rule valid_utf8_ascii) (auto simp: list_all_iff is_digit_def)

lemma valid_utf8_show_nat: "valid_utf8 (show_nat n)"
  by (rule digits_ascii [OF list_all_show_nat])

lemma us_chars: "CHR 0xC2 = char_of (194::nat)" "CHR 0xB5 = char_of (181::nat)" "CHR ''s'' = char_of (115::nat)"
  by (rule sym, simp add: char_of_eq_iff)+

lemma valid_utf8_us: "valid_utf8 unit_us"
proof -
  have us: "unit_us = string_of_runes [0xB5, 0x73]"
    by (simp add: unit_us_def string_of_runes_def encode_rune_def valid_rune_def us_chars)
  have "runes (string_of_runes [0xB5, 0x73] @ []) = [0xB5, 0x73] @ runes []"
    by (rule runes_string_of_runes_append) (simp add: valid_rune_def)
  then show ?thesis by (simp add: us valid_utf8_def to_valid_utf8_def)
qed

lemma valid_utf8_Cons: "byte c < 0x80 \<Longrightarrow> valid_utf8 s \<Longrightarrow> valid_utf8 (c # s)"
  using valid_utf8_append [OF valid_utf8_ascii [of "[c]"], of s] by simp

lemma valid_utf8_fraction:
  assumes "valid_utf8 buf" "fmt_frac prec v buf = (v', buf')"
  shows "valid_utf8 buf'"
proof -
  obtain fr where fr: "fmt_frac prec v buf = (v div 10 ^ prec, fr @ buf)" "fraction_of prec (v mod 10 ^ prec) fr"
    by (rule fmt_frac_fraction)
  have "valid_utf8 fr"
    using fr(2) by (auto simp: fraction_of_def intro!: valid_utf8_Cons intro: digits_ascii)
  then show ?thesis using fr(1) assms by (auto intro: valid_utf8_append)
qed

lemma valid_utf8_fmt_int: "valid_utf8 buf \<Longrightarrow> valid_utf8 (fmt_int v buf)"
  unfolding fmt_int_def by (intro valid_utf8_append valid_utf8_show_nat)

lemma valid_utf8_abs_string: "valid_utf8 (abs_string u)"
proof -
  have units: "valid_utf8 unit_ns" "valid_utf8 unit_ms" "valid_utf8 ''s''" "valid_utf8 ''0s''"
    by (rule valid_utf8_ascii; simp add: unit_ns_def unit_ms_def)+
  show ?thesis
    unfolding abs_string_def Let_def
    by (auto simp: units valid_utf8_us split: prod.split
        intro!: valid_utf8_fmt_int valid_utf8_Cons intro: valid_utf8_fraction units valid_utf8_us)
qed

lemma valid_utf8_Duration_String: "valid_utf8 (Duration_String d)"
  by (simp add: Duration_String_def Let_def valid_utf8_abs_string valid_utf8_Cons)

lemma Duration_String_nonempty: "Duration_String d \<noteq> []"
  by (simp add: Duration_String_def Let_def abs_string_nonempty)

end
