(* ===== verification/Json.thy ===== *)
theory Json
  imports Durations
begin

text \<open>
  JSON documents as values, as \<open>encoding/json\<close> builds them: struct fields in order, maps sorted by key. The
  spelling of a document (indentation, escapes, the shortest decimal of a float) belongs to the encoder.
  Marshalling a string replaces invalid UTF-8 by U+FFFD.
\<close>

datatype json =
    JNull | JBool bool | JInt int | JFloat float64 | JString string | JArray "json list"
  | JObject "(string \<times> json) list"

definition marshal_string :: "string \<Rightarrow> json" where
  "marshal_string s = JString (to_valid_utf8 s)"

lemma marshal_valid: "valid_utf8 s \<Longrightarrow> marshal_string s = JString s"
  by (simp add: marshal_string_def valid_utf8_def)

text \<open>\<open>map[string][]string\<close>: a nil map is null, otherwise the keys are sorted.\<close>

definition json_of_strings :: "string list \<Rightarrow> json" where
  "json_of_strings vs = JArray (map marshal_string vs)"

text \<open>
  What the program writes: the writer a report goes to, standard output or one the caller set, and the
  report, a text or a JSON document.
\<close>

datatype writer = Stdout | Writer nat

datatype report = TextReport string | JSONReport json

end
