(* ===== verification/Conn.thy ===== *)
theory Conn
  imports Compression Echopb Json
begin

text \<open>
  \<open>pkg/bench/conn.go\<close>: dialing, and the three connection models behind the interfaces \<open>ConnPool\<close> and
  \<open>ConnSource\<close>. What the program does to connections is kept as a trace of events in the world, newest
  first, so that ``no connection leaks, none is closed twice, none is used after it was closed'' is a
  statement about the trace. The report a run writes in the end is an event of the same trace, so that
  its place among the others can be stated. A \<open>*grpc.ClientConn\<close> is the number of the dial that made it and a nil
  pointer is \<open>None\<close>. Which dials and which \<open>Close\<close> calls fail is decided by gRPC and is a parameter.
\<close>

section \<open>Connections and the world\<close>

type_synonym conn = nat

record call =
  cl_metadata :: "string list"
  cl_compressor :: string
  cl_request :: EchoRequest

datatype event = Dialed conn | Closed conn | Called conn call | Wrote writer report

record world =
  w_dials :: nat
  w_tick :: nat
  w_trace :: "event list"

text \<open>The credentials and options of a dial; \<open>Extra\<close> stands for the options of the caller.\<close>

datatype tls_config = TLSConfig (InsecureSkipVerify: bool)
datatype creds = InsecureCreds | TLSCreds tls_config
datatype 'o dial_option = WithTransportCredentials creds | WithStatsHandler | Extra 'o

text \<open>
  \<open>grpc.NewClient\<close>: given the target, the options and the number of the dial it may return an error.
  \<open>ClientConn.Close\<close> may return an error too; the connection is closed all the same.
\<close>

record ('e, 'o) grpc_lib =
  grpc_NewClient :: "string \<Rightarrow> 'o dial_option list \<Rightarrow> nat \<Rightarrow> 'e option"
  conn_Close_error :: "conn \<Rightarrow> nat \<Rightarrow> 'e option"

definition tlsConfigForBench :: "bool \<Rightarrow> tls_config" where
  "tlsConfigForBench skipVerify = (if skipVerify then TLSConfig True else TLSConfig False)"

definition NewClient :: "('e, 'o) grpc_lib \<Rightarrow> string \<Rightarrow> 'o dial_option list \<Rightarrow> world \<Rightarrow> ('e + conn) \<times> world" where
  "NewClient g target opts w =
     (let n = w_dials w; w = w\<lparr>w_dials := n + 1\<rparr> in
      case grpc_NewClient g target opts n of
        Some e \<Rightarrow> (Inl e, w)
      | None \<Rightarrow> (Inr n, w\<lparr>w_trace := Dialed n # w_trace w\<rparr>))"

definition dial ::
  "('e, 'o) grpc_lib \<Rightarrow> string \<Rightarrow> bool \<Rightarrow> bool \<Rightarrow> 'o list \<Rightarrow> world \<Rightarrow> ('e + conn) \<times> world" where
  "dial g target plaintext tlsInsecureSkipVerify extra w =
     (let creds = (if plaintext then InsecureCreds else TLSCreds (tlsConfigForBench tlsInsecureSkipVerify));
          opts = [WithTransportCredentials creds, WithStatsHandler] @ map Extra extra
      in NewClient g target opts w)"

definition conn_Close :: "('e, 'o) grpc_lib \<Rightarrow> conn \<Rightarrow> world \<Rightarrow> 'e option \<times> world" where
  "conn_Close g c w =
     (conn_Close_error g c (length (w_trace w)), w\<lparr>w_trace := Closed c # w_trace w\<rparr>)"

section \<open>The pools and the sources\<close>

definition ConnModelPerWorker :: string where "ConnModelPerWorker = ''per-worker''"
definition ConnModelShared :: string where "ConnModelShared = ''shared''"
definition ConnModelPerRequest :: string where "ConnModelPerRequest = ''per-request''"

definition validConnModels :: "string list" where
  "validConnModels = [ConnModelPerWorker, ConnModelShared, ConnModelPerRequest]"

definition isValidConnModel :: "string \<Rightarrow> bool" where
  "isValidConnModel name \<longleftrightarrow> name \<in> set validConnModels"

type_synonym 'e dialFunc = "world \<Rightarrow> ('e + conn) \<times> world"

datatype ReleaseFunc = noopRelease | closeRelease conn

datatype 'e ConnPool = perWorkerPool "'e dialFunc" | sharedPool "conn option" | perRequestPool "'e dialFunc"
datatype 'e ConnSource =
  perWorkerSource "conn option" | sharedSource "conn option" | perRequestSource "'e dialFunc"

datatype 'e pool_error = DialError 'e | UnknownConnModel string

definition newConnPool :: "string \<Rightarrow> 'e dialFunc \<Rightarrow> world \<Rightarrow> ('e pool_error + 'e ConnPool) \<times> world" where
  "newConnPool model d w =
     (if model = ConnModelPerWorker then (Inr (perWorkerPool d), w)
      else if model = ConnModelShared then
        (case d w of
           (Inl e, w) \<Rightarrow> (Inl (DialError e), w)
         | (Inr c, w) \<Rightarrow> (Inr (sharedPool (Some c)), w))
      else if model = ConnModelPerRequest then (Inr (perRequestPool d), w)
      else (Inl (UnknownConnModel model), w))"

fun NewSource :: "'e ConnPool \<Rightarrow> world \<Rightarrow> ('e + 'e ConnSource) \<times> world" where
  "NewSource (perWorkerPool d) w =
     (case d w of (Inl e, w) \<Rightarrow> (Inl e, w) | (Inr c, w) \<Rightarrow> (Inr (perWorkerSource (Some c)), w))"
| "NewSource (sharedPool c) w = (Inr (sharedSource c), w)"
| "NewSource (perRequestPool d) w = (Inr (perRequestSource d), w)"

fun ConnPool_Close :: "('e, 'o) grpc_lib \<Rightarrow> 'e ConnPool \<Rightarrow> world \<Rightarrow> 'e option \<times> world" where
  "ConnPool_Close g (perWorkerPool d) w = (None, w)"
| "ConnPool_Close g (sharedPool c) w = (case c of None \<Rightarrow> (None, w) | Some c \<Rightarrow> conn_Close g c w)"
| "ConnPool_Close g (perRequestPool d) w = (None, w)"

fun Acquire :: "'e ConnSource \<Rightarrow> world \<Rightarrow> ('e + conn option \<times> ReleaseFunc) \<times> world" where
  "Acquire (perWorkerSource c) w = (Inr (c, noopRelease), w)"
| "Acquire (sharedSource c) w = (Inr (c, noopRelease), w)"
| "Acquire (perRequestSource d) w =
     (case d w of (Inl e, w) \<Rightarrow> (Inl e, w) | (Inr c, w) \<Rightarrow> (Inr (Some c, closeRelease c), w))"

fun ConnSource_Close :: "('e, 'o) grpc_lib \<Rightarrow> 'e ConnSource \<Rightarrow> world \<Rightarrow> ('e option \<times> 'e ConnSource) \<times> world" where
  "ConnSource_Close g (perWorkerSource c) w =
     (case c of None \<Rightarrow> ((None, perWorkerSource None), w)
      | Some c \<Rightarrow> (case conn_Close g c w of (e, w) \<Rightarrow> ((e, perWorkerSource None), w)))"
| "ConnSource_Close g (sharedSource c) w = ((None, sharedSource c), w)"
| "ConnSource_Close g (perRequestSource d) w = ((None, perRequestSource d), w)"

fun call_release :: "('e, 'o) grpc_lib \<Rightarrow> ReleaseFunc \<Rightarrow> world \<Rightarrow> world" where
  "call_release g noopRelease w = w"
| "call_release g (closeRelease c) w = snd (conn_Close g c w)"

text \<open>An interface value: the methods behind it, over the sources it hands out.\<close>

record ('s, 'e) pool_iface =
  if_NewSource :: "world \<Rightarrow> ('e + 's) \<times> world"
  if_Acquire :: "'s \<Rightarrow> world \<Rightarrow> ('e + conn option \<times> ReleaseFunc) \<times> world"
  if_SourceClose :: "'s \<Rightarrow> world \<Rightarrow> ('e option \<times> 's) \<times> world"
  if_PoolClose :: "world \<Rightarrow> 'e option \<times> world"

definition iface :: "('e, 'o) grpc_lib \<Rightarrow> 'e ConnPool \<Rightarrow> ('e ConnSource, 'e) pool_iface" where
  "iface g p = \<lparr>if_NewSource = NewSource p, if_Acquire = Acquire, if_SourceClose = ConnSource_Close g,
     if_PoolClose = ConnPool_Close g p\<rparr>"

section \<open>Proper traces\<close>

definition is_open :: "event list \<Rightarrow> conn \<Rightarrow> bool" where
  "is_open tr c \<longleftrightarrow> Dialed c \<in> set tr \<and> Closed c \<notin> set tr"

abbreviation opened :: "world \<Rightarrow> conn set" where
  "opened w \<equiv> Collect (is_open (w_trace w))"

fun proper :: "event list \<Rightarrow> bool" where
  "proper [] \<longleftrightarrow> True"
| "proper (Dialed c # tr) \<longleftrightarrow> proper tr \<and> Dialed c \<notin> set tr \<and> Closed c \<notin> set tr"
| "proper (Closed c # tr) \<longleftrightarrow> proper tr \<and> is_open tr c"
| "proper (Called c x # tr) \<longleftrightarrow> proper tr \<and> is_open tr c"
| "proper (Wrote out r # tr) \<longleftrightarrow> proper tr"

definition good_world :: "world \<Rightarrow> bool" where
  "good_world w \<longleftrightarrow> proper (w_trace w) \<and> (\<forall>c. Dialed c \<in> set (w_trace w) \<longrightarrow> c < w_dials w)"

text \<open>The operations on pools and sources neither read the clock nor make a call or write a report.\<close>

fun is_call :: "event \<Rightarrow> bool" where
  "is_call (Called c x) = True"
| "is_call _ = False"

definition calls :: "world \<Rightarrow> nat" where
  "calls w = length (filter is_call (w_trace w))"

text \<open>The reports written so far, the latest first.\<close>

fun writes_of :: "event list \<Rightarrow> (writer \<times> report) list" where
  "writes_of [] = []"
| "writes_of (Wrote out r # tr) = (out, r) # writes_of tr"
| "writes_of (_ # tr) = writes_of tr"

definition written :: "world \<Rightarrow> (writer \<times> report) list" where
  "written w = writes_of (w_trace w)"

definition quiet :: "world \<Rightarrow> world \<Rightarrow> bool" where
  "quiet w w' \<longleftrightarrow> w_tick w' = w_tick w \<and> calls w' = calls w \<and> written w' = written w"

lemma quiet_refl [simp]: "quiet w w"
  by (simp add: quiet_def)

lemma proper_closed_dialed: "proper tr \<Longrightarrow> Closed c \<in> set tr \<Longrightarrow> Dialed c \<in> set tr"
  by (induction tr rule: proper.induct) (auto simp: is_open_def)

text \<open>In a proper trace a connection is closed at most once, so none is closed twice.\<close>

lemma proper_closed_once: "proper tr \<Longrightarrow> count_list tr (Closed c) \<le> 1"
  by (induction tr rule: proper.induct) (auto simp: is_open_def count_list_0_iff)

lemma closed_exactly_once:
  assumes "good_world w" "opened w = {}" "Dialed c \<in> set (w_trace w)"
  shows "count_list (w_trace w) (Closed c) = 1"
proof -
  have "Closed c \<in> set (w_trace w)" using assms(2,3) by (auto simp: is_open_def)
  then have "count_list (w_trace w) (Closed c) \<noteq> 0" by (simp add: count_list_0_iff)
  moreover have "count_list (w_trace w) (Closed c) \<le> 1"
    using assms(1) by (intro proper_closed_once) (simp add: good_world_def)
  ultimately show ?thesis by linarith
qed

lemma is_open_simps [simp]:
  "is_open [] c \<longleftrightarrow> False"
  "is_open (Called d x # tr) c \<longleftrightarrow> is_open tr c"
  "is_open (Wrote out r # tr) c \<longleftrightarrow> is_open tr c"
  "is_open (Closed d # tr) c \<longleftrightarrow> is_open tr c \<and> c \<noteq> d"
  "is_open (Dialed d # tr) c \<longleftrightarrow> is_open tr c \<or> c = d \<and> Closed d \<notin> set tr"
  by (auto simp: is_open_def)

lemma conn_Close_world:
  assumes "conn_Close g c w = (e, w')" "good_world w" "c \<in> opened w"
  shows "good_world w' \<and> opened w' = opened w - {c} \<and> quiet w w'"
  using assms by (auto simp: conn_Close_def good_world_def quiet_def calls_def written_def)

section \<open>The contract of a dial function\<close>

text \<open>A dial that succeeds opens one fresh connection, one that fails opens none.\<close>

locale dialer =
  fixes d :: "'e dialFunc"
  assumes dial_ok: "d w = (Inr c, w') \<Longrightarrow> good_world w \<Longrightarrow>
      good_world w' \<and> c \<notin> opened w \<and> opened w' = insert c (opened w) \<and> quiet w w'"
    and dial_err: "d w = (Inl e, w') \<Longrightarrow> good_world w \<Longrightarrow>
      good_world w' \<and> opened w' = opened w \<and> quiet w w'"

lemma NewClient_ok:
  assumes "NewClient g target opts w = (Inr c, w')" "good_world w"
  shows "good_world w' \<and> c \<notin> opened w \<and> opened w' = insert c (opened w) \<and> quiet w w'"
proof -
  have c: "c = w_dials w" "w' = w\<lparr>w_dials := w_dials w + 1, w_trace := Dialed c # w_trace w\<rparr>"
    using assms(1) by (auto simp: NewClient_def Let_def split: option.splits)
  have fresh: "Dialed c \<notin> set (w_trace w)" using assms(2) by (auto simp: good_world_def c(1))
  then have "Closed c \<notin> set (w_trace w)"
    using assms(2) proper_closed_dialed by (auto simp: good_world_def)
  with fresh assms(2) show ?thesis
    by (auto simp: good_world_def c is_open_def less_Suc_eq quiet_def calls_def written_def)
qed

lemma NewClient_err:
  "NewClient g target opts w = (Inl e, w') \<Longrightarrow> good_world w \<Longrightarrow>
    good_world w' \<and> opened w' = opened w \<and> quiet w w'"
  by (auto simp: NewClient_def Let_def good_world_def less_Suc_eq quiet_def calls_def written_def
      split: option.splits)

interpretation bench_dial: dialer "dial g target plaintext skip extra" for g target plaintext skip extra
  by unfold_locales (auto simp: dial_def Let_def dest: NewClient_ok NewClient_err)

section \<open>The contracts of \<open>ConnSource\<close> and \<open>ConnPool\<close>\<close>

fun release_conns :: "ReleaseFunc \<Rightarrow> conn list" where
  "release_conns noopRelease = []"
| "release_conns (closeRelease c) = [c]"

text \<open>
  \<open>base\<close> are the connections the pool keeps for all its sources, \<open>owned s\<close> those a source must close.
  \<open>Acquire\<close> hands out an open connection of the pool, of the source, or a fresh one that the release
  function closes; whatever else is open stays open. No operation reads the clock, makes a call or
  writes a report.
\<close>

locale conn_source =
  fixes acquire :: "'s \<Rightarrow> world \<Rightarrow> ('e + conn option \<times> ReleaseFunc) \<times> world"
    and close_source :: "'s \<Rightarrow> world \<Rightarrow> ('e option \<times> 's) \<times> world"
    and rel :: "ReleaseFunc \<Rightarrow> world \<Rightarrow> world"
    and base :: "conn list" and owned :: "'s \<Rightarrow> conn list" and valid :: "'s \<Rightarrow> bool"
  assumes acquire_ok: "acquire s w = (Inr (c, r), w') \<Longrightarrow> good_world w \<Longrightarrow> valid s \<Longrightarrow>
      set base \<union> set (owned s) \<subseteq> opened w \<Longrightarrow>
      good_world w' \<and> (\<exists>k. c = Some k \<and> k \<in> set base \<union> set (owned s) \<union> set (release_conns r)) \<and>
      opened w' = opened w \<union> set (release_conns r) \<and> set (release_conns r) \<inter> opened w = {} \<and>
      quiet w w'"
    and acquire_err: "acquire s w = (Inl e, w') \<Longrightarrow> good_world w \<Longrightarrow> valid s \<Longrightarrow>
      good_world w' \<and> opened w' = opened w \<and> quiet w w'"
    and close_ok: "close_source s w = (e', w') \<Longrightarrow> good_world w \<Longrightarrow> valid s \<Longrightarrow>
      set (owned s) \<subseteq> opened w \<Longrightarrow>
      good_world w' \<and> opened w' = opened w - set (owned s) \<and> quiet w w'"
    and release_ok: "good_world w \<Longrightarrow> set (release_conns r) \<subseteq> opened w \<Longrightarrow>
      good_world (rel r w) \<and> opened (rel r w) = opened w - set (release_conns r) \<and>
      quiet w (rel r w)"
    and owned_distinct: "distinct (owned s)"
begin

text \<open>The bracket of one RPC leaves the open connections as they were.\<close>

lemma bracket:
  assumes "acquire s w = (Inr (c, r), w')" "good_world w" "valid s" "set base \<union> set (owned s) \<subseteq> opened w"
  shows "good_world (rel r w') \<and> opened (rel r w') = opened w"
proof -
  have a: "good_world w'" "opened w' = opened w \<union> set (release_conns r)"
    "set (release_conns r) \<inter> opened w = {}"
    using acquire_ok [OF assms] by simp_all
  have "set (release_conns r) \<subseteq> opened w'" unfolding a(2) by simp
  with release_ok [OF a(1)] a(2,3) show ?thesis by auto
qed

end

locale conn_pool = conn_source "if_Acquire P" "if_SourceClose P" rel base owned valid
  for P :: "('s, 'e) pool_iface" and rel base and owned :: "'s \<Rightarrow> conn list" and valid +
  assumes new_ok: "if_NewSource P w = (Inr s, w') \<Longrightarrow> good_world w \<Longrightarrow> set base \<subseteq> opened w \<Longrightarrow>
      good_world w' \<and> valid s \<and> opened w' = opened w \<union> set (owned s) \<and> set (owned s) \<inter> opened w = {} \<and>
      quiet w w'"
    and new_err: "if_NewSource P w = (Inl e, w') \<Longrightarrow> good_world w \<Longrightarrow> set base \<subseteq> opened w \<Longrightarrow>
      good_world w' \<and> opened w' = opened w \<and> quiet w w'"
    and pool_close: "if_PoolClose P w = (e', w') \<Longrightarrow> good_world w \<Longrightarrow> set base \<subseteq> opened w \<Longrightarrow>
      good_world w' \<and> opened w' = opened w - set base \<and> quiet w w'"
begin

text \<open>A source opened and closed again leaves no connection behind.\<close>

lemma session:
  assumes "if_NewSource P w = (Inr s, w1)" "if_SourceClose P s w1 = (e, w2)"
    and "good_world w" "set base \<subseteq> opened w"
  shows "good_world w2 \<and> opened w2 = opened w"
proof -
  have n: "good_world w1" "valid s" "opened w1 = opened w \<union> set (owned s)" "set (owned s) \<inter> opened w = {}"
    using new_ok [OF assms(1,3,4)] by simp_all
  have "set (owned s) \<subseteq> opened w1" unfolding n(3) by simp
  from close_ok [OF assms(2) n(1,2) this] n(3,4) show ?thesis by auto
qed

end

section \<open>The three models satisfy the contracts\<close>

fun source_conns :: "'e ConnSource \<Rightarrow> conn list" where
  "source_conns (perWorkerSource (Some c)) = [c]"
| "source_conns (perWorkerSource None) = []"
| "source_conns (sharedSource c) = []"
| "source_conns (perRequestSource d) = []"

fun pool_conns :: "'e ConnPool \<Rightarrow> conn list" where
  "pool_conns (sharedPool (Some c)) = [c]"
| "pool_conns (sharedPool None) = []"
| "pool_conns (perWorkerPool d) = []"
| "pool_conns (perRequestPool d) = []"

text \<open>The sources a pool hands out.\<close>

fun valid_source :: "'e ConnPool \<Rightarrow> 'e ConnSource \<Rightarrow> bool" where
  "valid_source (perWorkerPool d) (perWorkerSource c) \<longleftrightarrow> c \<noteq> None"
| "valid_source (sharedPool c) (sharedSource c') \<longleftrightarrow> c' = c \<and> c \<noteq> None"
| "valid_source (perRequestPool d) (perRequestSource d') \<longleftrightarrow> d' = d"
| "valid_source p s \<longleftrightarrow> False"

lemma distinct_source_conns: "distinct (source_conns s)"
  by (cases s rule: source_conns.cases) simp_all

lemma call_release_ok:
  assumes "good_world w" "set (release_conns r) \<subseteq> opened w"
  shows "good_world (call_release g r w) \<and> opened (call_release g r w) = opened w - set (release_conns r) \<and>
    quiet w (call_release g r w)"
  using assms conn_Close_world [of g _ w] by (cases r) (simp_all add: prod_eq_iff)

text \<open>The pools that \<open>newConnPool\<close> builds over a dial function.\<close>

definition pool_over :: "'e dialFunc \<Rightarrow> 'e ConnPool \<Rightarrow> bool" where
  "pool_over d p \<longleftrightarrow> p = perWorkerPool d \<or> p = perRequestPool d \<or> (\<exists>c. p = sharedPool (Some c))"

lemma pool_over_cases:
  assumes "pool_over d p"
  obtains "p = perWorkerPool d" | "p = perRequestPool d" | c where "p = sharedPool (Some c)"
  using assms by (auto simp: pool_over_def)

lemma valid_source_form:
  "valid_source (perWorkerPool d) s \<Longrightarrow> \<exists>c. s = perWorkerSource (Some c)"
  "valid_source (sharedPool c) s \<Longrightarrow> s = sharedSource c \<and> c \<noteq> None"
  "valid_source (perRequestPool d) s \<Longrightarrow> s = perRequestSource d"
  by (cases s; auto)+

lemmas pool_simps = iface_def call_release_ok distinct_source_conns
lemmas pool_splits = prod.splits sum.splits

context dialer
begin

lemma per_worker_pool:
  "conn_pool (iface g (perWorkerPool d)) (call_release g) [] source_conns (valid_source (perWorkerPool d))"
proof (unfold_locales, goal_cases)
  case (1 s w c r w')
  then show ?case by (auto simp: iface_def dest!: valid_source_form)
next
  case (2 s w e w')
  then show ?case by (auto simp: iface_def dest!: valid_source_form)
next
  case (3 s w e' w')
  then obtain c where c: "s = perWorkerSource (Some c)" "conn_Close g c w = (fst e', w')"
    by (auto simp: iface_def split: prod.splits dest!: valid_source_form)
  from conn_Close_world [OF c(2) 3(2)] c 3(4) show ?case by simp
next
  case (6 w s w')
  then obtain c where c: "s = perWorkerSource (Some c)" "d w = (Inr c, w')"
    by (auto simp: iface_def split: prod.splits sum.splits)
  with dial_ok [OF c(2) 6(2)] show ?case by simp
next
  case (7 w e w')
  then have "d w = (Inl e, w')" by (auto simp: iface_def split: prod.splits sum.splits)
  from dial_err [OF this 7(2)] show ?case .
qed (simp_all add: iface_def call_release_ok distinct_source_conns)

lemma per_request_pool:
  "conn_pool (iface g (perRequestPool d)) (call_release g) [] source_conns (valid_source (perRequestPool d))"
proof (unfold_locales, goal_cases)
  case (1 s w c r w')
  then obtain k where k: "c = Some k" "d w = (Inr k, w')" "r = closeRelease k"
    by (auto simp: iface_def split: prod.splits sum.splits dest!: valid_source_form)
  with dial_ok [OF k(2) 1(2)] show ?case by simp
next
  case (2 s w e w')
  then have "d w = (Inl e, w')"
    by (auto simp: iface_def split: prod.splits sum.splits dest!: valid_source_form)
  from dial_err [OF this 2(2)] show ?case .
next
  case (3 s w e' w')
  then show ?case by (auto simp: iface_def dest!: valid_source_form)
qed (simp_all add: iface_def call_release_ok distinct_source_conns)

end

lemma shared_pool:
  "conn_pool (iface g (sharedPool (Some c))) (call_release g) [c] source_conns (valid_source (sharedPool (Some c)))"
proof (unfold_locales, goal_cases)
  case (1 s w k r w')
  then show ?case by (auto simp: iface_def dest!: valid_source_form)
next
  case (2 s w e w')
  then show ?case by (auto simp: iface_def dest!: valid_source_form)
next
  case (3 s w e' w')
  then show ?case by (auto simp: iface_def dest!: valid_source_form)
next
  case (8 w e' w')
  then show ?case by (auto simp: iface_def dest: conn_Close_world)
qed (auto simp: iface_def call_release_ok distinct_source_conns)

interpretation per_worker: conn_pool "iface g (perWorkerPool (dial g target plaintext skip extra))"
    "call_release g" "[]" source_conns "valid_source (perWorkerPool (dial g target plaintext skip extra))"
  for g target plaintext skip extra
  by (rule bench_dial.per_worker_pool)

interpretation per_request: conn_pool "iface g (perRequestPool (dial g target plaintext skip extra))"
    "call_release g" "[]" source_conns "valid_source (perRequestPool (dial g target plaintext skip extra))"
  for g target plaintext skip extra
  by (rule bench_dial.per_request_pool)

interpretation shared: conn_pool "iface g (sharedPool (Some c))" "call_release g" "[c]" source_conns
    "valid_source (sharedPool (Some c))" for g c
  by (rule shared_pool)

text \<open>So every pool over a dial function satisfies the contract.\<close>

context dialer
begin

lemma pool_contract:
  assumes "pool_over d p"
  shows "conn_pool (iface g p) (call_release g) (pool_conns p) source_conns (valid_source p)"
  using assms
proof (cases rule: pool_over_cases)
  case 1
  then show ?thesis using per_worker_pool by simp
next
  case 2
  then show ?thesis using per_request_pool by simp
next
  case (3 c)
  then show ?thesis using shared_pool by simp
qed

lemma newConnPool_ok:
  assumes "newConnPool model d w = (Inr p, w')" "good_world w" "opened w = {}"
  shows "pool_over d p \<and> good_world w' \<and> opened w' = set (pool_conns p)"
  using assms dial_ok [of w]
  by (auto simp: newConnPool_def pool_over_def split: if_splits prod.splits sum.splits)

lemma newConnPool_quiet:
  assumes "newConnPool model d w = (Inr p, w')" "good_world w"
  shows "quiet w w'"
  using assms dial_ok [of w]
  by (auto simp: newConnPool_def split: if_splits prod.splits sum.splits)

lemma newConnPool_err:
  assumes "newConnPool model d w = (Inl e, w')" "good_world w"
  shows "good_world w' \<and> opened w' = opened w \<and> quiet w w'"
  using assms dial_err [of w]
  by (auto simp: newConnPool_def split: if_splits prod.splits sum.splits)

end

section \<open>Properties\<close>

text \<open>
  One use of a pool, from \<open>newConnPool\<close> to \<open>Close\<close>, for every connection model: \<open>Acquire\<close> hands
  out an open connection, and after the release function and the two \<open>Close\<close> calls every connection
  that was dialed has been closed, exactly once.
\<close>

theorem conn_session_closes_all:
  assumes "good_world w" "opened w = {}"
    and "newConnPool model (dial g target plaintext skip extra) w = (Inr p, w1)"
    and "NewSource p w1 = (Inr s, w2)" "Acquire s w2 = (Inr (c, r), w3)"
  shows "(\<exists>k. c = Some k \<and> k \<in> opened w3) \<and>
    (let w4 = call_release g r w3; w5 = snd (ConnSource_Close g s w4); w6 = snd (ConnPool_Close g p w5)
     in opened w6 = {} \<and> (\<forall>k. Dialed k \<in> set (w_trace w6) \<longrightarrow> count_list (w_trace w6) (Closed k) = 1))"
proof -
  have p: "pool_over (dial g target plaintext skip extra) p" "good_world w1" "opened w1 = set (pool_conns p)"
    using bench_dial.newConnPool_ok [OF assms(3,1,2)] by simp_all
  have C: "conn_pool (iface g p) (call_release g) (pool_conns p) source_conns (valid_source p)"
    by (rule bench_dial.pool_contract [OF p(1)])
  note S = conn_pool.axioms(1) [OF C]
  have n: "good_world w2" "valid_source p s" "opened w2 = set (pool_conns p) \<union> set (source_conns s)"
      "set (source_conns s) \<inter> set (pool_conns p) = {}"
    using conn_pool.new_ok [OF C, of w1 s w2] assms(4) p(2,3) by (simp_all add: iface_def)
  have a: "good_world w3" "\<exists>k. c = Some k \<and> k \<in> set (pool_conns p) \<union> set (source_conns s) \<union> set (release_conns r)"
      "opened w3 = opened w2 \<union> set (release_conns r)"
    using conn_source.acquire_ok [OF S, of s w2 c r w3] assms(5) n by (simp_all add: iface_def)
  define w4 where "w4 = call_release g r w3"
  have r: "good_world w4" "opened w4 = opened w2"
    using conn_source.bracket [OF S, of s w2 c r w3] assms(5) n by (simp_all add: iface_def w4_def)
  define w5 where "w5 = snd (ConnSource_Close g s w4)"
  have cl: "good_world w5" "opened w5 = set (pool_conns p)"
    using conn_source.close_ok [OF S, of s w4 "fst (ConnSource_Close g s w4)" w5] r n
    by (auto simp: iface_def w5_def)
  define w6 where "w6 = snd (ConnPool_Close g p w5)"
  have pc: "good_world w6" "opened w6 = {}"
    using conn_pool.pool_close [OF C, of w5 "fst (ConnPool_Close g p w5)" w6] cl
    by (simp_all add: iface_def w6_def)
  have "count_list (w_trace w6) (Closed k) = 1" if "Dialed k \<in> set (w_trace w6)" for k
    using pc that by (intro closed_exactly_once) auto
  with a(2,3) n(3) pc(2) show ?thesis by (auto simp: Let_def w4_def w5_def w6_def)
qed

text \<open>A gRPC library in which nothing fails, and a world in which nothing has happened.\<close>

definition quiet_lib :: "(nat, nat) grpc_lib" where
  "quiet_lib = \<lparr>grpc_NewClient = (\<lambda>_ _ _. None), conn_Close_error = (\<lambda>_ _. None)\<rparr>"

definition world0 :: world where
  "world0 = \<lparr>w_dials = 0, w_tick = 0, w_trace = []\<rparr>"

lemma good_world0 [simp]: "good_world world0" "opened world0 = {}"
  by (simp_all add: good_world_def world0_def)

theorem conn_session_closes_all_witness:
  "\<exists>p s r w3. newConnPool ''per-request'' (dial quiet_lib ''x'' True False []) world0 = (Inr p, world0) \<and>
     NewSource p world0 = (Inr s, world0) \<and> Acquire s world0 = (Inr (Some 0, r), w3) \<and>
     opened (snd (ConnPool_Close quiet_lib p (snd (ConnSource_Close quiet_lib s (call_release quiet_lib r w3))))) = {}"
proof -
  let ?d = "dial quiet_lib ''x'' True False []"
  have np: "newConnPool ''per-request'' ?d world0 = (Inr (perRequestPool ?d), world0)"
    by (simp add: newConnPool_def ConnModelPerWorker_def ConnModelShared_def ConnModelPerRequest_def)
  have ns: "NewSource (perRequestPool ?d) world0 = (Inr (perRequestSource ?d), world0)" by simp
  have aq: "Acquire (perRequestSource ?d) world0 =
      (Inr (Some 0, closeRelease 0), \<lparr>w_dials = 1, w_tick = 0, w_trace = [Dialed 0]\<rparr>)"
    by (simp add: dial_def NewClient_def quiet_lib_def world0_def)
  from conn_session_closes_all [OF good_world0 np ns aq]
  show ?thesis using np ns aq unfolding Let_def by blast
qed

end
