(* ===== verification/Payload.thy ===== *)
theory Payload
  imports Echopb
begin

text \<open>
  \<open>pkg/bench/payload.go\<close>: the \<open>--payload\<close> grammar (\<open>ParsePayloadMix\<close>, \<open>String\<close>, \<open>Set\<close>), the
  weighted selector (\<open>NewPayloadSelector\<close>, \<open>Pick\<close>) and the request builder
  (\<open>BuildEchoRequest\<close>). Errors keep the sentinel that \<open>errors.Is\<close> finds; a Go panic is \<open>None\<close>.
\<close>

section \<open>Shape names\<close>

definition payload_shape_table :: "(string \<times> PayloadShape) list" where
  "payload_shape_table =
     [(''string'', PAYLOAD_SHAPE_STRING), (''bytes'', PAYLOAD_SHAPE_BYTES),
      (''embedding-float'', PAYLOAD_SHAPE_EMBEDDING_FLOAT),
      (''embedding-bytes'', PAYLOAD_SHAPE_EMBEDDING_BYTES), (''mixed'', PAYLOAD_SHAPE_MIXED)]"

definition payloadShapeNames :: "string \<rightharpoonup> PayloadShape" where
  "payloadShapeNames = map_of payload_shape_table"

definition payloadShapeFlagNames :: "PayloadShape \<rightharpoonup> string" where
  "payloadShapeFlagNames = map_of (map (\<lambda>(k, v). (v, k)) payload_shape_table)"

text \<open>Indexing a Go map at a missing key gives the zero value.\<close>

definition flag_name :: "PayloadShape \<Rightarrow> string" where
  "flag_name p = (case payloadShapeFlagNames p of Some s \<Rightarrow> s | None \<Rightarrow> [])"

section \<open>Parsing and printing a mix\<close>

datatype mix_error =
  ErrEmptyMix | ErrUnknownShape | ErrInvalidWeight | ErrMalformedToken | ErrDuplicateShape
  | ErrMixedWeighting

record PayloadEntry =
  Shape :: PayloadShape
  Weight :: int64

type_synonym PayloadMix = "PayloadEntry list"

fun parse_tokens ::
  "string list \<Rightarrow> PayloadMix \<Rightarrow> PayloadShape list \<Rightarrow> nat \<Rightarrow> mix_error + PayloadMix \<times> nat" where
  "parse_tokens [] mix seen weightedCount = Inr (mix, weightedCount)"
| "parse_tokens (tok # toks) mix seen weightedCount =
     (if tok = [] then Inl ErrMalformedToken else
      let parts = split_on CHR '':'' tok in
      if length parts > 2 then Inl ErrMalformedToken else
      let name = parts ! 0 in
      if name = [] then Inl ErrMalformedToken else
      case payloadShapeNames name of
        None \<Rightarrow> Inl ErrUnknownShape
      | Some shape \<Rightarrow>
          if shape \<in> set seen then Inl ErrDuplicateShape
          else if length parts = 2 then
            (let ws = parts ! 1 in
             if ws = [] then Inl ErrInvalidWeight else
             case parse_int64 ws of
               None \<Rightarrow> Inl ErrInvalidWeight
             | Some w \<Rightarrow>
                 if w < 0 then Inl ErrInvalidWeight
                 else parse_tokens toks (mix @ [\<lparr>Shape = shape, Weight = w\<rparr>]) (shape # seen)
                        (weightedCount + 1))
          else parse_tokens toks (mix @ [\<lparr>Shape = shape, Weight = 1\<rparr>]) (shape # seen) weightedCount)"

definition ParsePayloadMix :: "string \<Rightarrow> mix_error + PayloadMix" where
  "ParsePayloadMix s =
     (let trimmed = trim_space s in
      if trimmed = [] then Inl ErrEmptyMix else
      case parse_tokens (split_on CHR '','' trimmed) [] [] 0 of
        Inl e \<Rightarrow> Inl e
      | Inr (mix, weightedCount) \<Rightarrow>
          if weightedCount \<noteq> 0 \<and> weightedCount \<noteq> length mix then Inl ErrMixedWeighting
          else Inr mix)"

definition weighted_token :: "PayloadEntry \<Rightarrow> string" where
  "weighted_token e = flag_name (Shape e) @ '':'' @ show_int (Weight e)"

definition PayloadMix_String :: "PayloadMix option \<Rightarrow> string" where
  "PayloadMix_String m =
     (case m of None \<Rightarrow> [] | Some [] \<Rightarrow> []
      | Some es \<Rightarrow> if length es = 1 \<and> Weight (es ! 0) = 1 then flag_name (Shape (es ! 0))
                  else join '','' (map weighted_token es))"

definition PayloadMix_Set :: "PayloadMix \<Rightarrow> string \<Rightarrow> PayloadMix \<times> mix_error option" where
  "PayloadMix_Set m s =
     (case ParsePayloadMix s of Inl e \<Rightarrow> (m, Some e) | Inr parsed \<Rightarrow> (parsed, None))"

definition PayloadMix_Type :: string where
  "PayloadMix_Type = ''payload-mix''"

section \<open>The weighted selector\<close>

record PayloadSizes =
  EmbeddingDim :: int64
  BytesSize :: int64
  StringLen :: int64

record PayloadSelector =
  shapes :: "PayloadShape list"
  cumWeights :: "int64 list"
  total :: int64

definition selector_step :: "PayloadSelector \<Rightarrow> PayloadEntry \<Rightarrow> PayloadSelector" where
  "selector_step s e =
     (if Weight e \<le> 0 then s else
      let t = wrap64 (total s + Weight e)
      in s\<lparr>total := t, shapes := shapes s @ [Shape e], cumWeights := cumWeights s @ [t]\<rparr>)"

definition NewPayloadSelector :: "PayloadMix \<Rightarrow> PayloadSelector option" where
  "NewPayloadSelector mix =
     (let s = foldl selector_step \<lparr>shapes = [], cumWeights = [], total = 0\<rparr> mix
      in if length (shapes s) = 0 then None else Some s)"

text \<open>\<open>sort.SearchInts\<close>: binary search for the first element that is at least \<open>x\<close>.\<close>

function search_ints :: "int list \<Rightarrow> int \<Rightarrow> nat \<Rightarrow> nat \<Rightarrow> nat" where
  "search_ints a x i j =
     (if i < j then
        let h = (i + j) div 2 in
        if a ! h < x then search_ints a x (h + 1) j else search_ints a x i h
      else i)"
  by pat_completeness auto
termination
  by (relation "measure (\<lambda>(a, x, i, j). j - i)") auto

declare search_ints.simps [simp del]

definition SearchInts :: "int list \<Rightarrow> int \<Rightarrow> nat" where
  "SearchInts a x = search_ints a x 0 (length a)"

text \<open>
  \<open>Pick\<close>. The random source is the argument \<open>intN\<close>: \<open>intN n\<close> is what \<open>r.IntN(n)\<close> returns.
  \<open>IntN\<close> panics when its argument is not positive, and indexing panics out of range.
\<close>

definition Pick :: "PayloadSelector \<Rightarrow> (int64 \<Rightarrow> int64) \<Rightarrow> PayloadShape option" where
  "Pick s intN =
     (if length (shapes s) = 1 then Some (shapes s ! 0)
      else if total s \<le> 0 then None
      else let n = intN (total s); idx = SearchInts (cumWeights s) (wrap64 (n + 1))
           in if idx < length (shapes s) then Some (shapes s ! idx) else None)"

section \<open>Building a request\<close>

text \<open>
  \<open>make\<close> and \<open>strings.Repeat\<close> panic on a negative length and on one whose bytes exceed the largest
  allocation, which the Go runtime puts at \<open>2^48\<close> bytes on 64-bit Linux. \<open>elem\<close> is the size of an
  element. Running out of memory below that limit is not modelled.
\<close>

definition maxAlloc :: int where
  "maxAlloc = 2 ^ 48"

definition alloc_ok :: "int \<Rightarrow> int64 \<Rightarrow> bool" where
  "alloc_ok elem n \<longleftrightarrow> 0 \<le> n \<and> elem * n \<le> maxAlloc"

definition make_slice :: "int \<Rightarrow> 'a \<Rightarrow> int64 \<Rightarrow> 'a list option" where
  "make_slice elem z n = (if alloc_ok elem n then Some (replicate (nat n) z) else None)"

definition repeat_x :: "int64 \<Rightarrow> string option" where
  "repeat_x n = make_slice 1 (CHR ''x'') n"

definition BuildEchoRequest :: "PayloadShape \<Rightarrow> PayloadSizes \<Rightarrow> EchoRequest option" where
  "BuildEchoRequest shape sizes =
     (let req = (\<lambda>p. \<lparr>rq_Query = [], rq_Shape = shape, rq_Payload = p\<rparr>) in
      if shape = PAYLOAD_SHAPE_STRING then
        map_option (\<lambda>s. req (Some (EchoRequest_StringPayload s))) (repeat_x (StringLen sizes))
      else if shape = PAYLOAD_SHAPE_BYTES then
        map_option (\<lambda>b. req (Some (EchoRequest_BytesPayload b)))
          (make_slice 1 (CHR 0x00) (BytesSize sizes))
      else if shape = PAYLOAD_SHAPE_EMBEDDING_FLOAT then
        map_option (\<lambda>v. req (Some (EchoRequest_EmbeddingFloat (Some \<lparr>ef_Values = v\<rparr>))))
          (make_slice 4 0 (EmbeddingDim sizes))
      else if shape = PAYLOAD_SHAPE_EMBEDDING_BYTES then
        map_option (\<lambda>b. req (Some (EchoRequest_EmbeddingBytes b)))
          (make_slice 1 (CHR 0x00) (wrap64 (EmbeddingDim sizes * 4)))
      else if shape = PAYLOAD_SHAPE_MIXED then
        (case (repeat_x (StringLen sizes), make_slice 1 (CHR 0x00) (BytesSize sizes)) of
           (Some s, Some b) \<Rightarrow>
             Some (req (Some (EchoRequest_Mixed (Some
               \<lparr>mp_Id = 0, mp_Name = s, mp_Count = 0, mp_Ratio = 0, mp_Enabled = False,
                mp_Tags = [], mp_Numbers = [], mp_Attrs = [], mp_Blob = b, mp_Extra = None\<rparr>))))
         | _ \<Rightarrow> None)
      else Some (req None))"

section \<open>Lemmas on the grammar\<close>

named_theorems mix "facts on tokens and names"

lemma names_inverse [mix]: "payloadShapeNames n = Some p \<longleftrightarrow> payloadShapeFlagNames p = Some n"
  by (auto simp: payloadShapeNames_def payloadShapeFlagNames_def payload_shape_table_def
      split: if_splits)

lemma flag_name_Some [mix]: "payloadShapeFlagNames p = Some n \<Longrightarrow> flag_name p = n"
  by (simp add: flag_name_def)

lemma flag_name_cases:
  assumes "p \<in> dom payloadShapeFlagNames"
  obtains "flag_name p = ''string''" | "flag_name p = ''bytes''" | "flag_name p = ''embedding-float''"
    | "flag_name p = ''embedding-bytes''" | "flag_name p = ''mixed''"
  using assms by (auto simp: flag_name_def payloadShapeFlagNames_def payload_shape_table_def
      split: if_splits)

lemma flag_name_ok [mix]:
  assumes "p \<in> dom payloadShapeFlagNames"
  shows "flag_name p \<noteq> []" "CHR '':'' \<notin> set (flag_name p)" "CHR '','' \<notin> set (flag_name p)"
    "ascii_graphic (hd (flag_name p))" "ascii_graphic (last (flag_name p))"
  by (rule flag_name_cases [OF assms]; simp add: ascii_graphic_def)+

lemma payloadShapeNames_flag_name [mix]:
  "p \<in> dom payloadShapeFlagNames \<Longrightarrow> payloadShapeNames (flag_name p) = Some p"
  by (auto simp: names_inverse flag_name_def)

definition wf_entry :: "PayloadEntry \<Rightarrow> bool" where
  "wf_entry e \<longleftrightarrow> Shape e \<in> dom payloadShapeFlagNames \<and> 0 \<le> Weight e \<and> Weight e < 2 ^ 63"

definition wf_mix :: "PayloadMix \<Rightarrow> bool" where
  "wf_mix m \<longleftrightarrow> m \<noteq> [] \<and> distinct (map Shape m) \<and> (\<forall>e\<in>set m. wf_entry e)"

text \<open>What one token of the grammar stands for: a bare name, or a name with a weight.\<close>

definition token_entry :: "bool \<Rightarrow> string \<Rightarrow> PayloadEntry \<Rightarrow> bool" where
  "token_entry weighted tok e \<longleftrightarrow>
     (if weighted then \<exists>ws. tok = flag_name (Shape e) @ '':'' @ ws \<and> parse_int64 ws = Some (Weight e)
      else tok = flag_name (Shape e) \<and> Weight e = 1)"

lemma parse_digits_chars: "parse_digits s = Some n \<Longrightarrow> s \<noteq> [] \<and> list_all is_digit s"
  by (auto simp: parse_digits_def split: if_splits)

lemma parse_int64_chars:
  assumes "parse_int64 s = Some w"
  shows "s \<noteq> [] \<and> CHR '':'' \<notin> set s \<and> CHR '','' \<notin> set s \<and> is_digit (last s)"
proof (cases s)
  case Nil
  with assms show ?thesis by (simp add: parse_int64_def parse_digits_def)
next
  case (Cons c t)
  have d: "u \<noteq> [] \<and> CHR '':'' \<notin> set u \<and> CHR '','' \<notin> set u \<and> is_digit (last u)"
    if "parse_digits u = Some n" for u n
    using parse_digits_chars [OF that] is_digit_not_sign by (auto simp: list_all_iff)
  show ?thesis
    using assms Cons d [of t] d [of s]
    by (auto simp: parse_int64_def Let_def split: option.splits if_splits)
qed

lemma split_one: "split_on sep tok = [n] \<longleftrightarrow> tok = n \<and> sep \<notin> set n"
  using split_on_none [of sep n] join_split_on [of sep tok] split_on_parts [of n sep tok] by auto

lemma split_two: "split_on sep tok = [n, w] \<longleftrightarrow> tok = n @ sep # w \<and> sep \<notin> set n \<and> sep \<notin> set w"
  using split_on_append [of sep n w] split_on_none [of sep w] join_split_on [of sep tok]
    split_on_parts [of n sep tok] split_on_parts [of w sep tok] by auto

lemma split_at_most_two:
  assumes "\<not> length (split_on sep tok) > 2"
  obtains n where "split_on sep tok = [n]" | n w where "split_on sep tok = [n, w]"
  using assms split_on_nonempty [of sep tok]
  by (cases "split_on sep tok" rule: list.exhaust; cases "tl (split_on sep tok)") auto

lemma token_entry_weighted_split:
  "wf_entry e \<Longrightarrow> token_entry True tok e \<Longrightarrow>
     \<exists>ws. split_on CHR '':'' tok = [flag_name (Shape e), ws] \<and> parse_int64 ws = Some (Weight e) \<and> ws \<noteq> []"
  using parse_int64_chars by (fastforce simp: token_entry_def wf_entry_def split_two mix)

lemma token_entry_bare_split:
  "wf_entry e \<Longrightarrow> token_entry False tok e \<Longrightarrow> split_on CHR '':'' tok = [flag_name (Shape e)]"
  by (auto simp: token_entry_def wf_entry_def split_one mix)

text \<open>One iteration of the parser loop succeeds exactly on a token of the grammar.\<close>

lemma parse_tokens_step_intro:
  assumes "token_entry b tok e" "wf_entry e" "Shape e \<notin> set seen"
  shows "parse_tokens (tok # toks) mix seen wc =
     parse_tokens toks (mix @ [e]) (Shape e # seen) (if b then wc + 1 else wc)"
proof -
  have dom: "Shape e \<in> dom payloadShapeFlagNames" using assms(2) by (simp add: wf_entry_def)
  obtain p w where e: "e = \<lparr>Shape = p, Weight = w\<rparr>" by (cases e) auto
  note n = payloadShapeNames_flag_name [OF dom] flag_name_ok [OF dom]
  show ?thesis
  proof (cases b)
    case True
    with assms(1) have "token_entry True tok e" by simp
    from token_entry_weighted_split [OF assms(2) this] obtain ws where
      "split_on CHR '':'' tok = [flag_name (Shape e), ws]"
      "parse_int64 ws = Some (Weight e)" "ws \<noteq> []"
      by blast
    with True assms n e show ?thesis
      by (auto simp: token_entry_def wf_entry_def)
  next
    case False
    with assms token_entry_bare_split [of e tok] n e show ?thesis
      by (auto simp: token_entry_def)
  qed
qed

lemma parse_tokens_step_elim:
  assumes "parse_tokens (tok # toks) mix seen wc = Inr r"
  obtains b e where "token_entry b tok e" "wf_entry e" "Shape e \<notin> set seen"
    "parse_tokens toks (mix @ [e]) (Shape e # seen) (if b then wc + 1 else wc) = Inr r"
proof -
  from assms have len: "\<not> length (split_on CHR '':'' tok) > 2" "tok \<noteq> []"
    by (auto simp: Let_def split: if_splits)
  show thesis
  proof (rule split_at_most_two [OF len(1)])
    fix n assume n: "split_on CHR '':'' tok = [n]"
    with assms len obtain p where p: "payloadShapeNames n = Some p" "p \<notin> set seen"
      "parse_tokens toks (mix @ [\<lparr>Shape = p, Weight = 1\<rparr>]) (p # seen) wc = Inr r"
      by (auto simp: Let_def split: if_splits option.splits)
    with n show thesis
      by (intro that [of False "\<lparr>Shape = p, Weight = 1\<rparr>"])
        (auto simp: token_entry_def wf_entry_def names_inverse split_one dest: flag_name_Some)
  next
    fix n ws assume n: "split_on CHR '':'' tok = [n, ws]"
    with assms len obtain p w where p: "payloadShapeNames n = Some p" "p \<notin> set seen"
      "parse_int64 ws = Some w" "\<not> w < 0"
      "parse_tokens toks (mix @ [\<lparr>Shape = p, Weight = w\<rparr>]) (p # seen) (wc + 1) = Inr r"
      by (auto simp: Let_def split: if_splits option.splits)
    moreover have "w < 2 ^ 63" using parse_int64_range [OF p(3)] by (simp add: in_int64_def)
    ultimately show thesis using n
      by (intro that [of True "\<lparr>Shape = p, Weight = w\<rparr>"])
        (auto simp: token_entry_def wf_entry_def names_inverse split_two dest: flag_name_Some)
  qed
qed

lemma parse_tokens_sound:
  "parse_tokens toks mix seen wc = Inr (mix', wc') \<Longrightarrow>
     \<exists>bs es. mix' = mix @ es \<and> length bs = length toks \<and>
       list_all2 (\<lambda>tok (b, e). token_entry b tok e) toks (zip bs es) \<and>
       length es = length toks \<and> wc' = wc + length (filter (\<lambda>b. b) bs) \<and>
       (\<forall>e\<in>set es. wf_entry e) \<and> distinct (map Shape es) \<and> set (map Shape es) \<inter> set seen = {}"
proof (induction toks arbitrary: mix seen wc)
  case Nil
  then show ?case by (intro exI [of _ "[]"]) simp
next
  case (Cons tok toks)
  from Cons.prems obtain b e where be: "token_entry b tok e" "wf_entry e" "Shape e \<notin> set seen"
    and rec: "parse_tokens toks (mix @ [e]) (Shape e # seen) (if b then wc + 1 else wc) = Inr (mix', wc')"
    by (rule parse_tokens_step_elim)
  from Cons.IH [OF rec] obtain bs es where IH: "mix' = (mix @ [e]) @ es" "length bs = length toks"
    "list_all2 (\<lambda>tok (b, e). token_entry b tok e) toks (zip bs es)" "length es = length toks"
    "wc' = (if b then wc + 1 else wc) + length (filter (\<lambda>b. b) bs)"
    "\<forall>e\<in>set es. wf_entry e" "distinct (map Shape es)" "set (map Shape es) \<inter> set (Shape e # seen) = {}"
    by blast
  with be show ?case
    by (intro exI [of _ "b # bs"] exI [of _ "e # es"]) auto
qed

lemma parse_tokens_complete:
  assumes "list_all2 (token_entry b) toks es" "\<forall>e\<in>set es. wf_entry e" "distinct (map Shape es)"
    "set (map Shape es) \<inter> set seen = {}"
  shows "parse_tokens toks mix seen wc = Inr (mix @ es, if b then wc + length es else wc)"
  using assms
proof (induction toks es arbitrary: mix seen wc rule: list_all2_induct)
  case Nil
  then show ?case by simp
next
  case (Cons tok toks e es)
  have "parse_tokens (tok # toks) mix seen wc =
      parse_tokens toks (mix @ [e]) (Shape e # seen) (if b then wc + 1 else wc)"
    using Cons by (intro parse_tokens_step_intro) auto
  also have "\<dots> = Inr ((mix @ [e]) @ es, if b then (if b then wc + 1 else wc) + length es else (if b then wc + 1 else wc))"
    using Cons.prems by (intro Cons.IH) auto
  finally show ?case by simp
qed

lemma list_all2_const_zip:
  assumes "list_all2 (\<lambda>tok (b, e). P b tok e) toks (zip bs es)" "length bs = length es" "\<forall>b\<in>set bs. b = c"
  shows "list_all2 (P c) toks es"
  using assms by (auto simp: list_all2_conv_all_nth) (metis nth_mem)

text \<open>
  The accepted language: after trimming, a comma-separated list of tokens that are all bare or all
  weighted, of known and distinct shapes.
\<close>

lemma ParsePayloadMix_iff:
  "ParsePayloadMix s = Inr m \<longleftrightarrow>
     trim_space s \<noteq> [] \<and> wf_mix m \<and>
     (\<exists>weighted. list_all2 (token_entry weighted) (split_on CHR '','' (trim_space s)) m)"
  (is "?L \<longleftrightarrow> ?R")
proof
  let ?toks = "split_on CHR '','' (trim_space s)"
  assume L: ?L
  then have ne: "trim_space s \<noteq> []" by (auto simp: ParsePayloadMix_def)
  with L obtain wc where p: "parse_tokens ?toks [] [] 0 = Inr (m, wc)" "wc = 0 \<or> wc = length m"
    by (auto simp: ParsePayloadMix_def split: sum.splits if_splits)
  from parse_tokens_sound [OF p(1)] obtain bs where bs: "length bs = length m"
    "list_all2 (\<lambda>tok (b, e). token_entry b tok e) ?toks (zip bs m)" "length m = length ?toks"
    "wc = length (filter (\<lambda>b. b) bs)" "\<forall>e\<in>set m. wf_entry e" "distinct (map Shape m)"
    by auto
  have "\<exists>c. \<forall>b\<in>set bs. b = c"
  proof (cases "wc = 0")
    case True
    with bs(4) have "\<forall>b\<in>set bs. b = False" by (simp add: filter_empty_conv)
    then show ?thesis by blast
  next
    case False
    with p(2) bs(1,4) have "length (filter (\<lambda>b. b) bs) = length bs" by simp
    then have "\<forall>b\<in>set bs. b = True" by (metis (full_types) length_filter_less less_irrefl)
    then show ?thesis by blast
  qed
  then obtain c where "\<forall>b\<in>set bs. b = c" by blast
  from this bs(2,1) have "list_all2 (token_entry c) ?toks m"
    by (rule list_all2_const_zip [where P = token_entry, rotated 2])
  with ne bs show ?R by (auto simp: wf_mix_def)
next
  let ?toks = "split_on CHR '','' (trim_space s)"
  assume R: ?R
  then obtain b where b: "list_all2 (token_entry b) ?toks m" by blast
  from R have "parse_tokens ?toks [] [] 0 = Inr ([] @ m, if b then 0 + length m else 0)"
    by (intro parse_tokens_complete [OF b]) (auto simp: wf_mix_def)
  with R show ?L by (auto simp: ParsePayloadMix_def)
qed

section \<open>Printing is inverted by parsing\<close>

lemma hd_join: "xs \<noteq> [] \<Longrightarrow> hd xs \<noteq> [] \<Longrightarrow> hd (join sep xs) = hd (hd xs)"
  by (cases "(sep, xs)" rule: join.cases) auto

lemma join_eq_Nil: "xs \<noteq> [] \<Longrightarrow> hd xs \<noteq> [] \<Longrightarrow> join sep xs \<noteq> []"
  by (cases "(sep, xs)" rule: join.cases) auto

lemma last_join: "xs \<noteq> [] \<Longrightarrow> \<forall>x\<in>set xs. x \<noteq> [] \<Longrightarrow> last (join sep xs) = last (last xs)"
  by (induction sep xs rule: join.induct) (auto simp: join_eq_Nil)

lemma is_digit_graphic: "is_digit c \<Longrightarrow> ascii_graphic c"
  by (simp add: is_digit_def ascii_graphic_def)

lemma set_show_int: "0 \<le> w \<Longrightarrow> c \<in> set (show_int w) \<Longrightarrow> is_digit c"
  using list_all_show_nat [of "nat w"] by (auto simp: show_int_def list_all_iff)

lemma show_int_nonempty [simp]: "show_int w \<noteq> []"
  by (simp add: show_int_def)

lemma weighted_token_ok:
  assumes "wf_entry e"
  shows "weighted_token e \<noteq> []" "CHR '','' \<notin> set (weighted_token e)"
    "ascii_graphic (hd (weighted_token e))" "ascii_graphic (last (weighted_token e))"
    "token_entry True (weighted_token e) e"
proof -
  have dom: "Shape e \<in> dom payloadShapeFlagNames" and w: "0 \<le> Weight e" "Weight e < 2 ^ 63"
    using assms by (auto simp: wf_entry_def)
  note n = flag_name_ok [OF dom]
  show "weighted_token e \<noteq> []" "ascii_graphic (hd (weighted_token e))"
    using n by (simp_all add: weighted_token_def)
  have "is_digit c \<Longrightarrow> c \<noteq> CHR '',''" for c by (auto simp: is_digit_def)
  then show "CHR '','' \<notin> set (weighted_token e)"
    using n set_show_int [OF w(1)] by (auto simp: weighted_token_def)
  have "is_digit (last (show_int (Weight e)))"
    using set_show_int [OF w(1)] by simp
  then show "ascii_graphic (last (weighted_token e))"
    by (simp add: weighted_token_def is_digit_graphic)
  show "token_entry True (weighted_token e) e"
    using w parse_int64_show_int [of "Weight e"] by (auto simp: token_entry_def weighted_token_def in_int64_def)
qed

lemma PayloadMix_String_tokens:
  assumes "wf_mix m"
  obtains weighted toks where "toks \<noteq> []" "PayloadMix_String (Some m) = join '','' toks"
    "list_all2 (token_entry weighted) toks m"
    "\<forall>t\<in>set toks. t \<noteq> [] \<and> CHR '','' \<notin> set t \<and> ascii_graphic (hd t) \<and> ascii_graphic (last t)"
proof (cases "length m = 1 \<and> Weight (m ! 0) = 1")
  case True
  then obtain e where m: "m = [e]" "Weight e = 1" by (cases m) auto
  with assms have "Shape e \<in> dom payloadShapeFlagNames" by (simp add: wf_mix_def wf_entry_def)
  from flag_name_ok [OF this] m show thesis
    by (intro that [of "[flag_name (Shape e)]" False]) (auto simp: PayloadMix_String_def token_entry_def)
next
  case False
  from assms have ne: "m \<noteq> []" and wf: "\<And>e. e \<in> set m \<Longrightarrow> wf_entry e"
    by (auto simp: wf_mix_def)
  have "PayloadMix_String (Some m) = join '','' (map weighted_token m)"
    using False ne by (cases m) (auto simp: PayloadMix_String_def)
  with ne wf weighted_token_ok show thesis
    by (intro that [of "map weighted_token m" True]) (auto simp: list_all2_conv_all_nth)
qed

lemma PayloadMix_parse_print:
  assumes "wf_mix m"
  shows "ParsePayloadMix (PayloadMix_String (Some m)) = Inr m"
proof -
  obtain weighted toks where t: "toks \<noteq> []" "PayloadMix_String (Some m) = join '','' toks"
    "list_all2 (token_entry weighted) toks m"
    "\<forall>t\<in>set toks. t \<noteq> [] \<and> CHR '','' \<notin> set t \<and> ascii_graphic (hd t) \<and> ascii_graphic (last t)"
    using PayloadMix_String_tokens [OF assms] by blast
  have ne: "join '','' toks \<noteq> []" using t by (simp add: join_eq_Nil)
  have "trim_space (join '','' toks) = join '','' toks"
    using t ne by (intro trim_space_graphic) (simp_all add: hd_join last_join)
  moreover have "split_on CHR '','' (join '','' toks) = toks"
    using t by (intro split_on_join) auto
  ultimately show ?thesis
    using assms t ne unfolding t(2) ParsePayloadMix_iff by auto
qed

section \<open>Lemmas on the selector\<close>

abbreviation positive :: "PayloadMix \<Rightarrow> PayloadMix" where
  "positive mix \<equiv> filter (\<lambda>e. 0 < Weight e) mix"

definition weight_sum :: "PayloadMix \<Rightarrow> int" where
  "weight_sum mix = sum_list (map Weight (positive mix))"

definition prefix_weight :: "PayloadMix \<Rightarrow> nat \<Rightarrow> int" where
  "prefix_weight mix i = sum_list (map Weight (take i (positive mix)))"

lemma selector_fold:
  "foldl selector_step \<lparr>shapes = [], cumWeights = [], total = 0\<rparr> mix =
     \<lparr>shapes = map Shape (positive mix),
      cumWeights = map (\<lambda>i. wrap64 (prefix_weight mix (Suc i))) [0..<length (positive mix)],
      total = wrap64 (weight_sum mix)\<rparr>"
proof (induction mix rule: rev_induct)
  case Nil
  then show ?case by (simp add: weight_sum_def)
next
  case (snoc e mix)
  have pre: "i \<le> length (positive mix) \<Longrightarrow> prefix_weight (mix @ [e]) i = prefix_weight mix i" for i
    by (simp add: prefix_weight_def)
  note step = foldl_append foldl.simps snoc
  show ?case
  proof (cases "0 < Weight e")
    case True
    then have "prefix_weight (mix @ [e]) (Suc (length (positive mix))) = weight_sum mix + Weight e"
      by (simp add: prefix_weight_def weight_sum_def)
    with True show ?thesis unfolding step
      by (simp add: selector_step_def Let_def wrap64_add_left pre weight_sum_def)
  next
    case False
    then show ?thesis unfolding step
      by (simp add: selector_step_def weight_sum_def prefix_weight_def)
  qed
qed

lemma NewPayloadSelector_eq:
  "NewPayloadSelector mix =
     (if positive mix = [] then None else
      Some \<lparr>shapes = map Shape (positive mix),
        cumWeights = map (\<lambda>i. wrap64 (prefix_weight mix (Suc i))) [0..<length (positive mix)],
        total = wrap64 (weight_sum mix)\<rparr>)"
  by (simp add: NewPayloadSelector_def selector_fold)

text \<open>Binary search finds the boundary between the elements below \<open>x\<close> and the rest.\<close>

lemma search_ints_boundary:
  assumes "sorted a" "i \<le> j" "j \<le> length a" "\<forall>k. k < i \<longrightarrow> a ! k < x" "\<forall>k. j \<le> k \<and> k < length a \<longrightarrow> x \<le> a ! k"
  shows "search_ints a x i j \<le> length a \<and> (\<forall>k. k < search_ints a x i j \<longrightarrow> a ! k < x) \<and>
     (\<forall>k. search_ints a x i j \<le> k \<and> k < length a \<longrightarrow> x \<le> a ! k)"
  using assms
proof (induction a x i j rule: search_ints.induct)
  case (1 a x i j)
  show ?case
  proof (cases "i < j")
    case False
    then have eq: "search_ints a x i j = i" by (subst search_ints.simps) simp
    with "1.prems" False show ?thesis unfolding eq by simp
  next
    case True
    define h where "h = (i + j) div 2"
    have h: "i \<le> h" "h < j" using True by (auto simp: h_def)
    have mono: "k \<le> l \<Longrightarrow> l < length a \<Longrightarrow> a ! k \<le> a ! l" for k l
      using "1.prems"(1) by (rule sorted_nth_mono)
    show ?thesis
    proof (cases "a ! h < x")
      case lt: True
      then have eq: "search_ints a x i j = search_ints a x (h + 1) j"
        using True by (simp add: search_ints.simps [of a x i j] h_def)
      have "a ! k < x" if "k < h + 1" for k
        using that mono [of k h] lt h "1.prems"(3) by simp
      with "1.IH"(1) [OF True h_def] lt "1.prems" h show ?thesis unfolding eq by simp
    next
      case ge: False
      then have eq: "search_ints a x i j = search_ints a x i h"
        using True by (simp add: search_ints.simps [of a x i j] h_def)
      have "x \<le> a ! k" if "h \<le> k" "k < length a" for k
        using that mono [of h k] ge by simp
      with "1.IH"(2) [OF True h_def] ge "1.prems" h show ?thesis unfolding eq by simp
    qed
  qed
qed

lemma SearchInts_unique:
  assumes "sorted a" "i \<le> length a" "\<And>k. k < i \<Longrightarrow> a ! k < x" "\<And>k. i \<le> k \<Longrightarrow> k < length a \<Longrightarrow> x \<le> a ! k"
  shows "SearchInts a x = i"
proof -
  let ?r = "SearchInts a x"
  have b: "?r \<le> length a" "\<forall>k. k < ?r \<longrightarrow> a ! k < x" "\<forall>k. ?r \<le> k \<and> k < length a \<longrightarrow> x \<le> a ! k"
    using search_ints_boundary [of a 0 "length a" x] assms(1) by (auto simp: SearchInts_def)
  then have "\<not> ?r < i" "\<not> i < ?r" using assms by (metis leD order.refl order.strict_trans2)+
  then show ?thesis by simp
qed

lemma prefix_weight_0 [simp]: "prefix_weight mix 0 = 0"
  by (simp add: prefix_weight_def)

lemma prefix_weight_Suc:
  "i < length (positive mix) \<Longrightarrow>
     prefix_weight mix (Suc i) = prefix_weight mix i + Weight (positive mix ! i)"
  by (simp add: prefix_weight_def take_Suc_conv_app_nth)

lemma prefix_weight_all: "prefix_weight mix (length (positive mix)) = weight_sum mix"
  by (simp add: prefix_weight_def weight_sum_def)

lemma positive_nth: "i < length (positive mix) \<Longrightarrow> 0 < Weight (positive mix ! i)"
  using nth_mem by fastforce

lemma prefix_weight_mono:
  "i \<le> j \<Longrightarrow> j \<le> length (positive mix) \<Longrightarrow> prefix_weight mix i \<le> prefix_weight mix j"
proof (induction j)
  case (Suc j)
  then show ?case using positive_nth [of j mix]
    by (cases "i = Suc j") (auto simp: prefix_weight_Suc)
qed simp

lemma prefix_weight_range:
  assumes "weight_sum mix < 2 ^ 63" "i \<le> length (positive mix)"
  shows "0 \<le> prefix_weight mix i" "prefix_weight mix i < 2 ^ 63"
  using assms prefix_weight_mono [of 0 i mix] prefix_weight_mono [of i "length (positive mix)" mix]
  by (auto simp: prefix_weight_all)

lemma prefix_weight_interval:
  "m \<le> length (positive mix) \<Longrightarrow> 0 \<le> n \<Longrightarrow> n < prefix_weight mix m \<Longrightarrow>
     \<exists>i<m. prefix_weight mix i \<le> n \<and> n < prefix_weight mix (Suc i)"
proof (induction m)
  case (Suc m)
  show ?case
  proof (cases "n < prefix_weight mix m")
    case True
    with Suc show ?thesis by (metis Suc_leD less_SucI)
  next
    case False
    with Suc.prems show ?thesis by (intro exI [of _ m]) simp
  qed
qed simp

definition selector_of :: "PayloadMix \<Rightarrow> PayloadSelector \<Rightarrow> bool" where
  "selector_of mix s \<longleftrightarrow> NewPayloadSelector mix = Some s \<and> weight_sum mix < 2 ^ 63"

lemma selector_fields:
  assumes "selector_of mix s"
  shows "shapes s = map Shape (positive mix)"
    "cumWeights s = map (\<lambda>i. prefix_weight mix (Suc i)) [0..<length (positive mix)]"
    "total s = weight_sum mix"
proof -
  have sel: "NewPayloadSelector mix = Some s" and small: "weight_sum mix < 2 ^ 63"
    using assms by (simp_all add: selector_of_def)
  have "wrap64 (prefix_weight mix i) = prefix_weight mix i" if "i \<le> length (positive mix)" for i
    using prefix_weight_range [OF small that] by (intro wrap64_id) (simp add: in_int64_def)
  from this this [of "length (positive mix)"] sel show "shapes s = map Shape (positive mix)"
    "cumWeights s = map (\<lambda>i. prefix_weight mix (Suc i)) [0..<length (positive mix)]"
    "total s = weight_sum mix"
    by (auto simp: NewPayloadSelector_eq prefix_weight_all split: if_splits)
qed

lemma selector_nonempty: "selector_of mix s \<Longrightarrow> 0 < length (positive mix)"
  by (auto simp: selector_of_def NewPayloadSelector_eq split: if_splits)

lemma selector_total_pos: "selector_of mix s \<Longrightarrow> 0 < total s"
  using prefix_weight_mono [of "Suc 0" "length (positive mix)" mix] prefix_weight_Suc [of 0 mix]
    positive_nth [of 0 mix] selector_nonempty [of mix s] Suc_leI [of 0 "length (positive mix)"]
  by (simp add: selector_fields prefix_weight_all [symmetric] del: length_greater_0_conv)

lemma search_index:
  assumes sel: "selector_of mix s" and i: "i < length (positive mix)"
    and n: "prefix_weight mix i \<le> n" "n < prefix_weight mix (Suc i)"
  shows "SearchInts (cumWeights s) (wrap64 (n + 1)) = i"
proof -
  have small: "weight_sum mix < 2 ^ 63" using sel by (simp add: selector_of_def)
  have "0 \<le> n" "n + 1 < 2 ^ 63"
    using n prefix_weight_range [OF small, of i] prefix_weight_range [OF small, of "Suc i"] i by auto
  then have w: "wrap64 (n + 1) = n + 1" by (intro wrap64_id) (auto simp: in_int64_def)
  have "sorted (cumWeights s)"
    using sel by (auto simp: selector_fields sorted_iff_nth_mono intro!: prefix_weight_mono)
  moreover have "cumWeights s ! k < n + 1" if "k < i" for k
    using that i n prefix_weight_mono [of "Suc k" i mix] sel by (simp add: selector_fields)
  moreover have "n + 1 \<le> cumWeights s ! k" if "i \<le> k" "k < length (positive mix)" for k
    using that n prefix_weight_mono [of "Suc i" "Suc k" mix] sel by (simp add: selector_fields)
  ultimately show ?thesis unfolding w
    using i sel by (intro SearchInts_unique) (auto simp: selector_fields)
qed

lemma selector_interval:
  assumes "selector_of mix s" "0 \<le> n" "n < total s"
  obtains i where "i < length (positive mix)" "prefix_weight mix i \<le> n" "n < prefix_weight mix (Suc i)"
  using prefix_weight_interval [of "length (positive mix)" mix n] assms
  by (auto simp: selector_fields prefix_weight_all)

lemma Pick_index:
  assumes sel: "selector_of mix s" and i: "i < length (positive mix)"
    and n: "prefix_weight mix i \<le> intN (total s)" "intN (total s) < prefix_weight mix (Suc i)"
  shows "Pick s intN = Some (Shape (positive mix ! i))"
proof (cases "length (positive mix) = 1")
  case True
  with i sel show ?thesis by (simp add: Pick_def selector_fields)
next
  case False
  with i sel selector_total_pos [OF sel] search_index [OF assms] show ?thesis
    by (simp add: Pick_def Let_def) (simp add: selector_fields)
qed

lemma Pick_set:
  assumes sel: "selector_of mix s" and d: "distinct (map Shape (positive mix))"
    and i: "i < length (positive mix)"
  shows "{n. 0 \<le> n \<and> n < total s \<and> Pick s (\<lambda>_. n) = Some (Shape (positive mix ! i))} =
    {prefix_weight mix i ..< prefix_weight mix (Suc i)}" (is "?A = ?B")
proof
  show "?B \<subseteq> ?A"
    using i Pick_index [OF sel, of i] prefix_weight_mono [of 0 i mix] sel
      prefix_weight_mono [of "Suc i" "length (positive mix)" mix]
    by (auto simp: selector_fields prefix_weight_all)
  show "?A \<subseteq> ?B"
  proof
    fix n assume n: "n \<in> ?A"
    then obtain j where j: "j < length (positive mix)" "prefix_weight mix j \<le> n"
      "n < prefix_weight mix (Suc j)"
      using selector_interval [OF sel] by blast
    then have "Shape (positive mix ! j) = Shape (positive mix ! i)"
      using n Pick_index [OF sel, of j "\<lambda>_. n"] by simp
    then have "j = i" using d i j by (simp add: distinct_conv_nth) (metis nth_map)
    with j show "n \<in> ?B" by simp
  qed
qed

text \<open>The facts a run needs: picking and building cannot panic under these bounds.\<close>

lemma Pick_in_range:
  assumes "NewPayloadSelector mix = Some s" "weight_sum mix < 2 ^ 63"
    and "0 \<le> intN (total s)" "intN (total s) < total s"
  shows "\<exists>e\<in>set mix. 0 < Weight e \<and> Pick s intN = Some (Shape e)"
proof -
  have sel: "selector_of mix s" using assms by (simp add: selector_of_def)
  obtain i where i: "i < length (positive mix)" "prefix_weight mix i \<le> intN (total s)"
    "intN (total s) < prefix_weight mix (Suc i)"
    using selector_interval [OF sel assms(3,4)] .
  from nth_mem [OF i(1)] Pick_index [OF sel, of i intN] i show ?thesis by auto
qed

text \<open>
  The binary search returns the length only when the last element is below the target, whether or
  not the list is sorted.
\<close>

lemma search_ints_last:
  "i \<le> j \<Longrightarrow> i \<le> search_ints a x i j \<and> search_ints a x i j \<le> j \<and>
     (i < search_ints a x i j \<longrightarrow> a ! (search_ints a x i j - 1) < x)"
proof (induction a x i j rule: search_ints.induct)
  case (1 a x i j)
  show ?case
  proof (cases "i < j")
    case False
    then have eq: "search_ints a x i j = i" by (subst search_ints.simps) simp
    with "1.prems" show ?thesis unfolding eq by simp
  next
    case True
    define h where "h = (i + j) div 2"
    have h: "i \<le> h" "h < j" using True by (auto simp: h_def)
    show ?thesis
    proof (cases "a ! h < x")
      case lt: True
      then have eq: "search_ints a x i j = search_ints a x (h + 1) j"
        using True by (simp add: search_ints.simps [of a x i j] h_def)
      have "search_ints a x (h + 1) j = h + 1 \<or> h + 1 < search_ints a x (h + 1) j"
        using "1.IH"(1) [OF True h_def lt] h by linarith
      with "1.IH"(1) [OF True h_def lt] lt h show ?thesis unfolding eq by auto
    next
      case ge: False
      then have eq: "search_ints a x i j = search_ints a x i h"
        using True by (simp add: search_ints.simps [of a x i j] h_def)
      from "1.IH"(2) [OF True h_def ge] h show ?thesis unfolding eq by auto
    qed
  qed
qed

lemma SearchInts_found:
  assumes "a \<noteq> []" "x \<le> last a"
  shows "SearchInts a x < length a"
proof (rule ccontr)
  assume "\<not> SearchInts a x < length a"
  with search_ints_last [of 0 "length a" a x] assms(1) have "a ! (length a - 1) < x"
    by (auto simp: SearchInts_def)
  with assms show False by (simp add: last_conv_nth)
qed

text \<open>
  So \<open>Pick\<close> panics in one case only: more than one shape, and weights whose sum wraps to a total that
  is not positive.
\<close>

lemma Pick_None_iff:
  assumes sel: "NewPayloadSelector mix = Some s"
    and n: "0 < total s \<Longrightarrow> 0 \<le> intN (total s) \<and> intN (total s) < total s"
  shows "Pick s intN = None \<longleftrightarrow> length (positive mix) \<noteq> 1 \<and> wrap64 (weight_sum mix) \<le> 0"
proof -
  have ne: "positive mix \<noteq> []" using sel by (auto simp: NewPayloadSelector_eq split: if_splits)
  with sel have s: "shapes s = map Shape (positive mix)"
      "cumWeights s = map (\<lambda>i. wrap64 (prefix_weight mix (Suc i))) [0..<length (positive mix)]"
      "total s = wrap64 (weight_sum mix)"
    by (auto simp: NewPayloadSelector_eq)
  have c: "length (cumWeights s) = length (shapes s)" "cumWeights s \<noteq> []" using s ne by simp_all
  have "last (cumWeights s) = wrap64 (prefix_weight mix (Suc (length (positive mix) - 1)))"
    using ne by (simp add: s(2) last_map)
  then have l: "last (cumWeights s) = total s" using ne by (simp add: s(3) prefix_weight_all)
  have "SearchInts (cumWeights s) (wrap64 (intN (total s) + 1)) < length (shapes s)" if "0 < total s"
  proof -
    have "in_int64 (total s)" by (simp add: s(3))
    then have "wrap64 (intN (total s) + 1) = intN (total s) + 1"
      using n [OF that] by (intro wrap64_id) (simp add: in_int64_def)
    with n [OF that] l SearchInts_found [OF c(2)] show ?thesis by (simp add: c(1))
  qed
  then show ?thesis using s(1,3) by (auto simp: Pick_def Let_def not_le)
qed

text \<open>What keeps \<open>Pick\<close> from panicking.\<close>

definition weights_ok :: "PayloadMix \<Rightarrow> bool" where
  "weights_ok mix \<longleftrightarrow> length (positive mix) = 1 \<or> 0 < wrap64 (weight_sum mix)"

lemma Pick_total:
  assumes "NewPayloadSelector mix = Some s" "weights_ok mix"
    and "\<And>n. 0 < n \<Longrightarrow> 0 \<le> intN n \<and> intN n < n"
  shows "Pick s intN \<noteq> None"
  using Pick_None_iff [OF assms(1), of intN] assms(2,3) by (auto simp: weights_ok_def)

text \<open>Every shape can be built exactly when the sizes are allocatable.\<close>

definition sizes_ok :: "PayloadSizes \<Rightarrow> bool" where
  "sizes_ok z \<longleftrightarrow> alloc_ok 4 (EmbeddingDim z) \<and> alloc_ok 1 (BytesSize z) \<and> alloc_ok 1 (StringLen z)"

lemma embedding_bytes_wrap: "alloc_ok 4 n \<Longrightarrow> wrap64 (n * 4) = n * 4"
  by (intro wrap64_id) (simp add: alloc_ok_def maxAlloc_def in_int64_def)

lemma buildable_iff: "(\<forall>shape. BuildEchoRequest shape z \<noteq> None) \<longleftrightarrow> sizes_ok z"
proof
  assume "\<forall>shape. BuildEchoRequest shape z \<noteq> None"
  then have "BuildEchoRequest 1 z \<noteq> None" "BuildEchoRequest 2 z \<noteq> None" "BuildEchoRequest 3 z \<noteq> None"
    by blast+
  then show "sizes_ok z"
    by (simp_all add: BuildEchoRequest_def Let_def repeat_x_def make_slice_def sizes_ok_def split: if_splits)
next
  assume z: "sizes_ok z"
  then have "alloc_ok 1 (wrap64 (EmbeddingDim z * 4))"
    by (simp add: sizes_ok_def embedding_bytes_wrap) (simp add: alloc_ok_def)
  with z show "\<forall>shape. BuildEchoRequest shape z \<noteq> None"
    by (simp add: BuildEchoRequest_def Let_def repeat_x_def make_slice_def sizes_ok_def)
qed

lemma selector_shapes: "length (shapes (foldl selector_step s mix)) = length (shapes s) + length (positive mix)"
  by (induction mix arbitrary: s) (auto simp: selector_step_def Let_def)

lemma NewPayloadSelector_total: "e \<in> set mix \<Longrightarrow> 0 < Weight e \<Longrightarrow> \<exists>s. NewPayloadSelector mix = Some s"
proof -
  assume "e \<in> set mix" "0 < Weight e"
  then have "positive mix \<noteq> []" by (auto simp: filter_empty_conv)
  then have "0 < length (shapes (foldl selector_step \<lparr>shapes = [], cumWeights = [], total = 0\<rparr> mix))"
    by (simp only: selector_shapes) simp
  then show ?thesis by (simp add: NewPayloadSelector_def Let_def)
qed

section \<open>Properties\<close>

text \<open>
  C9: Parsing the printed form of a well-formed mix (known and distinct shapes, weights in
  \<open>0 .. 2^63 - 1\<close>) gives the mix back, whatever form \<open>String\<close> chooses.
\<close>

theorem payload_mix_roundtrip:
  assumes "wf_mix m"
  shows "ParsePayloadMix (PayloadMix_String (Some m)) = Inr m"
  using assms by (rule PayloadMix_parse_print)

theorem payload_mix_roundtrip_witness:
  "wf_mix [\<lparr>Shape = 3, Weight = 30\<rparr>, \<lparr>Shape = 4, Weight = 70\<rparr>] \<and>
   ParsePayloadMix (PayloadMix_String (Some [\<lparr>Shape = 3, Weight = 30\<rparr>, \<lparr>Shape = 4, Weight = 70\<rparr>]))
     = Inr [\<lparr>Shape = 3, Weight = 30\<rparr>, \<lparr>Shape = 4, Weight = 70\<rparr>]"
proof -
  have "wf_mix [\<lparr>Shape = 3, Weight = 30\<rparr>, \<lparr>Shape = 4, Weight = 70\<rparr>]"
    by (simp add: wf_mix_def wf_entry_def payloadShapeFlagNames_def payload_shape_table_def)
  with payload_mix_roundtrip [OF this] show ?thesis by blast
qed

text \<open>
  C15: The language accepted by \<open>ParsePayloadMix\<close>, and the mix it stands for: after trimming, a
  comma-separated list of tokens that are all bare names (weight 1) or all carry a weight, with
  known shapes, no shape twice and weights that fit a non-negative 64-bit integer. Everything
  else is rejected.
\<close>

theorem payload_mix_grammar:
  "ParsePayloadMix s = Inr m \<longleftrightarrow>
     trim_space s \<noteq> [] \<and> wf_mix m \<and>
     (\<exists>weighted. list_all2 (token_entry weighted) (split_on CHR '','' (trim_space s)) m)"
  by (rule ParsePayloadMix_iff)

text \<open>
  \<open>Set\<close> replaces the receiver exactly when the value parses, the stored mix is then well
  formed, and on an error the receiver is untouched.
\<close>

theorem payload_mix_set:
  "(\<exists>e. ParsePayloadMix s = Inl e \<and> PayloadMix_Set m s = (m, Some e)) \<or>
   (\<exists>p. ParsePayloadMix s = Inr p \<and> wf_mix p \<and> PayloadMix_Set m s = (p, None))"
proof (cases "ParsePayloadMix s")
  case (Inr p)
  then have "wf_mix p" using ParsePayloadMix_iff [of s p] by blast
  with Inr show ?thesis by (simp add: PayloadMix_Set_def)
qed (simp add: PayloadMix_Set_def)

text \<open>
  C26: Weighted selection is exact: among the \<open>total\<close> values the random source can return, the
  number that makes \<open>Pick\<close> choose a shape is that shape's weight, as long as the weights add up
  within 64 bits.
\<close>

theorem pick_distribution:
  assumes "NewPayloadSelector mix = Some s" "weight_sum mix < 2 ^ 63"
    and "distinct (map Shape mix)" "e \<in> set mix" "0 < Weight e"
  shows "int (card {n. 0 \<le> n \<and> n < total s \<and> Pick s (\<lambda>_. n) = Some (Shape e)}) = Weight e"
proof -
  have sel: "selector_of mix s" using assms by (simp add: selector_of_def)
  have "e \<in> set (positive mix)" using assms by simp
  then obtain i where i: "i < length (positive mix)" "positive mix ! i = e"
    by (auto simp only: in_set_conv_nth)
  have d: "distinct (map Shape (positive mix))" using assms(3) by (rule distinct_map_filter)
  from Pick_set [OF sel d i(1)] i positive_nth [OF i(1)] show ?thesis
    by (simp add: prefix_weight_Suc)
qed

theorem pick_distribution_witness:
  "\<exists>s. NewPayloadSelector [\<lparr>Shape = 3, Weight = 30\<rparr>, \<lparr>Shape = 4, Weight = 70\<rparr>] = Some s \<and>
     int (card {n. 0 \<le> n \<and> n < total s \<and> Pick s (\<lambda>_. n) = Some 4}) = 70"
proof -
  let ?mix = "[\<lparr>Shape = 3, Weight = 30\<rparr>, \<lparr>Shape = 4, Weight = 70\<rparr>]"
  have "NewPayloadSelector ?mix = Some \<lparr>shapes = [3, 4], cumWeights = [30, 100], total = 100\<rparr>"
    by (simp add: NewPayloadSelector_def selector_step_def wrap64_def)
  with pick_distribution [OF this, of "\<lparr>Shape = 4, Weight = 70\<rparr>"] show ?thesis
    by (auto simp: weight_sum_def)
qed

text \<open>
  \<open>Pick\<close> never panics and returns a shape of the mix with positive weight, for every value
  the random source can return, as long as the weights add up within 64 bits.
\<close>

theorem pick_safe:
  assumes "NewPayloadSelector mix = Some s" "weight_sum mix < 2 ^ 63"
    and "0 \<le> intN (total s)" "intN (total s) < total s"
  shows "\<exists>e\<in>set mix. 0 < Weight e \<and> Pick s intN = Some (Shape e)"
  using assms by (rule Pick_in_range)

theorem pick_safe_witness:
  "\<exists>e\<in>set [\<lparr>Shape = 3, Weight = 30\<rparr>, \<lparr>Shape = 4, Weight = 70\<rparr>]. 0 < Weight e \<and>
     Pick \<lparr>shapes = [3, 4], cumWeights = [30, 100], total = 100\<rparr> (\<lambda>n. n - 1) = Some (Shape e)"
proof -
  let ?mix = "[\<lparr>Shape = 3, Weight = 30\<rparr>, \<lparr>Shape = 4, Weight = 70\<rparr>]"
  have "NewPayloadSelector ?mix = Some \<lparr>shapes = [3, 4], cumWeights = [30, 100], total = 100\<rparr>"
    by (simp add: NewPayloadSelector_def selector_step_def wrap64_def)
  from pick_safe [OF this, of "\<lambda>n. n - 1"] show ?thesis by (simp add: weight_sum_def)
qed

lemma show_max_int64: "show_int 9223372036854775807 = ''9223372036854775807''"
  by (simp add: show_int_def show_nat.simps digit_def char_of_def bit_0)

text \<open>
  C32: When \<open>Pick\<close> panics: for every mix that gives a selector with at least two shapes, and every random
  source that answers within its range, \<open>Pick\<close> panics if and only if the 64-bit sum of the positive
  weights has wrapped to zero or below. \<open>ParsePayloadMix\<close> accepts such mixes.
\<close>

theorem pick_panics_iff_overflow:
  assumes "NewPayloadSelector mix = Some s" "2 \<le> length (positive mix)"
    and "0 < total s \<longrightarrow> 0 \<le> intN (total s) \<and> intN (total s) < total s"
  shows "Pick s intN = None \<longleftrightarrow> wrap64 (weight_sum mix) \<le> 0"
  using Pick_None_iff [OF assms(1), of intN] assms(2,3) by auto

theorem pick_panics_iff_overflow_witness:
  "\<exists>mix s. ParsePayloadMix ''string:9223372036854775807,bytes:9223372036854775807'' = Inr mix \<and>
     NewPayloadSelector mix = Some s \<and> Pick s (\<lambda>n. 0) = None"
proof -
  let ?mix = "[\<lparr>Shape = 1, Weight = 9223372036854775807\<rparr>, \<lparr>Shape = 2, Weight = 9223372036854775807\<rparr>]"
  have p: "ParsePayloadMix ''string:9223372036854775807,bytes:9223372036854775807'' = Inr ?mix"
    using PayloadMix_parse_print [of ?mix]
    by (simp add: wf_mix_def wf_entry_def PayloadMix_String_def weighted_token_def flag_name_def
        payloadShapeFlagNames_def payload_shape_table_def show_max_int64)
  have s: "NewPayloadSelector ?mix =
      Some \<lparr>shapes = [1, 2], cumWeights = [9223372036854775807, -2], total = -2\<rparr>"
    by (simp add: NewPayloadSelector_def selector_step_def wrap64_def)
  have "wrap64 (weight_sum ?mix) \<le> 0" by (simp add: weight_sum_def wrap64_def)
  with pick_panics_iff_overflow [OF s, of "\<lambda>n. 0"] p s show ?thesis by auto
qed

text \<open>
  The request built for a shape carries exactly the configured size, and the two embedding
  shapes put the same number of payload bytes on the wire: four per dimension.
\<close>

theorem build_request_sizes:
  assumes "sizes_ok z"
  shows "\<exists>r. BuildEchoRequest shape z = Some r \<and> rq_Shape r = shape \<and>
     (shape = PAYLOAD_SHAPE_STRING \<longrightarrow> int (length (GetStringPayload (Some r))) = StringLen z) \<and>
     (shape = PAYLOAD_SHAPE_BYTES \<longrightarrow> int (length (GetBytesPayload (Some r))) = BytesSize z) \<and>
     (shape = PAYLOAD_SHAPE_EMBEDDING_FLOAT \<longrightarrow>
        (\<exists>v. GetEmbeddingFloat (Some r) = Some v \<and> int (4 * length (ef_Values v)) = 4 * EmbeddingDim z)) \<and>
     (shape = PAYLOAD_SHAPE_EMBEDDING_BYTES \<longrightarrow>
        int (length (GetEmbeddingBytes (Some r))) = 4 * EmbeddingDim z) \<and>
     (shape = PAYLOAD_SHAPE_MIXED \<longrightarrow>
        (\<exists>p. GetMixed (Some r) = Some p \<and> int (length (mp_Name p)) = StringLen z \<and>
           int (length (mp_Blob p)) = BytesSize z)) \<and>
     (shape \<notin> {1, 2, 3, 4, 5} \<longrightarrow> rq_Payload r = None)"
proof -
  have w: "wrap64 (EmbeddingDim z * 4) = EmbeddingDim z * 4" "alloc_ok 1 (EmbeddingDim z * 4)"
    using assms by (simp_all add: sizes_ok_def embedding_bytes_wrap) (simp add: alloc_ok_def)
  have z: "alloc_ok 4 (EmbeddingDim z)" "alloc_ok 1 (BytesSize z)" "alloc_ok 1 (StringLen z)"
      "0 \<le> EmbeddingDim z" "0 \<le> BytesSize z" "0 \<le> StringLen z"
    using assms by (simp_all add: sizes_ok_def alloc_ok_def)
  consider "shape = 1" | "shape = 2" | "shape = 3" | "shape = 4" | "shape = 5"
    | "shape \<notin> {1, 2, 3, 4, 5}" by auto
  then show ?thesis
    by cases (auto simp: BuildEchoRequest_def Let_def repeat_x_def make_slice_def w z)
qed

theorem build_request_sizes_witness:
  "\<exists>r. BuildEchoRequest 4 \<lparr>EmbeddingDim = 1024, BytesSize = 0, StringLen = 0\<rparr> = Some r \<and>
     int (length (GetEmbeddingBytes (Some r))) = 4096"
  using build_request_sizes [of "\<lparr>EmbeddingDim = 1024, BytesSize = 0, StringLen = 0\<rparr>" 4]
  by (auto simp: sizes_ok_def alloc_ok_def maxAlloc_def)

end
