(* ===== verification/Summary.thy ===== *)
theory Summary
  imports Float64 Strconv
begin

text \<open>
  The data of \<open>pkg/bench/result.go\<close> and \<open>pkg/bench/summary.go\<close>: one \<open>Result\<close> per completed RPC, and
  the \<open>Summary\<close> a run is reduced to. A \<open>time.Time\<close> is its monotonic reading in nanoseconds, a
  \<open>time.Duration\<close> a 64-bit number of nanoseconds, a nil \<open>error\<close> is \<open>None\<close>.

  Errors and status codes belong to the gRPC library. The type of errors is a parameter \<open>'e\<close>, and
  what the program asks about an error is the record \<open>grpc_status\<close>: \<open>status.Code\<close>, the message of
  \<open>status.FromError\<close> (\<open>None\<close> when it reports false), \<open>Error()\<close> and \<open>codes.Code.String\<close>.
\<close>

type_synonym code = nat

record 'e grpc_status =
  status_Code :: "'e \<Rightarrow> code"
  status_FromError :: "'e \<Rightarrow> string option"
  error_Error :: "'e \<Rightarrow> string"
  code_String :: "code \<Rightarrow> string"

record 'e Result =
  r_Start :: int
  r_End :: int
  r_TotalDuration :: duration
  r_ServerDurationNs :: int64
  r_UpstreamDurationNs :: int64
  r_HasUpstreamTime :: bool
  r_BytesSentUncompressed :: int64
  r_BytesSentWire :: int64
  r_BytesReceivedUncompressed :: int64
  r_BytesReceivedWire :: int64
  r_PodName :: string
  r_PodHostname :: string
  r_PeerAddr :: string
  r_Err :: "'e option"

record LatencyStats =
  ls_Count :: int
  ls_Min :: duration
  ls_Mean :: duration
  ls_Stddev :: duration
  ls_Max :: duration
  ls_P50 :: duration
  ls_P90 :: duration
  ls_P99 :: duration

record BackendSkew =
  sk_CountRatio :: float64
  sk_P99Ratio :: float64

record BackendStats =
  be_Key :: string
  be_Source :: string
  be_Count :: int
  be_ErrorCount :: int
  be_PercentOfTotal :: float64
  be_P50 :: duration
  be_P99 :: duration

record ErrorMessageStat =
  em_Message :: string
  em_Count :: int

record StatusCodeStats =
  sc_Code :: code
  sc_CodeName :: string
  sc_Count :: int
  sc_TopMessages :: "ErrorMessageStat list"

record Summary =
  s_Count :: int
  s_ErrorCount :: int
  s_Elapsed :: duration
  s_Throughput :: float64
  s_ConnModel :: string
  s_Total :: LatencyStats
  s_Server :: LatencyStats
  s_Network :: LatencyStats
  s_Upstream :: LatencyStats
  s_Backends :: "BackendStats list"
  s_BackendSkew :: BackendSkew
  s_Errors :: "StatusCodeStats list"

definition zero_LatencyStats :: LatencyStats where
  "zero_LatencyStats = \<lparr>ls_Count = 0, ls_Min = 0, ls_Mean = 0, ls_Stddev = 0, ls_Max = 0,
     ls_P50 = 0, ls_P90 = 0, ls_P99 = 0\<rparr>"

text \<open>
  \<open>time.Time.Sub\<close> saturates at the ends of the \<open>Duration\<close> range, and \<open>Duration.Seconds\<close> adds the
  whole seconds and the fraction in floating point.
\<close>

definition time_Sub :: "int \<Rightarrow> int \<Rightarrow> duration" where
  "time_Sub t u = max (- (2 ^ 63)) (min (2 ^ 63 - 1) (t - u))"

definition duration_Seconds :: "duration \<Rightarrow> float64" where
  "duration_Seconds d =
     f64 (f64 (of_int (go_div d 1000000000)) + f64 (f64 (of_int (go_mod d 1000000000)) / 10 ^ 9))"

text \<open>A result with only a pod name, a duration and an error, used to build concrete inputs.\<close>

definition plain_result :: "string \<Rightarrow> duration \<Rightarrow> 'e option \<Rightarrow> 'e Result" where
  "plain_result pod d err =
     \<lparr>r_Start = 0, r_End = d, r_TotalDuration = d, r_ServerDurationNs = 0, r_UpstreamDurationNs = 0,
      r_HasUpstreamTime = False, r_BytesSentUncompressed = 0, r_BytesSentWire = 0,
      r_BytesReceivedUncompressed = 0, r_BytesReceivedWire = 0, r_PodName = pod, r_PodHostname = [],
      r_PeerAddr = [], r_Err = err\<rparr>"

lemma plain_result_simps [simp]:
  "r_TotalDuration (plain_result pod d err) = d" "r_Err (plain_result pod d err) = err"
  "r_PodName (plain_result pod d err) = pod" "r_PodHostname (plain_result pod d err) = []"
  "r_PeerAddr (plain_result pod d err) = []" "r_ServerDurationNs (plain_result pod d err) = 0"
  "r_UpstreamDurationNs (plain_result pod d err) = 0" "r_HasUpstreamTime (plain_result pod d err) = False"
  by (simp_all add: plain_result_def)

lemma time_Sub_exact: "in_int64 (t - u) \<Longrightarrow> time_Sub t u = t - u"
  by (simp add: time_Sub_def in_int64_def)

lemma time_Sub_range: "in_int64 (time_Sub t u)"
  by (simp add: time_Sub_def in_int64_def)

lemma duration_Seconds_pos:
  assumes "0 < d"
  shows "0 < duration_Seconds d"
proof -
  let ?s = "d div 1000000000" and ?n = "d mod 1000000000"
  have nn: "0 \<le> ?s" "0 \<le> ?n" using assms by simp_all
  have "0 < ?s \<or> 0 < ?n"
    using assms div_mult_mod_eq [of d 1000000000] nn by linarith
  then have "0 < f64 (of_int ?s) \<or> 0 < f64 (f64 (of_int ?n) / 10 ^ 9)"
    by (auto intro!: f64_pos)
  moreover have "0 \<le> f64 (of_int ?s)" "0 \<le> f64 (f64 (of_int ?n) / 10 ^ 9)"
    using nn by (auto intro!: f64_nonneg divide_nonneg_nonneg)
  ultimately have "0 < f64 (of_int ?s) + f64 (f64 (of_int ?n) / 10 ^ 9)" by linarith
  then show ?thesis using assms by (simp add: duration_Seconds_def f64_pos)
qed

end
