(* ===== verification/Worker.thy ===== *)
theory Worker
  imports Conn Payload Summary
begin

text \<open>
  \<open>pkg/bench/worker.go\<close>: one worker of a run. The workers share the world and run concurrently, so the
  loop of \<open>run\<close> is written as a step function over a program counter: one step is the code between
  two points where another worker can be scheduled and see the difference (opening the source, the
  loop test, \<open>Acquire\<close>, sending the call, receiving the reply, the release function, the deferred
  \<open>Close\<close>). The world is left to the environment where Go and gRPC decide: whether the context is
  done, what the clock reads, what the random generator returns, how a call ends. Each such reading
  happens at its own tick.
\<close>

section \<open>The environment of a run\<close>

text \<open>An error of the program is an error of gRPC, or one wrapped by \<open>fmt.Errorf("...: %w", err)\<close>.\<close>

datatype 'e werr = Plain 'e | Wrapped string 'e

datatype ctx_error = Canceled | DeadlineExceeded

text \<open>What \<open>client.Echo\<close> leaves behind: the reply, the error, the peer, the response header
  (\<open>metadata.MD.Get\<close>) and the payload events reported under the call's context.\<close>

record 'e reply =
  rp_rsp :: "EchoResponse option"
  rp_err :: "'e option"
  rp_peer :: "string option"
  rp_hdr :: "string \<Rightarrow> string list"
  rp_stats :: "RPCStats list"

record 'e run_env =
  env_ctx_done :: "nat \<Rightarrow> bool"
  env_now :: "nat \<Rightarrow> int"
  env_intN :: "nat \<Rightarrow> int64 \<Rightarrow> int64"
  env_echo :: "conn \<Rightarrow> call \<Rightarrow> nat \<Rightarrow> 'e reply"
  env_status :: "'e werr grpc_status"
  env_errors_Is :: "'e werr \<Rightarrow> ctx_error \<Rightarrow> bool"

definition tick :: "world \<Rightarrow> world" where
  "tick w = w\<lparr>w_tick := w_tick w + 1\<rparr>"

definition ctx_Err :: "'e run_env \<Rightarrow> world \<Rightarrow> bool \<times> world" where
  "ctx_Err env w = (env_ctx_done env (w_tick w), tick w)"

definition time_Now :: "'e run_env \<Rightarrow> world \<Rightarrow> int \<times> world" where
  "time_Now env w = (env_now env (w_tick w), tick w)"

section \<open>The code\<close>

definition headerEnvoyUpstreamTime :: string where
  "headerEnvoyUpstreamTime = ''x-envoy-upstream-service-time''"

definition code_Canceled :: code where "code_Canceled = 1"
definition code_DeadlineExceeded :: code where "code_DeadlineExceeded = 4"

definition isCancellation :: "'e run_env \<Rightarrow> 'e werr \<Rightarrow> bool" where
  "isCancellation env err =
     (if env_errors_Is env err Canceled \<or> env_errors_Is env err DeadlineExceeded then True
      else let code = status_Code (env_status env) err
           in code = code_Canceled \<or> code = code_DeadlineExceeded)"

datatype 's pc =
    AtStart
  | AtLoop 's
  | AtAcquire 's
  | AtCall 's "conn option" ReleaseFunc
  | InCall 's conn ReleaseFunc call int
  | AtRelease 's ReleaseFunc bool
  | AtClose 's
  | Finished
  | Panicked 's ReleaseFunc

record ('s, 'e) worker =
  wk_compression :: string
  wk_selector :: PayloadSelector
  wk_sizes :: PayloadSizes
  wk_headerKV :: "string list"
  wk_results :: "'e werr Result list"
  wk_pc :: "'s pc"

text \<open>\<open>Result{Start: now, End: now, Err: err}\<close>.\<close>

definition error_result :: "int \<Rightarrow> 'e werr \<Rightarrow> 'e werr Result" where
  "error_result now err =
     \<lparr>r_Start = now, r_End = now, r_TotalDuration = 0, r_ServerDurationNs = 0, r_UpstreamDurationNs = 0,
      r_HasUpstreamTime = False, r_BytesSentUncompressed = 0, r_BytesSentWire = 0,
      r_BytesReceivedUncompressed = 0, r_BytesReceivedWire = 0, r_PodName = [], r_PodHostname = [],
      r_PeerAddr = [], r_Err = Some err\<rparr>"

text \<open>The first half of \<open>doCall\<close>: the request, the outgoing metadata and the start time. \<open>None\<close> is a
  panic, of \<open>Pick\<close>, of \<open>BuildEchoRequest\<close> or of the call on a nil connection.\<close>

definition doCall_send ::
  "'e run_env \<Rightarrow> ('s, 'e) worker \<Rightarrow> conn option \<Rightarrow> world \<Rightarrow> ((conn \<times> call \<times> int) \<times> world) option" where
  "doCall_send env wk c w =
     (case Pick (wk_selector wk) (env_intN env (w_tick w)) of
        None \<Rightarrow> None
      | Some shape \<Rightarrow>
          (case BuildEchoRequest shape (wk_sizes wk) of
             None \<Rightarrow> None
           | Some req \<Rightarrow>
               (case c of
                  None \<Rightarrow> None
                | Some c \<Rightarrow>
                    let kv = (if length (wk_headerKV wk) > 0 then wk_headerKV wk else []);
                        cl = \<lparr>cl_metadata = kv, cl_compressor = wk_compression wk, cl_request = req\<rparr>;
                        (start, w) = time_Now env w
                    in Some ((c, cl, start), w\<lparr>w_trace := Called c cl # w_trace w\<rparr>))))"

text \<open>The counters of the call: a fresh bag in the call's context, filled by the stats handler.\<close>

definition call_bag :: "RPCStats list \<Rightarrow> wireBytes" where
  "call_bag ss =
     handle_all (map (Pair (contextWithWireBytes Background 0)) ss) (\<lambda>_. zero_wireBytes) 0"

definition upstream_ms :: "'e reply \<Rightarrow> int64 option" where
  "upstream_ms rp =
     (case rp_hdr rp headerEnvoyUpstreamTime of [] \<Rightarrow> None | v # _ \<Rightarrow> parse_int64 v)"

definition call_result :: "int \<Rightarrow> int \<Rightarrow> 'e reply \<Rightarrow> 'e werr Result" where
  "call_result start end rp =
     (let bag = call_bag (rp_stats rp);
          r = \<lparr>r_Start = start, r_End = end, r_TotalDuration = time_Sub end start,
               r_ServerDurationNs = 0, r_UpstreamDurationNs = 0, r_HasUpstreamTime = False,
               r_BytesSentUncompressed = SentUncompressed bag, r_BytesSentWire = SentWire bag,
               r_BytesReceivedUncompressed = ReceivedUncompressed bag,
               r_BytesReceivedWire = ReceivedWire bag, r_PodName = [], r_PodHostname = [],
               r_PeerAddr = (case rp_peer rp of Some a \<Rightarrow> a | None \<Rightarrow> []),
               r_Err = map_option Plain (rp_err rp)\<rparr>
      in if rp_err rp = None then
           (case rp_rsp rp of
              None \<Rightarrow> r
            | Some rsp \<Rightarrow>
                let r = r\<lparr>r_ServerDurationNs := rs_ServerDurationNs rsp\<rparr>;
                    r = (case rs_Kubernetes rsp of
                           None \<Rightarrow> r
                         | Some k \<Rightarrow> r\<lparr>r_PodName := ki_PodName k, r_PodHostname := ki_Hostname k\<rparr>)
                in (case upstream_ms rp of
                      None \<Rightarrow> r
                    | Some ms \<Rightarrow> r\<lparr>r_HasUpstreamTime := True, r_UpstreamDurationNs := wrap64 (ms * 1000000)\<rparr>))
         else r)"

text \<open>The second half of \<open>doCall\<close>: the reply. The flag reports a dropped call.\<close>

definition doCall_receive ::
  "'e run_env \<Rightarrow> conn \<Rightarrow> call \<Rightarrow> int \<Rightarrow> 'e werr Result list \<Rightarrow> world \<Rightarrow> (bool \<times> 'e werr Result list) \<times> world" where
  "doCall_receive env c cl start results w =
     (let rp = env_echo env c cl (w_tick w); (end, w) = time_Now env w
      in case rp_err rp of
           None \<Rightarrow> ((False, results @ [call_result start end rp]), w)
         | Some err \<Rightarrow>
             let (done, w) = ctx_Err env w
             in if done \<or> isCancellation env (Plain err) then ((True, results), w)
                else ((False, results @ [call_result start end rp]), w))"

definition fail_result ::
  "'e run_env \<Rightarrow> string \<Rightarrow> 'e \<Rightarrow> 'e werr Result list \<Rightarrow> world \<Rightarrow> 'e werr Result list \<times> world" where
  "fail_result env what err results w =
     (let (now, w) = time_Now env w in (results @ [error_result now (Wrapped what err)], w))"

text \<open>
  \<open>run\<close>, one step at a time. \<open>rel\<close> calls a release function. A panic ends the process, so a panicked
  worker takes no further step.
\<close>

definition worker_step ::
  "('s, 'e) pool_iface \<Rightarrow> (ReleaseFunc \<Rightarrow> world \<Rightarrow> world) \<Rightarrow> 'e run_env \<Rightarrow> ('s, 'e) worker \<Rightarrow> world \<Rightarrow>
   ('s, 'e) worker \<times> world" where
  "worker_step P rel env wk w =
     (case wk_pc wk of
        AtStart \<Rightarrow>
          (case if_NewSource P w of
             (Inl err, w) \<Rightarrow>
               (case fail_result env ''opening conn source'' err (wk_results wk) w of
                  (rs, w) \<Rightarrow> (wk\<lparr>wk_results := rs, wk_pc := Finished\<rparr>, w))
           | (Inr s, w) \<Rightarrow> (wk\<lparr>wk_pc := AtLoop s\<rparr>, w))
      | AtLoop s \<Rightarrow>
          (case ctx_Err env w of
             (done, w) \<Rightarrow> (wk\<lparr>wk_pc := (if done then AtClose s else AtAcquire s)\<rparr>, w))
      | AtAcquire s \<Rightarrow>
          (case if_Acquire P s w of
             (Inl err, w) \<Rightarrow>
               (case ctx_Err env w of
                  (True, w) \<Rightarrow> (wk\<lparr>wk_pc := AtClose s\<rparr>, w)
                | (False, w) \<Rightarrow>
                    (case fail_result env ''acquiring conn'' err (wk_results wk) w of
                       (rs, w) \<Rightarrow> (wk\<lparr>wk_results := rs, wk_pc := AtLoop s\<rparr>, w)))
           | (Inr (c, r), w) \<Rightarrow> (wk\<lparr>wk_pc := AtCall s c r\<rparr>, w))
      | AtCall s c r \<Rightarrow>
          (case doCall_send env wk c w of
             None \<Rightarrow> (wk\<lparr>wk_pc := Panicked s r\<rparr>, w)
           | Some ((k, cl, start), w) \<Rightarrow> (wk\<lparr>wk_pc := InCall s k r cl start\<rparr>, w))
      | InCall s k r cl start \<Rightarrow>
          (case doCall_receive env k cl start (wk_results wk) w of
             ((dropped, rs), w) \<Rightarrow> (wk\<lparr>wk_results := rs, wk_pc := AtRelease s r dropped\<rparr>, w))
      | AtRelease s r dropped \<Rightarrow>
          (wk\<lparr>wk_pc := (if dropped then AtClose s else AtLoop s)\<rparr>, rel r w)
      | AtClose s \<Rightarrow> (wk\<lparr>wk_pc := Finished\<rparr>, snd (if_SourceClose P s w))
      | Finished \<Rightarrow> (wk, w)
      | Panicked s r \<Rightarrow> (wk, w))"

section \<open>What a worker holds\<close>

fun held :: "('s \<Rightarrow> conn list) \<Rightarrow> 's pc \<Rightarrow> conn list" where
  "held owned AtStart = []"
| "held owned (AtLoop s) = owned s"
| "held owned (AtAcquire s) = owned s"
| "held owned (AtCall s c r) = owned s @ release_conns r"
| "held owned (InCall s k r cl start) = owned s @ release_conns r"
| "held owned (AtRelease s r dropped) = owned s @ release_conns r"
| "held owned (AtClose s) = owned s"
| "held owned Finished = []"
| "held owned (Panicked s r) = owned s @ release_conns r"

text \<open>The sources are of the pool, and the connection of a call is one the worker may use.\<close>

fun pc_ok :: "conn list \<Rightarrow> ('s \<Rightarrow> conn list) \<Rightarrow> ('s \<Rightarrow> bool) \<Rightarrow> 's pc \<Rightarrow> bool" where
  "pc_ok base owned valid AtStart \<longleftrightarrow> True"
| "pc_ok base owned valid (AtLoop s) \<longleftrightarrow> valid s"
| "pc_ok base owned valid (AtAcquire s) \<longleftrightarrow> valid s"
| "pc_ok base owned valid (AtCall s c r) \<longleftrightarrow>
     valid s \<and> (\<exists>k. c = Some k \<and> k \<in> set base \<union> set (owned s) \<union> set (release_conns r))"
| "pc_ok base owned valid (InCall s k r cl start) \<longleftrightarrow>
     valid s \<and> k \<in> set base \<union> set (owned s) \<union> set (release_conns r)"
| "pc_ok base owned valid (AtRelease s r dropped) \<longleftrightarrow> valid s"
| "pc_ok base owned valid (AtClose s) \<longleftrightarrow> valid s"
| "pc_ok base owned valid Finished \<longleftrightarrow> True"
| "pc_ok base owned valid (Panicked s r) \<longleftrightarrow> valid s"

text \<open>
  One step exchanges the connections the worker holds for others that nobody held, and touches no
  other connection.
\<close>

definition exchanges :: "conn list \<Rightarrow> world \<Rightarrow> conn list \<Rightarrow> world \<Rightarrow> bool" where
  "exchanges hs w hs' w' \<longleftrightarrow> good_world w' \<and> distinct hs' \<and>
     opened w' = (opened w - set hs) \<union> set hs' \<and> set hs' \<inter> (opened w - set hs) = {}"

definition holds :: "conn list \<Rightarrow> conn list \<Rightarrow> world \<Rightarrow> bool" where
  "holds base hs w \<longleftrightarrow> good_world w \<and> distinct hs \<and> set base \<union> set hs \<subseteq> opened w \<and> set base \<inter> set hs = {}"

lemma good_world_tick [simp]: "good_world (tick w) = good_world w" "w_trace (tick w) = w_trace w"
  "w_tick (tick w) = Suc (w_tick w)"
  by (simp_all add: good_world_def tick_def)

lemma exchanges_same: "holds base hs w \<Longrightarrow> good_world w' \<Longrightarrow> opened w' = opened w \<Longrightarrow> exchanges hs w hs w'"
  by (auto simp: exchanges_def holds_def)

lemma exchanges_grow:
  "holds base hs w \<Longrightarrow> good_world w' \<Longrightarrow> opened w' = opened w \<union> set ns \<Longrightarrow> set ns \<inter> opened w = {} \<Longrightarrow>
    distinct ns \<Longrightarrow> exchanges hs w (hs @ ns) w'"
  unfolding exchanges_def holds_def by (simp only: distinct_append set_append) blast

lemma exchanges_shrink:
  "holds base (hs @ ns) w \<Longrightarrow> good_world w' \<Longrightarrow> opened w' = opened w - set ns \<Longrightarrow> exchanges (hs @ ns) w hs w'"
  unfolding exchanges_def holds_def by (simp only: distinct_append set_append) blast

lemma distinct_release_conns: "distinct (release_conns r)"
  by (cases r) simp_all

lemma ctx_Err_world: "ctx_Err env w = (e, w') \<Longrightarrow> w' = tick w"
  by (simp add: ctx_Err_def)

lemma fail_result_world: "fail_result env what err rs w = (rs', w') \<Longrightarrow> w' = tick w"
  by (auto simp: fail_result_def time_Now_def)

lemma doCall_receive_world:
  "doCall_receive env k cl start rs w = (d, w') \<Longrightarrow> w' = tick w \<or> w' = tick (tick w)"
  by (auto simp: doCall_receive_def time_Now_def ctx_Err_def Let_def split: option.splits if_splits)

lemma good_world_called:
  "good_world w \<Longrightarrow> k \<in> opened w \<Longrightarrow> good_world (w\<lparr>w_trace := Called k cl # w_trace w\<rparr>)"
  by (simp add: good_world_def)

lemma doCall_send_world:
  assumes "doCall_send env wk c w = Some ((k, cl, start), w')" "good_world w" "\<forall>k. c = Some k \<longrightarrow> k \<in> opened w"
  shows "c = Some k \<and> good_world w' \<and> opened w' = opened w \<and> w_tick w' = Suc (w_tick w) \<and>
    w_trace w' = Called k cl # w_trace w"
proof -
  have "c = Some k" "w' = (tick w)\<lparr>w_trace := Called k cl # w_trace w\<rparr>"
    using assms(1) by (auto simp: doCall_send_def time_Now_def Let_def split: option.splits)
  moreover have "good_world ((tick w)\<lparr>w_trace := Called k cl # w_trace (tick w)\<rparr>)"
    using assms(2,3) \<open>c = Some k\<close> by (intro good_world_called) auto
  moreover have "opened ((tick w)\<lparr>w_trace := Called k cl # w_trace w\<rparr>) = opened w" by (auto)
  ultimately show ?thesis by simp
qed

context conn_pool
begin

lemma step_start:
  assumes "worker_step P rel env wk w = (wk', w')" "wk_pc wk = AtStart" "holds base [] w"
  shows "pc_ok base owned valid (wk_pc wk') \<and> exchanges [] w (held owned (wk_pc wk')) w'"
proof (cases "if_NewSource P w")
  case (Pair res w1)
  have w: "good_world w" "set base \<subseteq> opened w" using assms(3) by (simp_all add: holds_def)
  show ?thesis
  proof (cases res)
    case (Inl err)
    from new_err [OF Pair [unfolded Inl] w] assms(1,2) Pair Inl show ?thesis
      by (auto simp: worker_step_def exchanges_def split: prod.splits dest!: fail_result_world)
  next
    case (Inr s)
    from new_ok [OF Pair [unfolded Inr] w] assms(1,2) Pair Inr show ?thesis
      by (auto simp: worker_step_def exchanges_def owned_distinct)
  qed
qed

lemma step_acquire:
  assumes "worker_step P rel env wk w = (wk', w')" "wk_pc wk = AtAcquire s" "valid s" "holds base (owned s) w"
  shows "pc_ok base owned valid (wk_pc wk') \<and> exchanges (owned s) w (held owned (wk_pc wk')) w'"
proof (cases "if_Acquire P s w")
  case (Pair res w1)
  have w: "good_world w" "set base \<union> set (owned s) \<subseteq> opened w" using assms(4) by (simp_all add: holds_def)
  show ?thesis
  proof (cases res)
    case (Inl err)
    note e = acquire_err [OF Pair [unfolded Inl] w(1) assms(3)]
    obtain hs where hs: "hs = owned s" by simp
    from assms(1,2) Pair Inl have "good_world w' \<longleftrightarrow> good_world w1" "opened w' = opened w1"
        "wk_pc wk' = AtClose s \<or> wk_pc wk' = AtLoop s"
      by (auto simp: worker_step_def split: prod.splits bool.splits dest!: fail_result_world ctx_Err_world)
    with e exchanges_same [OF assms(4), of w'] assms(3) show ?thesis by auto
  next
    case (Inr cr)
    obtain c r where cr: "cr = (c, r)" by (cases cr)
    note a = acquire_ok [OF Pair [unfolded Inr cr] w(1) assms(3) w(2)]
    then have "exchanges (owned s) w (owned s @ release_conns r) w1"
      by (intro exchanges_grow [OF assms(4)]) (simp_all add: distinct_release_conns)
    moreover have "wk_pc wk' = AtCall s c r" "w' = w1"
      using assms(1,2) Pair Inr cr by (auto simp: worker_step_def)
    ultimately show ?thesis using a assms(3) by simp
  qed
qed

lemma step_call:
  assumes "worker_step P rel env wk w = (wk', w')" "wk_pc wk = AtCall s c r"
    and "pc_ok base owned valid (AtCall s c r)" "holds base (owned s @ release_conns r) w"
  shows "pc_ok base owned valid (wk_pc wk') \<and> exchanges (owned s @ release_conns r) w (held owned (wk_pc wk')) w'"
proof (cases "doCall_send env wk c w")
  case None
  then have "wk_pc wk' = Panicked s r" "w' = w" using assms(1,2) by (auto simp: worker_step_def)
  with assms(3,4) exchanges_same [OF assms(4)] show ?thesis by (simp add: holds_def)
next
  case (Some x)
  obtain k cl start w1 where x: "x = ((k, cl, start), w1)" by (cases x) auto
  have w: "good_world w" "\<forall>k. c = Some k \<longrightarrow> k \<in> opened w" using assms(3,4) by (auto simp: holds_def)
  have "wk_pc wk' = InCall s k r cl start" "w' = w1"
    using assms(1,2) Some x by (auto simp: worker_step_def)
  moreover note doCall_send_world [OF Some [unfolded x] w]
  ultimately have r: "wk_pc wk' = InCall s k r cl start" "c = Some k" "good_world w'" "opened w' = opened w"
    by blast+
  from exchanges_same [OF assms(4) r(3,4)] assms(3) show ?thesis unfolding r(1,2) by simp
qed

lemma step_close:
  assumes "worker_step P rel env wk w = (wk', w')" "wk_pc wk = AtClose s" "valid s" "holds base (owned s) w"
  shows "pc_ok base owned valid (wk_pc wk') \<and> exchanges (owned s) w (held owned (wk_pc wk')) w'"
proof (cases "if_SourceClose P s w")
  case (Pair e w1)
  have w: "good_world w" "set (owned s) \<subseteq> opened w" using assms(4) by (simp_all add: holds_def)
  have "wk_pc wk' = Finished" "w' = w1" using assms(1,2) Pair by (auto simp: worker_step_def)
  with close_ok [OF Pair w(1) assms(3) w(2)] exchanges_shrink [of base "[]" "owned s" w w'] assms(4)
  show ?thesis by simp
qed

lemma step_release:
  assumes "worker_step P rel env wk w = (wk', w')" "wk_pc wk = AtRelease s r dropped" "valid s"
    and "holds base (owned s @ release_conns r) w"
  shows "pc_ok base owned valid (wk_pc wk') \<and> exchanges (owned s @ release_conns r) w (held owned (wk_pc wk')) w'"
proof -
  have w: "good_world w" "set (release_conns r) \<subseteq> opened w" using assms(4) by (simp_all add: holds_def)
  have "w' = rel r w" "wk_pc wk' = AtClose s \<or> wk_pc wk' = AtLoop s"
    using assms(1,2) by (auto simp: worker_step_def split: if_splits)
  with release_ok [OF w] exchanges_shrink [OF assms(4), of w'] assms(3) show ?thesis by auto
qed

text \<open>One step of a worker, wherever it is.\<close>

lemma step_exchanges:
  assumes "worker_step P rel env wk w = (wk', w')"
    and "pc_ok base owned valid (wk_pc wk)" "holds base (held owned (wk_pc wk)) w"
  shows "pc_ok base owned valid (wk_pc wk') \<and> exchanges (held owned (wk_pc wk)) w (held owned (wk_pc wk')) w'"
proof -
  have same: "exchanges (held owned (wk_pc wk)) w (held owned (wk_pc wk)) w'"
    if "good_world w'" "opened w' = opened w"
    using exchanges_same [OF assms(3) that] .
  have g: "good_world w" using assms(3) by (simp add: holds_def)
  show ?thesis
  proof (cases "wk_pc wk")
    case AtStart
    then show ?thesis using step_start [OF assms(1)] assms(3) by simp
  next
    case (AtLoop s)
    then show ?thesis using assms(1,2) same g by (auto simp: worker_step_def ctx_Err_def)
  next
    case (AtAcquire s)
    then show ?thesis using step_acquire [OF assms(1)] assms(2,3) by simp
  next
    case (AtCall s c r)
    then show ?thesis using step_call [OF assms(1)] assms(2,3) by simp
  next
    case (InCall s k r cl start)
    then have "wk_pc wk' \<in> range (AtRelease s r)" "w' = tick w \<or> w' = tick (tick w)"
      using assms(1) by (auto simp: worker_step_def split: prod.splits dest: doCall_receive_world)
    then show ?thesis using assms(2) same g InCall by auto
  next
    case (AtRelease s r dropped)
    then show ?thesis using step_release [OF assms(1)] assms(2,3) by simp
  next
    case (AtClose s)
    then show ?thesis using step_close [OF assms(1)] assms(2,3) by simp
  next
    case Finished
    then show ?thesis using assms(1,2) same g by (auto simp: worker_step_def)
  next
    case (Panicked s r)
    then show ?thesis using assms(1,2) same g by (auto simp: worker_step_def)
  qed
qed

end

section \<open>Properties\<close>

lemma call_bag_eq: "call_bag ss = wrap_bytes (stats_total ss)"
proof -
  have "events_of 0 (map (Pair (contextWithWireBytes Background 0)) ss) = ss"
    by (induction ss) (simp_all add: events_of_def)
  then show ?thesis
    unfolding call_bag_def by (simp add: handle_all_bag [where h = "\<lambda>_. zero_wireBytes" and a = 0])
qed

lemma call_result_common:
  "r_Start (call_result start end rp) = start" "r_End (call_result start end rp) = end"
  "r_TotalDuration (call_result start end rp) = time_Sub end start"
  "r_Err (call_result start end rp) = map_option Plain (rp_err rp)"
  "r_BytesSentUncompressed (call_result start end rp) = wrap64 (SentUncompressed (stats_total (rp_stats rp)))"
  "r_BytesReceivedWire (call_result start end rp) = wrap64 (ReceivedWire (stats_total (rp_stats rp)))"
  "r_HasUpstreamTime (call_result start end rp) \<longleftrightarrow>
     rp_err rp = None \<and> rp_rsp rp \<noteq> None \<and> upstream_ms rp \<noteq> None"
  "r_UpstreamDurationNs (call_result start end rp) =
     (if rp_err rp = None \<and> rp_rsp rp \<noteq> None
      then (case upstream_ms rp of None \<Rightarrow> 0 | Some ms \<Rightarrow> wrap64 (ms * 1000000)) else 0)"
  "r_ServerDurationNs (call_result start end rp) =
     (if rp_err rp = None then (case rp_rsp rp of None \<Rightarrow> 0 | Some rsp \<Rightarrow> rs_ServerDurationNs rsp) else 0)"
  unfolding call_result_def Let_def call_bag_eq
  by (simp_all add: wrap_bytes_def split: option.split)

text \<open>
  A reply either is dropped or leaves exactly one result. It is dropped exactly when the call failed
  and the run is over or the error is a cancellation; so a recorded error is never a cancellation, and
  the recorded result carries the reply's error and the two clock readings.
\<close>

theorem call_recorded_or_dropped:
  assumes "doCall_receive env c cl start results w = ((dropped, results'), w')"
  shows "(dropped \<longleftrightarrow> (\<exists>err. rp_err (env_echo env c cl (w_tick w)) = Some err \<and>
            (env_ctx_done env (w_tick w + 1) \<or> isCancellation env (Plain err)))) \<and>
    (dropped \<longrightarrow> results' = results) \<and>
    (\<not> dropped \<longrightarrow> (\<exists>r. results' = results @ [r] \<and> r_Start r = start \<and> r_End r = env_now env (w_tick w) \<and>
       r_Err r = map_option Plain (rp_err (env_echo env c cl (w_tick w))) \<and>
       (\<forall>err. r_Err r = Some err \<longrightarrow> \<not> isCancellation env err)))"
  using assms
  by (auto simp: doCall_receive_def time_Now_def ctx_Err_def call_result_common Let_def
      split: option.splits if_splits)

theorem call_recorded_or_dropped_witness:
  "fst (fst (doCall_receive
     \<lparr>env_ctx_done = (\<lambda>t. 5 \<le> t), env_now = int, env_intN = (\<lambda>_ n. 0),
      env_echo = (\<lambda>_ _ _. \<lparr>rp_rsp = None, rp_err = Some (3 :: nat), rp_peer = None, rp_hdr = (\<lambda>_. []), rp_stats = []\<rparr>),
      env_status = \<lparr>status_Code = (\<lambda>_. 14), status_FromError = (\<lambda>_. None), error_Error = (\<lambda>_. []),
        code_String = (\<lambda>_. [])\<rparr>,
      env_errors_Is = (\<lambda>_ _. False)\<rparr>
     0 \<lparr>cl_metadata = [], cl_compressor = [], cl_request = \<lparr>rq_Query = [], rq_Shape = 0, rq_Payload = None\<rparr>\<rparr> 0 []
     \<lparr>w_dials = 1, w_tick = 7, w_trace = [Dialed 0]\<rparr>))"
  (is "fst (fst (doCall_receive ?env 0 ?cl 0 [] ?w))")
proof -
  obtain d rs w' where eq: "doCall_receive ?env 0 ?cl 0 [] ?w = ((d, rs), w')"
    by (metis prod.exhaust)
  from call_recorded_or_dropped [OF eq] have d by simp
  then show ?thesis unfolding eq by simp
qed

text \<open>
  The upstream time of a sidecar: a header with the decimal number \<open>ms\<close> is recorded as \<open>ms\<close>
  milliseconds in nanoseconds, while the product fits 64 bits, and marks the result as measured; without
  a readable header the result is marked as not measured and the time is zero.
\<close>

theorem upstream_time_recorded:
  assumes "rp_err rp = None" "rp_rsp rp = Some rsp" "in_int64 ms" "in_int64 (ms * 1000000)"
  shows "(rp_hdr rp headerEnvoyUpstreamTime = show_int ms # vs \<longrightarrow>
      r_HasUpstreamTime (call_result start end rp) \<and>
      r_UpstreamDurationNs (call_result start end rp) = ms * 1000000) \<and>
    (rp_hdr rp headerEnvoyUpstreamTime = [] \<longrightarrow>
      \<not> r_HasUpstreamTime (call_result start end rp) \<and> r_UpstreamDurationNs (call_result start end rp) = 0)"
  using assms by (auto simp: call_result_common upstream_ms_def parse_int64_show_int wrap64_id)

theorem upstream_time_recorded_witness:
  "r_UpstreamDurationNs (call_result 0 9
     \<lparr>rp_rsp = Some \<lparr>rs_Query = [], rs_Kubernetes = None, rs_Request = None, rs_Runtime = None,
        rs_Extensions = [], rs_ServerDurationNs = 4, rs_ReceivedAtUnixNano = 0, rs_SentAtUnixNano = 0,
        rs_Shape = 0, rs_Payload = None\<rparr>,
      rp_err = (None :: nat option), rp_peer = None, rp_hdr = (\<lambda>_. [show_int 12]), rp_stats = []\<rparr>) = 12000000"
  using upstream_time_recorded [of
     "\<lparr>rp_rsp = Some \<lparr>rs_Query = [], rs_Kubernetes = None, rs_Request = None, rs_Runtime = None,
        rs_Extensions = [], rs_ServerDurationNs = 4, rs_ReceivedAtUnixNano = 0, rs_SentAtUnixNano = 0,
        rs_Shape = 0, rs_Payload = None\<rparr>,
      rp_err = (None :: nat option), rp_peer = None, rp_hdr = (\<lambda>_. [show_int 12]), rp_stats = []\<rparr>" _ 12 "[]" 0 9]
  by (simp add: in_int64_def)

end
