(* ===== verification/Latency.thy ===== *)
theory Latency
  imports Summary
begin

text \<open>
  The latency block of \<open>pkg/bench/aggregator.go\<close>: \<open>percentile\<close> (nearest rank, computed in floating
  point) and \<open>computeLatencyStats\<close> over a sorted sample. The main result is that the floating-point
  rank is the exact nearest rank for the three percentiles the program asks for.
\<close>

section \<open>The code\<close>

definition percentile_rank :: "nat \<Rightarrow> float64 \<Rightarrow> int" where
  "percentile_rank n p = \<lceil>f64 (f64 (p / 100) * f64 (of_nat n))\<rceil>"

definition percentile :: "duration list \<Rightarrow> float64 \<Rightarrow> duration" where
  "percentile xs p =
     (if length xs = 0 then 0
      else if p \<le> 0 then xs ! 0
      else if p \<ge> 100 then xs ! (length xs - 1)
      else let rank = percentile_rank (length xs) p;
               rank = (if rank < 1 then 1 else rank);
               rank = (if rank > int (length xs) then int (length xs) else rank)
           in xs ! nat (rank - 1))"

definition sum_step :: "int64 \<Rightarrow> duration \<Rightarrow> int64" where
  "sum_step s d = wrap64 (s + d)"

definition sqdiff_step :: "int64 \<Rightarrow> float64 \<Rightarrow> duration \<Rightarrow> float64" where
  "sqdiff_step mean sq d =
     (let diff = f64 (of_int (wrap64 (d - mean))) in f64 (sq + f64 (diff * diff)))"

definition computeLatencyStats :: "duration list \<Rightarrow> LatencyStats" where
  "computeLatencyStats xs =
     (let n = length xs in
      if n = 0 then zero_LatencyStats else
      let sum = foldl sum_step 0 xs;
          mean = go_div sum (int n);
          sqDiff = foldl (sqdiff_step mean) 0 xs;
          stddev = \<lfloor>f64_sqrt (f64 (sqDiff / f64 (of_nat n)))\<rfloor>
      in \<lparr>ls_Count = int n, ls_Min = xs ! 0, ls_Mean = mean, ls_Stddev = stddev,
          ls_Max = xs ! (n - 1), ls_P50 = percentile xs 50, ls_P90 = percentile xs 90,
          ls_P99 = percentile xs 99\<rparr>)"

section \<open>The rank is exact\<close>

lemma f64_value:
  assumes "2 powi e \<le> q" "q < 2 powi (e + 1)" "\<bar>q / 2 powi (e - 52) - of_int m\<bar> < 1 / 2"
  shows "f64 q = of_int m * 2 powi (e - 52)"
proof -
  have "0 < q" using assms(1) two_powi_pos [of e] by linarith
  with flog2_unique [OF assms(1,2)] rne_near [OF assms(3)] show ?thesis
    by (simp add: f64_pos_def)
qed

lemma f64_half: "f64 (1 / 2) = 1 / 2"
  using f64_value [of "-1" "1 / 2" 4503599627370496] by (simp add: power_int_def power_one_over)

lemma f64_point_9: "f64 (9 / 10) = 8106479329266893 / 9007199254740992"
  using f64_value [of "-1" "9 / 10" 8106479329266893] by (simp add: power_int_def power_one_over)

lemma f64_point_99: "f64 (99 / 100) = 8917127262193582 / 9007199254740992"
  using f64_value [of "-1" "99 / 100" 8917127262193582] by (simp add: power_int_def power_one_over)

text \<open>The three percentiles of the report; each quotient \<open>p / 100\<close> is close enough to its rounding.\<close>

definition report_percentile :: "nat \<Rightarrow> bool" where
  "report_percentile p \<longleftrightarrow> p = 50 \<or> p = 90 \<or> p = 99"

lemma quotient_error:
  "report_percentile p \<Longrightarrow>
     \<bar>f64 (of_nat p / 100) - of_nat p / 100\<bar> * 2 ^ 55 < of_nat p / 100"
  by (auto simp: report_percentile_def f64_half f64_point_9 f64_point_99)

lemma rounding_keeps_above:
  fixes f y m :: rat
  assumes "\<bar>f - y\<bar> \<le> y / 2 ^ 53" "y \<le> 2 ^ 41" "m + 1 / 200 < y"
  shows "m < f"
proof -
  have "y / 2 ^ 53 \<le> 2 ^ 41 / 2 ^ 53" using assms(2) by (intro divide_right_mono) auto
  also have "(2 :: rat) ^ 41 / 2 ^ 53 = 1 / 4096" by simp
  finally show ?thesis using assms(1,3) by linarith
qed

lemma percentile_rank_exact:
  assumes p: "report_percentile p" and n: "0 < n" "n < 2 ^ 40"
  shows "percentile_rank n (of_nat p) = (int p * int n + 99) div 100"
proof -
  define c where "c = f64 (of_nat p / 100)"
  define y where "y = c * of_nat n"
  define m r where "m = int p * int n div 100" and "r = int p * int n mod 100"
  define t where "t = (of_nat p * of_nat n / 100 :: rat)"
  have p': "1 \<le> p" "p \<le> 99" using p by (auto simp: report_percentile_def)
  have nn: "f64 (of_nat n) = of_nat n" using f64_of_int [of "int n"] n by simp
  have pn: "int p * int n = 100 * m + r" "0 \<le> r" "r < 100"
    by (simp_all add: m_def r_def)
  have "(of_int (int p * int n) :: rat) = of_int (100 * m + r)" by (simp only: pn)
  then have t: "t = of_int m + of_int r / 100" by (simp add: t_def add_divide_distrib)
  have tpos: "0 < t" using p' n by (simp add: t_def)
  have err: "\<bar>y - t\<bar> * 2 ^ 55 < t"
  proof -
    have "y - t = (c - of_nat p / 100) * of_nat n" by (simp add: y_def t_def algebra_simps)
    then have "\<bar>y - t\<bar> * 2 ^ 55 = \<bar>c - of_nat p / 100\<bar> * 2 ^ 55 * of_nat n"
      by (simp add: abs_mult)
    also have "\<dots> < of_nat p / 100 * of_nat n"
      using quotient_error [OF p] n by (intro mult_strict_right_mono) (simp_all add: c_def)
    finally show ?thesis by (simp add: t_def)
  qed
  have rank: "percentile_rank n (of_nat p) = \<lceil>f64 y\<rceil>"
    by (simp add: percentile_rank_def y_def c_def nn)
  have "int p * int n \<le> 99 * 2 ^ 40" using p' n by (intro mult_mono) auto
  then have "(of_int (int p * int n) :: rat) \<le> of_int (99 * 2 ^ 40)" by (simp only: of_int_le_iff)
  then have tb: "t \<le> 2 ^ 40" by (simp add: t_def)
  have mb: "0 \<le> m" "m < 2 ^ 40"
    using pn \<open>int p * int n \<le> 99 * 2 ^ 40\<close> zero_le_mult_iff [of "int p" "int n"]
      zero_less_power [of "2 :: int" 40] by linarith+
  show ?thesis
  proof (cases "r = 0")
    case True
    with t tpos have "0 < m" by simp
    with True err t mb have "f64 y = of_int m" by (intro f64_near) simp_all
    then show ?thesis unfolding rank pn using True by simp
  next
    case False
    then have r: "(1 :: rat) \<le> of_int r" "(of_int r :: rat) \<le> 99"
      using pn by (simp_all add: int_one_le_iff_zero_less)
    have y: "y < of_int (m + 1)" "of_int m + 1 / 200 < y"
      using err t r tb by (auto simp: abs_if split: if_splits)
    have mq: "(0 :: rat) \<le> of_int m" "(of_int m :: rat) \<le> of_int (2 ^ 40)"
      using mb by (simp_all only: of_int_0_le_iff of_int_le_iff less_imp_le)
    then have y0: "0 < y" using y(2) by linarith
    have "f64 y \<le> f64 (of_int (m + 1))" using y(1) y0 by (intro f64_mono) auto
    then have up: "f64 y \<le> of_int (m + 1)" using f64_of_int [of "m + 1"] mb by simp
    have "\<bar>f64 y - y\<bar> \<le> y / 2 ^ 53" by (rule f64_rel_error [OF y0])
    moreover have "y \<le> 2 ^ 41"
    proof -
      have "m + 1 \<le> 2 ^ 41" using mb(2) by simp
      then have "(of_int (m + 1) :: rat) \<le> of_int (2 ^ 41)" by (simp only: of_int_le_iff)
      with y(1) have "y \<le> of_int (2 ^ 41)" by (rule order.trans [OF less_imp_le])
      then show ?thesis by simp
    qed
    ultimately have "of_int m < f64 y" using y(2) by (rule rounding_keeps_above)
    with up have "\<lceil>f64 y\<rceil> = m + 1" by (simp add: ceiling_eq_iff)
    moreover have "(100 * m + r + 99) div 100 = m + 1"
      using pn(2,3) False by (intro int_div_pos_eq [of _ _ _ "r - 1"]) auto
    ultimately show ?thesis unfolding rank pn by simp
  qed
qed

section \<open>Percentiles of a sorted sample\<close>

definition nearest_rank :: "nat \<Rightarrow> nat \<Rightarrow> nat" where
  "nearest_rank n p = (p * n + 99) div 100"

lemma nearest_rank_bounds:
  assumes "0 < n" "0 < p" "p \<le> 100"
  shows "1 \<le> nearest_rank n p" "nearest_rank n p \<le> n"
proof -
  have "0 < p * n" "p * n \<le> 100 * n" using assms by (simp_all add: mult_le_mono)
  then show "1 \<le> nearest_rank n p" "nearest_rank n p \<le> n" unfolding nearest_rank_def by linarith+
qed

lemma nearest_rank_mono: "p \<le> q \<Longrightarrow> nearest_rank n p \<le> nearest_rank n q"
  by (simp add: nearest_rank_def div_le_mono mult_le_mono)

lemma nearest_rank_least:
  "p * n \<le> 100 * nearest_rank n p" "0 < n * p \<Longrightarrow> 100 * (nearest_rank n p - 1) < p * n"
proof -
  show "p * n \<le> 100 * nearest_rank n p" unfolding nearest_rank_def by linarith
  have "0 < z \<Longrightarrow> 100 * ((z + 99) div 100 - 1) < z" for z :: nat
    using times_div_less_eq_dividend [of 100 "z + 99"] by arith
  from this [of "p * n"] show "0 < n * p \<Longrightarrow> 100 * (nearest_rank n p - 1) < p * n"
    by (simp add: nearest_rank_def)
qed

definition sample_size_ok :: "'a list \<Rightarrow> bool" where
  "sample_size_ok xs \<longleftrightarrow> 0 < length xs \<and> length xs < 2 ^ 40"

lemma percentile_eq:
  assumes "report_percentile p" "sample_size_ok xs"
  shows "percentile xs (of_nat p) = xs ! (nearest_rank (length xs) p - 1)"
proof -
  have p: "0 < p" "p < 100" using assms by (auto simp: report_percentile_def)
  have n: "0 < length xs" "length xs < 2 ^ 40" using assms by (simp_all add: sample_size_ok_def)
  have "percentile_rank (length xs) (of_nat p) = int (nearest_rank (length xs) p)"
    using percentile_rank_exact [OF assms(1) n] by (simp add: nearest_rank_def zdiv_int)
  with nearest_rank_bounds [of "length xs" p] n p show ?thesis
    by (simp add: percentile_def nat_diff_distrib)
qed

lemma percentile_mem:
  assumes "report_percentile p" "sample_size_ok xs"
  shows "percentile xs (of_nat p) \<in> set xs"
proof -
  have "0 < p" "p \<le> 100" using assms(1) by (auto simp: report_percentile_def)
  then show ?thesis
    unfolding percentile_eq [OF assms] using assms(2) nearest_rank_bounds [of "length xs" p]
    by (intro nth_mem) (auto simp: sample_size_ok_def)
qed

lemma percentile_mono:
  assumes "report_percentile p" "report_percentile q" "p \<le> q" "sample_size_ok xs" "sorted xs"
  shows "percentile xs (of_nat p) \<le> percentile xs (of_nat q)"
proof -
  have "0 < q" "q \<le> 100" using assms(2) by (auto simp: report_percentile_def)
  then show ?thesis
    unfolding percentile_eq [OF assms(1,4)] percentile_eq [OF assms(2,4)]
    using assms(4) nearest_rank_bounds [of "length xs" q] nearest_rank_mono [OF assms(3), of "length xs"]
    by (intro sorted_nth_mono [OF assms(5)]) (auto simp: sample_size_ok_def)
qed

lemma count_le_at_least:
  assumes "sorted xs" "k < length xs"
  shows "Suc k \<le> length (filter (\<lambda>x. x \<le> xs ! k) xs)"
proof -
  have "\<forall>x\<in>set (take (Suc k) xs). x \<le> xs ! k"
    using assms by (auto simp: in_set_conv_nth less_Suc_eq_le intro!: sorted_nth_mono)
  then have "filter (\<lambda>x. x \<le> xs ! k) (take (Suc k) xs) = take (Suc k) xs"
    by (simp add: filter_id_conv)
  then have "length (take (Suc k) xs) \<le> length (filter (\<lambda>x. x \<le> xs ! k) (take (Suc k) xs @ drop (Suc k) xs))"
    unfolding filter_append by simp
  with assms(2) show ?thesis by simp
qed

lemma count_le_at_most:
  assumes "sorted xs" "k < length xs" "w < xs ! k"
  shows "length (filter (\<lambda>x. x \<le> w) xs) \<le> k"
proof -
  have "\<not> x \<le> w" if "x \<in> set (drop k xs)" for x
  proof -
    from that obtain i where "i < length xs - k" "x = xs ! (k + i)"
      by (auto simp: in_set_conv_nth)
    then have "xs ! k \<le> x" using assms by (auto intro!: sorted_nth_mono)
    with assms(3) show ?thesis by simp
  qed
  then have "filter (\<lambda>x. x \<le> w) (drop k xs) = []" by (simp add: filter_empty_conv)
  then have "length (filter (\<lambda>x. x \<le> w) (take k xs @ drop k xs)) \<le> length (take k xs)"
    unfolding filter_append by (simp add: length_filter_le del: length_take)
  then show ?thesis by simp
qed

section \<open>Sum, mean and spread\<close>

lemma sum_loop: "foldl sum_step (wrap64 a) xs = wrap64 (a + sum_list xs)"
  by (induction xs arbitrary: a) (simp_all add: sum_step_def wrap64_add_left add.assoc)

lemma sum_loop_0: "foldl sum_step 0 xs = wrap64 (sum_list xs)"
  using sum_loop [of 0 xs] by simp

lemma sum_list_bounds:
  fixes xs :: "int list"
  assumes "\<And>x. x \<in> set xs \<Longrightarrow> lo \<le> x \<and> x \<le> hi"
  shows "int (length xs) * lo \<le> sum_list xs" "sum_list xs \<le> int (length xs) * hi"
  using assms by (induction xs) (force simp: algebra_simps)+

lemma go_div_bounds:
  assumes n: "0 < (n :: int)" and lo: "n * lo \<le> s" and hi: "s \<le> n * hi"
  shows "lo \<le> go_div s n" "go_div s n \<le> hi"
proof -
  have pos: "lo \<le> s div n" "s div n \<le> hi"
    using n lo hi zdiv_mono1 [OF lo n] zdiv_mono1 [OF hi n] by simp_all
  have e: "n * x div n = x" for x using n by simp
  have "- s \<le> n * (- lo)" "n * (- hi) \<le> - s" using lo hi by simp_all
  from this [THEN zdiv_mono1, OF n] have neg: "(- s) div n \<le> - lo" "- hi \<le> (- s) div n"
    unfolding e by simp_all
  show "lo \<le> go_div s n" "go_div s n \<le> hi"
    using pos neg n by (cases s "0 :: int" rule: linorder_cases; simp add: go_div_def)+
qed

lemma sqdiff_zero: "\<forall>x\<in>set xs. x = m \<Longrightarrow> foldl (sqdiff_step m) 0 xs = 0"
  by (induction xs) (simp_all add: sqdiff_step_def)

lemma sqdiff_step_nonneg: "0 \<le> sq \<Longrightarrow> 0 \<le> sqdiff_step m sq d"
  by (simp add: sqdiff_step_def Let_def f64_nonneg)

section \<open>Properties\<close>

text \<open>
  C12: \<open>percentile\<close> is the nearest-rank percentile, in spite of its floating-point arithmetic: for the
  three percentiles of the report and fewer than \<open>2 ^ 40\<close> samples it returns the smallest sample such that
  at least \<open>p\<close> percent of the samples are no larger.
\<close>

theorem percentile_nearest_rank:
  assumes "report_percentile p" "sample_size_ok xs" "sorted xs"
  shows "percentile xs (of_nat p) \<in> set xs \<and>
    p * length xs \<le> 100 * length (filter (\<lambda>x. x \<le> percentile xs (of_nat p)) xs) \<and>
    (\<forall>w\<in>set xs. w < percentile xs (of_nat p) \<longrightarrow> 100 * length (filter (\<lambda>x. x \<le> w) xs) < p * length xs)"
proof (intro conjI ballI impI)
  let ?k = "nearest_rank (length xs) p - 1"
  have p: "0 < p" "p \<le> 100" using assms(1) by (auto simp: report_percentile_def)
  have n: "0 < length xs" using assms(2) by (simp add: sample_size_ok_def)
  note b = nearest_rank_bounds [OF n p]
  have k: "?k < length xs" "Suc ?k = nearest_rank (length xs) p" using b by auto
  note v = percentile_eq [OF assms(1,2)]
  show "percentile xs (of_nat p) \<in> set xs" by (rule percentile_mem [OF assms(1,2)])
  show "p * length xs \<le> 100 * length (filter (\<lambda>x. x \<le> percentile xs (of_nat p)) xs)"
    using count_le_at_least [OF assms(3) k(1)] nearest_rank_least(1) [of p "length xs"] unfolding v k(2)
    by linarith
  show "100 * length (filter (\<lambda>x. x \<le> w) xs) < p * length xs"
    if "w \<in> set xs" "w < percentile xs (of_nat p)" for w
  proof -
    have "length (filter (\<lambda>x. x \<le> w) xs) \<le> ?k"
      using that(2) unfolding v by (rule count_le_at_most [OF assms(3) k(1)])
    then have "100 * length (filter (\<lambda>x. x \<le> w) xs) \<le> 100 * ?k" by simp
    also have "\<dots> < p * length xs" using n p by (intro nearest_rank_least(2)) simp
    finally show ?thesis .
  qed
qed

theorem percentile_nearest_rank_witness:
  "percentile [10, 20, 30, 40] (of_nat 50) \<in> set [10, 20, 30, 40] \<and>
   50 * length [10, 20, 30, 40 :: int] \<le>
     100 * length (filter (\<lambda>x. x \<le> percentile [10, 20, 30, 40] (of_nat 50)) [10, 20, 30, 40])"
proof -
  have "report_percentile 50" "sample_size_ok [10, 20, 30, 40 :: int]" "sorted [10, 20, 30, 40 :: int]"
    by (simp_all add: report_percentile_def sample_size_ok_def)
  from percentile_nearest_rank [OF this] show ?thesis by blast
qed

text \<open>
  C27: The latency block of a non-empty sorted sample: the extremes are its minimum and maximum,
  \<open>Min \<le> P50 \<le> P90 \<le> P99 \<le> Max\<close>, the mean is the sum divided by the count, truncated, and lies
  between the extremes when the sum fits in 64 bits, and the spread of equal samples is zero.
\<close>

theorem latency_stats_correct:
  assumes "sample_size_ok xs" "sorted xs" "in_int64 (sum_list xs)"
  defines "l \<equiv> computeLatencyStats xs"
  shows "ls_Count l = int (length xs) \<and> ls_Min l = Min (set xs) \<and> ls_Max l = Max (set xs) \<and>
    ls_Min l \<le> ls_P50 l \<and> ls_P50 l \<le> ls_P90 l \<and> ls_P90 l \<le> ls_P99 l \<and> ls_P99 l \<le> ls_Max l \<and>
    ls_Mean l = go_div (sum_list xs) (int (length xs)) \<and> ls_Min l \<le> ls_Mean l \<and> ls_Mean l \<le> ls_Max l \<and>
    0 \<le> ls_Stddev l \<and> (ls_Min l = ls_Max l \<longrightarrow> ls_Stddev l = 0)"
proof -
  have n: "0 < length xs" "xs \<noteq> []" using assms by (auto simp: sample_size_ok_def)
  have f: "ls_Count l = int (length xs)" "ls_Min l = xs ! 0" "ls_Max l = xs ! (length xs - 1)"
    "ls_P50 l = percentile xs 50" "ls_P90 l = percentile xs 90" "ls_P99 l = percentile xs 99"
    "ls_Mean l = go_div (sum_list xs) (int (length xs))"
    using n by (simp_all add: l_def computeLatencyStats_def Let_def sum_loop_0 wrap64_id [OF assms(3)])
  have sd: "ls_Stddev l = \<lfloor>f64_sqrt (f64 (foldl (sqdiff_step (ls_Mean l)) 0 xs / f64 (of_nat (length xs))))\<rfloor>"
    using n by (simp add: f(7)) (simp add: l_def computeLatencyStats_def Let_def sum_loop_0 wrap64_id [OF assms(3)])
  have lo: "xs ! 0 \<le> x" and hi: "x \<le> xs ! (length xs - 1)" if "x \<in> set xs" for x
    using that assms(2) by (auto simp: in_set_conv_nth intro!: sorted_nth_mono)
  have ext: "ls_Min l = Min (set xs)" "ls_Max l = Max (set xs)"
    unfolding f using n lo hi by (auto intro!: Min_eqI [symmetric] Max_eqI [symmetric])
  have rp: "report_percentile 50" "report_percentile 90" "report_percentile 99"
    by (simp_all add: report_percentile_def)
  have pct: "ls_P50 l \<le> ls_P90 l" "ls_P90 l \<le> ls_P99 l" "ls_Min l \<le> ls_P50 l" "ls_P99 l \<le> ls_Max l"
    using percentile_mono [OF rp(1,2) _ assms(1,2)] percentile_mono [OF rp(2,3) _ assms(1,2)]
      lo [OF percentile_mem [OF rp(1) assms(1)]] hi [OF percentile_mem [OF rp(3) assms(1)]]
    by (simp_all add: f)
  have mean: "ls_Min l \<le> ls_Mean l" "ls_Mean l \<le> ls_Max l"
    using sum_list_bounds [of xs "xs ! 0" "xs ! (length xs - 1)"] lo hi n
      go_div_bounds [of "int (length xs)" "xs ! 0" "sum_list xs" "xs ! (length xs - 1)"]
    by (simp_all add: f)
  have "\<forall>x\<in>set xs. x = ls_Mean l" if "ls_Min l = ls_Max l"
    using that lo hi mean unfolding f(2,3) by (metis order.antisym)
  then have "ls_Min l = ls_Max l \<longrightarrow> ls_Stddev l = 0"
    using sqdiff_zero [of xs "ls_Mean l"] by (simp add: sd)
  moreover have "0 \<le> ls_Stddev l" by (simp add: sd f64_sqrt_nonneg)
  ultimately show ?thesis using f(1,7) ext pct mean by blast
qed

theorem latency_stats_correct_witness:
  "ls_Min (computeLatencyStats [10, 20, 60]) = 10 \<and> ls_Mean (computeLatencyStats [10, 20, 60]) = 30"
  using latency_stats_correct [of "[10, 20, 60]"]
  by (simp add: sample_size_ok_def in_int64_def)

end
