(* ===== verification/Backends.thy ===== *)
theory Backends
  imports Latency
begin

text \<open>
  The per-backend block of \<open>pkg/bench/aggregator.go\<close>: \<open>backendKey\<close>, \<open>computeBackends\<close> and
  \<open>computeBackendSkew\<close>. Go does not fix the order in which \<open>range\<close> visits a map, so a function that
  ranges over its buckets takes that order as a parameter: a function that lists the entries in
  some order. \<open>fair\<close> says that it lists exactly the entries of the map.
\<close>

section \<open>The code\<close>

type_synonym 'b order = "'b list \<Rightarrow> 'b list"

definition backendKey :: "'e Result \<Rightarrow> string \<times> string" where
  "backendKey r =
     (if r_PodName r \<noteq> [] then (r_PodName r, ''pod_name'')
      else if r_PodHostname r \<noteq> [] then (r_PodHostname r, ''hostname'')
      else if r_PeerAddr r \<noteq> [] then (r_PeerAddr r, ''peer'')
      else ([], ''unknown''))"

record backend_bucket =
  bb_Source :: string
  bb_Count :: int
  bb_ErrorCount :: int
  bb_Durations :: "duration list"

definition fresh_backend :: "'e Result \<Rightarrow> backend_bucket" where
  "fresh_backend r =
     \<lparr>bb_Source = snd (backendKey r), bb_Count = 0, bb_ErrorCount = 0, bb_Durations = []\<rparr>"

definition add_to_backend :: "'e Result \<Rightarrow> backend_bucket \<Rightarrow> backend_bucket" where
  "add_to_backend r b =
     (let b = b\<lparr>bb_Count := bb_Count b + 1\<rparr> in
      if r_Err r \<noteq> None then b\<lparr>bb_ErrorCount := bb_ErrorCount b + 1\<rparr>
      else b\<lparr>bb_Durations := bb_Durations b @ [r_TotalDuration r]\<rparr>)"

definition backend_stats :: "int \<Rightarrow> string \<times> backend_bucket \<Rightarrow> BackendStats" where
  "backend_stats totalCount kb =
     (let (key, b) = kb; ds = sort_slice (<) (bb_Durations b) in
      \<lparr>be_Key = key, be_Source = bb_Source b, be_Count = bb_Count b, be_ErrorCount = bb_ErrorCount b,
       be_PercentOfTotal =
         (if totalCount > 0
          then f64 (f64 (f64 (of_int (bb_Count b)) / f64 (of_int totalCount)) * 100) else 0),
       be_P50 = percentile ds 50, be_P99 = percentile ds 99\<rparr>)"

definition backend_less :: "BackendStats \<Rightarrow> BackendStats \<Rightarrow> bool" where
  "backend_less x y =
     (if be_Count x \<noteq> be_Count y then be_Count x > be_Count y else be_Key x < be_Key y)"

definition computeBackends ::
  "(string \<times> backend_bucket) order \<Rightarrow> 'e Result list \<Rightarrow> int \<Rightarrow> BackendStats list" where
  "computeBackends ord results totalCount =
     (if length results = 0 then []
      else let buckets = fill_buckets (\<lambda>r. fst (backendKey r)) fresh_backend add_to_backend results
           in sort_slice backend_less (map (backend_stats totalCount) (ord buckets)))"

definition minmax_step :: "int \<times> int \<Rightarrow> BackendStats \<Rightarrow> int \<times> int" where
  "minmax_step mm b =
     (let (minC, maxC) = mm in
      (if be_Count b < minC then be_Count b else minC, if be_Count b > maxC then be_Count b else maxC))"

definition p99_step :: "nat \<times> duration \<times> duration \<Rightarrow> BackendStats \<Rightarrow> nat \<times> duration \<times> duration" where
  "p99_step q b =
     (let (qualifying, minP99, maxP99) = q in
      if be_P99 b = 0 then (qualifying, minP99, maxP99)
      else (qualifying + 1,
            if qualifying = 0 \<or> be_P99 b < minP99 then be_P99 b else minP99,
            if qualifying = 0 \<or> be_P99 b > maxP99 then be_P99 b else maxP99))"

definition computeBackendSkew :: "BackendStats list \<Rightarrow> BackendSkew" where
  "computeBackendSkew backends =
     (let countRatio =
        (if length backends \<ge> 2 then
           let (minC, maxC) = foldl minmax_step (be_Count (backends ! 0), be_Count (backends ! 0)) (tl backends)
           in if minC > 0 then f64 (f64 (of_int maxC) / f64 (of_int minC)) else 0
         else 0);
        (qualifying, minP99, maxP99) = foldl p99_step (0, 0, 0) backends;
        p99Ratio = (if qualifying \<ge> 2 \<and> minP99 > 0
                    then f64 (f64 (of_int maxP99) / f64 (of_int minP99)) else 0)
      in \<lparr>sk_CountRatio = countRatio, sk_P99Ratio = p99Ratio\<rparr>)"

section \<open>Sorting the rows\<close>

definition fair :: "'b order \<Rightarrow> bool" where
  "fair ord \<longleftrightarrow> (\<forall>xs. mset (ord xs) = mset xs)"

lemma fair_set: "fair ord \<Longrightarrow> set (ord xs) = set xs"
  unfolding fair_def by (metis set_mset_mset)

lemma fair_id [simp]: "fair (\<lambda>xs. xs)" and fair_rev [simp]: "fair rev"
  by (simp_all add: fair_def)

lemma backend_less_key:
  "backend_less x y \<longleftrightarrow> (- be_Count x, be_Key x) < (- be_Count y, be_Key y)"
  by (auto simp: backend_less_def less_prod_def' less_le)

interpretation backend_sort: slice_sort backend_less "sort_slice backend_less"
  by (rule slice_sort_by_key [where f = "\<lambda>b. (- be_Count b, be_Key b)"]) (rule backend_less_key)

lemma backend_less_total:
  "\<not> backend_less x y \<Longrightarrow> \<not> backend_less y x \<Longrightarrow> be_Count x = be_Count y \<and> be_Key x = be_Key y"
  by (auto simp: backend_less_def split: if_splits)

section \<open>What a row holds\<close>

definition failed :: "'e Result \<Rightarrow> bool" where
  "failed r \<longleftrightarrow> r_Err r \<noteq> None"

abbreviation key_of :: "'e Result \<Rightarrow> string" where
  "key_of r \<equiv> fst (backendKey r)"

lemma add_to_backend_fold:
  "foldl (\<lambda>b r. add_to_backend r b) b rs =
     \<lparr>bb_Source = bb_Source b, bb_Count = bb_Count b + int (length rs),
      bb_ErrorCount = bb_ErrorCount b + int (length (filter failed rs)),
      bb_Durations = bb_Durations b @ map r_TotalDuration (filter (Not \<circ> failed) rs)\<rparr>"
  by (induction rs arbitrary: b) (auto simp: add_to_backend_def failed_def Let_def)

lemma backend_bucket_of:
  assumes "rs \<noteq> []"
  shows "bucket_of fresh_backend add_to_backend rs =
    Some \<lparr>bb_Source = snd (backendKey (hd rs)), bb_Count = int (length rs),
      bb_ErrorCount = int (length (filter failed rs)),
      bb_Durations = map r_TotalDuration (filter (Not \<circ> failed) rs)\<rparr>"
  using assms by (cases rs) (auto simp: bucket_of_Cons add_to_backend_fold fresh_backend_def
      simp del: foldl.simps)

text \<open>The row of a key, read off the results directly.\<close>

definition results_of :: "string \<Rightarrow> 'e Result list \<Rightarrow> 'e Result list" where
  "results_of k results = filter (\<lambda>r. key_of r = k) results"

definition backend_row :: "'e Result list \<Rightarrow> int \<Rightarrow> string \<Rightarrow> BackendStats" where
  "backend_row results totalCount k =
     (let rs = results_of k results; ds = sort (map r_TotalDuration (filter (Not \<circ> failed) rs)) in
      \<lparr>be_Key = k, be_Source = snd (backendKey (hd rs)), be_Count = int (length rs),
       be_ErrorCount = int (length (filter failed rs)),
       be_PercentOfTotal =
         (if totalCount > 0
          then f64 (f64 (f64 (of_int (int (length rs))) / f64 (of_int totalCount)) * 100) else 0),
       be_P50 = percentile ds 50, be_P99 = percentile ds 99\<rparr>)"

lemma backend_row_simps [simp]:
  "be_Key (backend_row results t k) = k"
  "be_Count (backend_row results t k) = int (length (results_of k results))"
  "be_ErrorCount (backend_row results t k) = int (length (filter failed (results_of k results)))"
  by (simp_all add: backend_row_def Let_def)

abbreviation backend_buckets :: "'e Result list \<Rightarrow> (string \<times> backend_bucket) list" where
  "backend_buckets results \<equiv> fill_buckets (\<lambda>r. fst (backendKey r)) fresh_backend add_to_backend results"

lemma backend_stats_row:
  assumes "(k, b) \<in> set (backend_buckets results)"
  shows "backend_stats t (k, b) = backend_row results t k"
proof -
  have b: "bucket_of fresh_backend add_to_backend (results_of k results) = Some b"
    using assms by (simp add: mem_fill_buckets results_of_def)
  then have "results_of k results \<noteq> []" by (auto simp: bucket_of_Nil)
  from backend_bucket_of [OF this] b show ?thesis
    by (auto simp: backend_stats_def backend_row_def Let_def sort_slice_int)
qed

lemma map_backend_stats:
  assumes "fair ord"
  shows "map (backend_stats t) (ord (backend_buckets results)) =
    map (backend_row results t) (map fst (ord (backend_buckets results)))"
  using fair_set [OF assms] backend_stats_row by (auto simp: comp_def)

lemma ordered_keys:
  assumes "fair ord"
  shows "distinct (map fst (ord (backend_buckets results)))"
    "set (map fst (ord (backend_buckets results))) = key_of ` set results"
proof -
  have "mset (map fst (ord (backend_buckets results))) = mset (map fst (backend_buckets results))"
    using assms by (simp add: fair_def)
  then show "distinct (map fst (ord (backend_buckets results)))"
    "set (map fst (ord (backend_buckets results))) = key_of ` set results"
    using distinct_fill_buckets [of "\<lambda>r. fst (backendKey r)" fresh_backend add_to_backend results]
      keys_fill_buckets [of "\<lambda>r. fst (backendKey r)" fresh_backend add_to_backend results]
    by (metis mset_eq_imp_distinct_iff, metis set_map set_mset_mset)
qed

text \<open>
  For every iteration order the table is the rows of the keys that occur, sorted: the
  specification does not mention the order.
\<close>

lemma computeBackends_eq:
  assumes "fair ord"
  shows "computeBackends ord results t =
    sort_slice backend_less (map (backend_row results t) (sorted_list_of_set (key_of ` set results)))"
proof (cases "results = []")
  case True
  then show ?thesis by (simp add: computeBackends_def)
next
  case False
  let ?ks = "map fst (ord (backend_buckets results))"
  have "mset ?ks = mset (sorted_list_of_set (key_of ` set results))"
    using ordered_keys [OF assms, of results]
    by (subst set_eq_iff_mset_eq_distinct [symmetric]) simp_all
  then have "mset (map (backend_row results t) ?ks) =
      mset (map (backend_row results t) (sorted_list_of_set (key_of ` set results)))"
    by (metis mset_map)
  then have "sort_slice backend_less (map (backend_row results t) ?ks) =
      sort_slice backend_less (map (backend_row results t) (sorted_list_of_set (key_of ` set results)))"
    by (rule backend_sort.perm_invariant) (auto dest!: backend_less_total)
  then show ?thesis
    using False by (simp add: computeBackends_def map_backend_stats [OF assms])
qed

lemma mset_computeBackends:
  "fair ord \<Longrightarrow> mset (computeBackends ord results t) =
     mset (map (backend_row results t) (sorted_list_of_set (key_of ` set results)))"
  by (simp add: computeBackends_eq)

lemma set_computeBackends:
  "fair ord \<Longrightarrow> set (computeBackends ord results t) = backend_row results t ` key_of ` set results"
  by (simp add: computeBackends_eq)

lemma length_computeBackends:
  "fair ord \<Longrightarrow> length (computeBackends ord results t) = card (key_of ` set results)"
  by (simp add: computeBackends_eq)

lemma sum_backends:
  assumes "fair ord"
  shows "sum_list (map f (computeBackends ord results t)) =
    (\<Sum>k\<in>key_of ` set results. f (backend_row results t k))"
proof -
  let ?rows = "map (backend_row results t) (sorted_list_of_set (key_of ` set results))"
  have "mset (map f (computeBackends ord results t)) = mset (map f ?rows)"
    unfolding mset_map [of f] mset_computeBackends [OF assms] ..
  then have "sum_list (map f (computeBackends ord results t)) = sum_list (map f ?rows)"
    by (metis sum_mset_sum_list)
  also have "\<dots> = (\<Sum>k\<in>key_of ` set results. f (backend_row results t k))"
    by (simp add: sum_list_distinct_conv_sum_set comp_def)
  finally show ?thesis .
qed

lemma length_filter_sum: "int (length (filter P xs)) = sum_list (map (\<lambda>x. if P x then 1 else 0) xs)"
  by (induction xs) auto

lemma backends_conserve:
  assumes "fair ord"
  shows "sum_list (map be_Count (computeBackends ord results t)) = int (length results)"
    "sum_list (map be_ErrorCount (computeBackends ord results t)) = int (length (filter failed results))"
proof -
  have c: "int (length (results_of k results)) = sum_list (map (\<lambda>_. 1) (filter (\<lambda>r. key_of r = k) results))" for k
    by (simp add: results_of_def sum_list_triv)
  have e: "int (length (filter failed (results_of k results))) =
      sum_list (map (\<lambda>x. if failed x then 1 else 0) (filter (\<lambda>r. key_of r = k) results))" for k
    by (simp only: length_filter_sum results_of_def)
  show "sum_list (map be_Count (computeBackends ord results t)) = int (length results)"
    unfolding sum_backends [OF assms] backend_row_simps c sum_over_keys by (simp add: sum_list_triv)
  show "sum_list (map be_ErrorCount (computeBackends ord results t)) = int (length (filter failed results))"
    unfolding sum_backends [OF assms] backend_row_simps e sum_over_keys by (simp add: length_filter_sum)
qed

lemma sorted_wrt_distinct: "distinct (map f xs) \<Longrightarrow> sorted_wrt (\<lambda>x y. f x \<noteq> f y) xs"
  by (induction xs) auto

lemma distinct_backend_keys:
  assumes "fair ord"
  shows "distinct (map be_Key (computeBackends ord results t))"
proof -
  have "mset (map be_Key (computeBackends ord results t)) = mset (sorted_list_of_set (key_of ` set results))"
    unfolding mset_map [of be_Key] mset_computeBackends [OF assms]
    by (simp add: mset_map [symmetric] comp_def del: mset_map)
  then show ?thesis by (metis mset_eq_imp_distinct_iff distinct_sorted_list_of_set)
qed

lemma sorted_computeBackends: "sorted_wrt backend_less (computeBackends ord results t)" if "fair ord"
proof -
  let ?bs = "computeBackends ord results t"
  have d: "distinct (map be_Key ?bs)" by (rule distinct_backend_keys [OF that])
  have "sorted_wrt (\<lambda>x y. \<not> backend_less y x) ?bs"
    unfolding computeBackends_eq [OF that] by (rule backend_sort.ordered)
  moreover have "sorted_wrt (\<lambda>x y. be_Key x \<noteq> be_Key y) ?bs"
    using d by (rule sorted_wrt_distinct)
  ultimately have "sorted_wrt (\<lambda>x y. \<not> backend_less y x \<and> be_Key x \<noteq> be_Key y) ?bs"
    by (simp add: sorted_wrt_iff_nth_less)
  then show ?thesis
    by (rule sorted_wrt_mono_rel [rotated]) (auto dest: backend_less_total)
qed

section \<open>The skew loops\<close>

lemma minmax_step_eq: "minmax_step (lo, hi) b = (min lo (be_Count b), max hi (be_Count b))"
  by (simp add: minmax_step_def min_def max_def)

lemma Min_Max_insert2:
  fixes A :: "int set"
  assumes "finite A"
  shows "Min (insert (min lo c) A) = Min (insert lo (insert c A))"
    "Max (insert (max hi c) A) = Max (insert hi (insert c A))"
  using assms by (cases "A = {}"; simp add: min.assoc max.assoc)+

lemma minmax_loop:
  "foldl minmax_step (lo, hi) bs =
     (Min (insert lo (be_Count ` set bs)), Max (insert hi (be_Count ` set bs)))"
  by (induction bs arbitrary: lo hi) (simp_all add: minmax_step_eq Min_Max_insert2 del: Min_insert Max_insert)

lemma minmax_counts:
  "bs \<noteq> [] \<Longrightarrow> foldl minmax_step (be_Count (bs ! 0), be_Count (bs ! 0)) (tl bs) =
     (Min (be_Count ` set bs), Max (be_Count ` set bs))"
  by (cases bs) (simp_all add: minmax_loop)

definition p99s :: "BackendStats list \<Rightarrow> duration list" where
  "p99s bs = filter (\<lambda>d. d \<noteq> 0) (map be_P99 bs)"

lemma p99_step_eq:
  "p99_step (n, lo, hi) b =
     (let v = be_P99 b in
      if v = 0 then (n, lo, hi) else (n + 1, if n = 0 then v else min v lo, if n = 0 then v else max v hi))"
  by (auto simp: p99_step_def Let_def)

lemma p99_loop:
  "foldl p99_step (0, 0, 0) bs =
     (length (p99s bs), if p99s bs = [] then 0 else Min (set (p99s bs)),
      if p99s bs = [] then 0 else Max (set (p99s bs)))"
proof (induction bs rule: rev_induct)
  case (snoc b bs)
  have "p99s (bs @ [b]) = p99s bs @ (if be_P99 b = 0 then [] else [be_P99 b])"
    by (simp add: p99s_def)
  then show ?case
    by (cases "p99s bs = []") (simp_all add: snoc.IH p99_step_eq Let_def)
qed (simp add: p99s_def)

definition ratio :: "int \<Rightarrow> int \<Rightarrow> float64" where
  "ratio hi lo = f64 (f64 (of_int hi) / f64 (of_int lo))"

lemma ratio_ge_1: "0 < lo \<Longrightarrow> lo \<le> hi \<Longrightarrow> 1 \<le> ratio hi lo"
proof -
  assume a: "0 < lo" "lo \<le> hi"
  have "0 < f64 (of_int lo)" using a by (intro f64_pos) simp
  moreover have "f64 (of_int lo) \<le> f64 (of_int hi)" using a by (intro f64_mono) simp_all
  ultimately have "1 \<le> f64 (of_int hi) / f64 (of_int lo)" by (simp add: le_divide_eq)
  from f64_mono [OF zero_le_one this] show "1 \<le> ratio hi lo"
    using f64_of_int [of 1] by (simp add: ratio_def)
qed

lemma ratio_same: "0 < lo \<Longrightarrow> ratio lo lo = 1"
  using f64_of_int [of 1] f64_pos [of "of_int lo"] by (simp add: ratio_def)

lemma skew_eq:
  "sk_CountRatio (computeBackendSkew bs) =
     (let cs = be_Count ` set bs in
      if 2 \<le> length bs \<and> 0 < Min cs then ratio (Max cs) (Min cs) else 0)"
  "sk_P99Ratio (computeBackendSkew bs) =
     (let ds = p99s bs in
      if 2 \<le> length ds \<and> 0 < Min (set ds) then ratio (Max (set ds)) (Min (set ds)) else 0)"
proof -
  show "sk_CountRatio (computeBackendSkew bs) =
     (let cs = be_Count ` set bs in
      if 2 \<le> length bs \<and> 0 < Min cs then ratio (Max cs) (Min cs) else 0)"
    by (cases "bs = []") (simp_all add: computeBackendSkew_def Let_def minmax_counts ratio_def split_beta)
  show "sk_P99Ratio (computeBackendSkew bs) =
     (let ds = p99s bs in
      if 2 \<le> length ds \<and> 0 < Min (set ds) then ratio (Max (set ds)) (Min (set ds)) else 0)"
    by (cases "p99s bs = []") (simp_all add: computeBackendSkew_def Let_def p99_loop ratio_def)
qed

section \<open>Properties\<close>

text \<open>
  C24: The backend table does not depend on the order in which Go visits the map: it has one row per
  key that occurs in the results, holding the requests, errors and latencies of exactly the results
  with that key, strictly ordered by falling count and then by key, and its counts and error counts add
  up to the number of results and of failed results.
\<close>

theorem backend_table_correct:
  fixes results :: "'e Result list" and t :: int
  assumes "fair ord"
  defines "bs \<equiv> computeBackends ord results t"
  shows "set bs = backend_row results t ` key_of ` set results \<and> sorted_wrt backend_less bs \<and>
    sum_list (map be_Count bs) = int (length results) \<and>
    sum_list (map be_ErrorCount bs) = int (length (filter failed results)) \<and>
    (\<forall>ord'. fair ord' \<longrightarrow> computeBackends ord' results t = bs)"
proof (intro conjI allI impI)
  show "computeBackends ord' results t = bs" if "fair ord'" for ord'
    unfolding bs_def computeBackends_eq [OF that] computeBackends_eq [OF assms(1)] ..
qed (simp_all add: bs_def assms(1) set_computeBackends sorted_computeBackends backends_conserve)

theorem backend_table_correct_witness:
  "sum_list (map be_Count (computeBackends rev
     [plain_result ''a'' 5 None, plain_result ''b'' 7 (Some True), plain_result ''a'' 9 None] 3)) = 3"
  using backend_table_correct [OF fair_rev, THEN conjunct2, THEN conjunct2, THEN conjunct1, of
      "[plain_result ''a'' 5 None, plain_result ''b'' 7 (Some True), plain_result ''a'' 9 None]" 3]
  by simp

text \<open>
  C30: On the table of a run, \<open>CountRatio\<close> is the quotient of the largest and the smallest request
  count as soon as two backends answered, and then at least one; with fewer backends it is zero.
  \<open>P99Ratio\<close> is the same quotient over the non-zero p99 values when at least two rows have one.
\<close>

theorem backend_skew_correct:
  fixes results :: "'e Result list" and t :: int
  assumes "fair ord"
  defines "bs \<equiv> computeBackends ord results t"
  defines "s \<equiv> computeBackendSkew bs" and "cs \<equiv> be_Count ` set bs" and "ds \<equiv> p99s bs"
  shows "sk_CountRatio s = (if 2 \<le> length bs then ratio (Max cs) (Min cs) else 0) \<and>
    (2 \<le> length bs \<longrightarrow> 1 \<le> sk_CountRatio s) \<and>
    (2 \<le> length ds \<and> (\<forall>d\<in>set ds. 0 < d) \<longrightarrow>
       sk_P99Ratio s = ratio (Max (set ds)) (Min (set ds)) \<and> 1 \<le> sk_P99Ratio s) \<and>
    (length ds < 2 \<longrightarrow> sk_P99Ratio s = 0)"
proof -
  have row: "0 < be_Count b" if "b \<in> set bs" for b
    using that set_computeBackends [OF assms(1), of results t]
    by (auto simp: bs_def results_of_def filter_empty_conv)
  have c: "0 < Min cs \<and> Min cs \<le> Max cs" if "2 \<le> length bs"
  proof -
    have ne: "finite cs" "cs \<noteq> {}" using that by (auto simp: cs_def)
    then have "Min cs \<in> cs" by (rule Min_in)
    then show ?thesis using row ne by (auto simp: cs_def intro: Min_le_iff [THEN iffD2])
  qed
  have d: "0 < Min (set ds) \<and> Min (set ds) \<le> Max (set ds)" if "2 \<le> length ds" "\<forall>d\<in>set ds. 0 < d"
  proof -
    have ne: "set ds \<noteq> {}" using that(1) by auto
    then have "Min (set ds) \<in> set ds" by (intro Min_in) auto
    then show ?thesis using that(2) ne by auto
  qed
  show ?thesis
    using c d ratio_ge_1 [of "Min cs" "Max cs"] ratio_ge_1 [of "Min (set ds)" "Max (set ds)"]
    by (auto simp: s_def skew_eq Let_def cs_def ds_def)
qed

theorem backend_skew_correct_witness:
  "1 \<le> sk_CountRatio (computeBackendSkew (computeBackends rev
     [plain_result ''a'' 5 (None :: bool option), plain_result ''b'' 7 None, plain_result ''a'' 9 None] 3))"
proof -
  let ?rs = "[plain_result ''a'' 5 (None :: bool option), plain_result ''b'' 7 None, plain_result ''a'' 9 None]"
  have "2 \<le> length (computeBackends rev ?rs 3)"
    by (simp add: length_computeBackends backendKey_def card_insert_if)
  with backend_skew_correct [OF fair_rev, of ?rs 3] show ?thesis by simp
qed

end
