(* ===== verification/Errors.thy ===== *)
theory Errors
  imports Backends
begin

text \<open>
  The error block of \<open>pkg/bench/aggregator.go\<close>: \<open>truncateMessage\<close>, \<open>topMessages\<close> and
  \<open>computeStatusCodes\<close>. The gRPC status interface is the parameter \<open>st\<close>, map iteration orders are the
  parameters \<open>ord\<close> and \<open>ordm\<close>.
\<close>

section \<open>The code\<close>

definition topErrorMessages :: nat where "topErrorMessages = 3"
definition maxErrorMessageLen :: nat where "maxErrorMessageLen = 80"

definition truncateMessage :: "string \<Rightarrow> string" where
  "truncateMessage msg =
     (if rune_count msg \<le> maxErrorMessageLen then msg
      else string_of_runes (take maxErrorMessageLen (runes msg)) @ ''...'')"

definition errorMessage :: "'e grpc_status \<Rightarrow> 'e \<Rightarrow> string" where
  "errorMessage st err =
     (case status_FromError st err of Some m \<Rightarrow> m | None \<Rightarrow> error_Error st err)"

record code_bucket =
  cb_count :: int
  cb_messages :: "(string \<times> int) list"

definition fresh_code :: "'e \<Rightarrow> code_bucket" where
  "fresh_code err = \<lparr>cb_count = 0, cb_messages = []\<rparr>"

definition add_to_code :: "'e grpc_status \<Rightarrow> 'e \<Rightarrow> code_bucket \<Rightarrow> code_bucket" where
  "add_to_code st err b =
     b\<lparr>cb_count := cb_count b + 1,
       cb_messages := bucket_step id (\<lambda>_. 0) (\<lambda>_ c. c + 1) (cb_messages b)
         (truncateMessage (errorMessage st err))\<rparr>"

definition message_less :: "ErrorMessageStat \<Rightarrow> ErrorMessageStat \<Rightarrow> bool" where
  "message_less x y =
     (if em_Count x \<noteq> em_Count y then em_Count x > em_Count y else em_Message x < em_Message y)"

definition topMessages :: "(string \<times> int) order \<Rightarrow> (string \<times> int) list \<Rightarrow> ErrorMessageStat list" where
  "topMessages ord messages =
     (if length messages = 0 then [] else
      let stats = sort_slice message_less
            (map (\<lambda>(msg, c). \<lparr>em_Message = msg, em_Count = c\<rparr>) (ord messages))
      in if length stats > topErrorMessages then take topErrorMessages stats else stats)"

definition code_less :: "StatusCodeStats \<Rightarrow> StatusCodeStats \<Rightarrow> bool" where
  "code_less x y =
     (if sc_Count x \<noteq> sc_Count y then sc_Count x > sc_Count y else sc_Code x < sc_Code y)"

definition code_stats ::
  "'e grpc_status \<Rightarrow> (string \<times> int) order \<Rightarrow> code \<times> code_bucket \<Rightarrow> StatusCodeStats" where
  "code_stats st ordm cb =
     (let (c, b) = cb in
      \<lparr>sc_Code = c, sc_CodeName = code_String st c, sc_Count = cb_count b,
       sc_TopMessages = topMessages ordm (cb_messages b)\<rparr>)"

text \<open>The results with a nil error are skipped by the loop.\<close>

definition errors_of :: "'e Result list \<Rightarrow> 'e list" where
  "errors_of results = List.map_filter r_Err results"

definition computeStatusCodes ::
  "'e grpc_status \<Rightarrow> (code \<times> code_bucket) order \<Rightarrow> (string \<times> int) order \<Rightarrow> 'e Result list \<Rightarrow>
   StatusCodeStats list" where
  "computeStatusCodes st ord ordm results =
     (if length results = 0 then [] else
      let buckets = fill_buckets (status_Code st) fresh_code (add_to_code st) (errors_of results)
      in if length buckets = 0 then []
         else sort_slice code_less (map (code_stats st ordm) (ord buckets)))"

section \<open>Sorting\<close>

lemma message_less_key:
  "message_less x y \<longleftrightarrow> (- em_Count x, em_Message x) < (- em_Count y, em_Message y)"
  by (auto simp: message_less_def less_prod_def' less_le)

interpretation message_sort: slice_sort message_less "sort_slice message_less"
  by (rule slice_sort_by_key [where f = "\<lambda>x. (- em_Count x, em_Message x)"]) (rule message_less_key)

lemma message_less_total: "\<not> message_less x y \<Longrightarrow> \<not> message_less y x \<Longrightarrow> x = (y :: ErrorMessageStat)"
  by (auto simp: message_less_def split: if_splits)

lemma code_less_key: "code_less x y \<longleftrightarrow> (- sc_Count x, sc_Code x) < (- sc_Count y, sc_Code y)"
  by (auto simp: code_less_def less_prod_def' less_le)

interpretation code_sort: slice_sort code_less "sort_slice code_less"
  by (rule slice_sort_by_key [where f = "\<lambda>x. (- sc_Count x, sc_Code x)"]) (rule code_less_key)

lemma code_less_total: "\<not> code_less x y \<Longrightarrow> \<not> code_less y x \<Longrightarrow> sc_Code x = sc_Code y"
  by (auto simp: code_less_def split: if_splits)

section \<open>The message histogram\<close>

definition histogram :: "string list \<Rightarrow> (string \<times> int) list" where
  "histogram ms = fill_buckets id (\<lambda>_. 0) (\<lambda>_ c. c + 1) ms"

lemma histogram_bucket:
  "bucket_of (\<lambda>_. 0) (\<lambda>_ c. c + 1) ms = (if ms = [] then None else Some (int (length ms)))"
  by (induction ms rule: rev_induct) (auto simp: go_maps)

lemma mem_histogram: "(m, c) \<in> set (histogram ms) \<longleftrightarrow> m \<in> set ms \<and> c = int (count_list ms m)"
proof -
  have "filter (\<lambda>r. id r = m) ms = [] \<longleftrightarrow> m \<notin> set ms" by (auto simp: filter_empty_conv)
  moreover have "length (filter (\<lambda>r. id r = m) ms) = count_list ms m" by (induction ms) auto
  ultimately show ?thesis by (auto simp: histogram_def mem_fill_buckets histogram_bucket)
qed

abbreviation message_stats :: "(string \<times> int) list \<Rightarrow> ErrorMessageStat list" where
  "message_stats ms \<equiv> map (\<lambda>(msg, c). \<lparr>em_Message = msg, em_Count = c\<rparr>) ms"

lemma topMessages_eq:
  "topMessages ord ms = (if ms = [] then [] else take 3 (sort_slice message_less (message_stats (ord ms))))"
  by (simp add: topMessages_def topErrorMessages_def Let_def)

lemma topMessages_order:
  assumes "fair ord"
  shows "topMessages ord ms = topMessages (\<lambda>xs. xs) ms"
proof -
  have "mset (message_stats (ord ms)) = mset (message_stats ms)"
    using assms by (simp add: fair_def)
  then have "sort_slice message_less (message_stats (ord ms)) = sort_slice message_less (message_stats ms)"
    by (rule message_sort.perm_invariant) (rule message_less_total)
  then show ?thesis by (simp add: topMessages_eq)
qed

lemma topMessages_dominate:
  assumes "fair ord" "(msg, c) \<in> set ms" "t \<in> set (topMessages ord ms)"
    "\<lparr>em_Message = msg, em_Count = c\<rparr> \<notin> set (topMessages ord ms)"
  shows "message_less t \<lparr>em_Message = msg, em_Count = c\<rparr>"
proof -
  let ?u = "\<lparr>em_Message = msg, em_Count = c\<rparr>" and ?s = "sort_slice message_less (message_stats ms)"
  have ne: "ms \<noteq> []" using assms(2) by auto
  have top: "set (topMessages ord ms) = set (take 3 ?s)"
    unfolding topMessages_order [OF assms(1)] using ne by (simp add: topMessages_eq)
  have "?u \<in> set (take 3 ?s @ drop 3 ?s)" using assms(2) by (force simp: image_iff)
  then have "?u \<in> set (drop 3 ?s)" using assms(4) unfolding top set_append by blast
  moreover have "sorted_wrt (\<lambda>x y. \<not> message_less y x) (take 3 ?s @ drop 3 ?s)"
    unfolding append_take_drop_id by (rule message_sort.ordered)
  ultimately have "\<not> message_less ?u t" using assms(3) unfolding top sorted_wrt_append by blast
  moreover have "t \<noteq> ?u" using assms(3,4) by blast
  ultimately show ?thesis using message_less_total by blast
qed

section \<open>Status codes\<close>

lemma add_to_code_fold:
  "foldl (\<lambda>b e. add_to_code st e b) b es =
     b\<lparr>cb_count := cb_count b + int (length es),
       cb_messages := foldl (bucket_step id (\<lambda>_. 0) (\<lambda>_ c. c + 1)) (cb_messages b)
         (map (\<lambda>e. truncateMessage (errorMessage st e)) es)\<rparr>"
  by (induction es arbitrary: b) (simp_all add: add_to_code_def)

abbreviation messages_of :: "'e grpc_status \<Rightarrow> 'e list \<Rightarrow> string list" where
  "messages_of st es \<equiv> map (\<lambda>e. truncateMessage (errorMessage st e)) es"

lemma code_bucket_of:
  "es \<noteq> [] \<Longrightarrow> bucket_of fresh_code (add_to_code st) es =
     Some \<lparr>cb_count = int (length es), cb_messages = histogram (messages_of st es)\<rparr>"
  by (cases es) (simp_all add: bucket_of_Cons add_to_code_fold fresh_code_def histogram_def
      fill_buckets_def del: foldl.simps list.map)

definition errors_with :: "'e grpc_status \<Rightarrow> code \<Rightarrow> 'e Result list \<Rightarrow> 'e list" where
  "errors_with st c results = filter (\<lambda>e. status_Code st e = c) (errors_of results)"

definition code_row :: "'e grpc_status \<Rightarrow> 'e Result list \<Rightarrow> code \<Rightarrow> StatusCodeStats" where
  "code_row st results c =
     (let es = errors_with st c results in
      \<lparr>sc_Code = c, sc_CodeName = code_String st c, sc_Count = int (length es),
       sc_TopMessages = topMessages (\<lambda>xs. xs) (histogram (messages_of st es))\<rparr>)"

lemma code_row_simps [simp]:
  "sc_Code (code_row st results c) = c" "sc_CodeName (code_row st results c) = code_String st c"
  "sc_Count (code_row st results c) = int (length (errors_with st c results))"
  by (simp_all add: code_row_def Let_def)

abbreviation code_buckets :: "'e grpc_status \<Rightarrow> 'e Result list \<Rightarrow> (code \<times> code_bucket) list" where
  "code_buckets st results \<equiv>
     fill_buckets (status_Code st) fresh_code (add_to_code st) (errors_of results)"

lemma code_stats_row:
  assumes "fair ordm" "(c, b) \<in> set (code_buckets st results)"
  shows "code_stats st ordm (c, b) = code_row st results c"
proof -
  have b: "bucket_of fresh_code (add_to_code st) (errors_with st c results) = Some b"
    using assms(2) by (simp add: mem_fill_buckets errors_with_def)
  then have "errors_with st c results \<noteq> []" by (auto simp: bucket_of_Nil)
  from code_bucket_of [OF this] b show ?thesis
    by (auto simp: code_stats_def code_row_def Let_def topMessages_order [OF assms(1)])
qed

text \<open>As for the backends: the rows of the codes that occur, sorted, whatever the orders.\<close>

lemma computeStatusCodes_eq:
  assumes "fair ord" "fair ordm"
  shows "computeStatusCodes st ord ordm results =
    sort_slice code_less (map (code_row st results)
      (sorted_list_of_set (status_Code st ` set (errors_of results))))"
proof -
  let ?b = "code_buckets st results" and ?cs = "sorted_list_of_set (status_Code st ` set (errors_of results))"
  have "mset (map fst (ord ?b)) = mset (map fst ?b)" using assms(1) by (simp add: fair_def)
  also have "\<dots> = mset ?cs"
    by (subst set_eq_iff_mset_eq_distinct [symmetric]) (simp_all add: distinct_fill_buckets keys_fill_buckets)
  finally have "mset (map (code_row st results) (map fst (ord ?b))) = mset (map (code_row st results) ?cs)"
    by (metis mset_map)
  then have srt: "sort_slice code_less (map (code_row st results) (map fst (ord ?b))) =
      sort_slice code_less (map (code_row st results) ?cs)"
    by (rule code_sort.perm_invariant) (auto dest!: code_less_total)
  have row: "map (code_stats st ordm) (ord ?b) = map (code_row st results) (map fst (ord ?b))"
    using fair_set [OF assms(1)] code_stats_row [OF assms(2)] by (auto simp: comp_def)
  show ?thesis
  proof (cases "results = [] \<or> errors_of results = []")
    case True
    then have "?cs = []" by (auto simp: errors_of_def List.map_filter_simps)
    moreover from True have "computeStatusCodes st ord ordm results = []"
      by (auto simp: computeStatusCodes_def Let_def)
    ultimately show ?thesis by simp
  next
    case False
    then show ?thesis
      unfolding computeStatusCodes_def Let_def row srt by simp
  qed
qed

lemma sum_status_codes:
  assumes "fair ord" "fair ordm"
  shows "sum_list (map sc_Count (computeStatusCodes st ord ordm results)) =
    int (length (filter failed results))"
proof -
  let ?cs = "status_Code st ` set (errors_of results)"
  let ?rows = "map (code_row st results) (sorted_list_of_set ?cs)"
  have "mset (map sc_Count (computeStatusCodes st ord ordm results)) = mset (map sc_Count ?rows)"
    unfolding computeStatusCodes_eq [OF assms] mset_map [of sc_Count] by simp
  then have "sum_list (map sc_Count (computeStatusCodes st ord ordm results)) = sum_list (map sc_Count ?rows)"
    by (metis sum_mset_sum_list)
  also have "\<dots> = (\<Sum>c\<in>?cs. int (length (errors_with st c results)))"
    by (simp add: sum_list_distinct_conv_sum_set comp_def)
  also have "\<dots> = (\<Sum>c\<in>?cs. sum_list (map (\<lambda>_. 1) (filter (\<lambda>e. status_Code st e = c) (errors_of results))))"
    by (simp add: errors_with_def sum_list_triv)
  also have "\<dots> = int (length (errors_of results))"
    unfolding sum_over_keys by (simp add: sum_list_triv)
  also have "length (errors_of results) = length (filter failed results)"
    by (induction results) (auto simp: errors_of_def List.map_filter_simps failed_def split: option.splits)
  finally show ?thesis .
qed

section \<open>Properties\<close>

text \<open>
  \<open>truncateMessage\<close> clips at code points, never inside one: a message of at most 80 code points
  is returned unchanged, a longer one becomes the UTF-8 encoding of its first 80 code points and
  three dots, so no message has more than 83 code points.
\<close>

theorem truncate_message_runes:
  "runes (truncateMessage m) =
     (if length (runes m) \<le> 80 then runes m else take 80 (runes m) @ [0x2E, 0x2E, 0x2E]) \<and>
   (truncateMessage m = m \<or> truncateMessage m = string_of_runes (take 80 (runes m)) @ ''...'') \<and>
   rune_count (truncateMessage m) \<le> 83"
proof -
  have "list_all valid_rune (take 80 (runes m))"
    using valid_runes [of m] by (auto simp: list_all_iff dest: in_set_takeD)
  then have "runes (string_of_runes (take 80 (runes m)) @ ''...'') = take 80 (runes m) @ [0x2E, 0x2E, 0x2E]"
    by (subst runes_string_of_runes_append) (simp_all add: runes_ascii)
  then show ?thesis by (auto simp: truncateMessage_def rune_count_def maxErrorMessageLen_def)
qed

text \<open>
  \<open>topMessages\<close> keeps three entries of the histogram, or all of them when there are fewer, in
  falling order of count and then by message; every entry left out comes after every entry kept.
\<close>

theorem top_messages_correct:
  fixes ms :: "(string \<times> int) list"
  assumes "fair ord"
  defines "ts \<equiv> topMessages ord ms"
  shows "length ts = min 3 (length ms) \<and> set ts \<subseteq> set (message_stats ms) \<and>
    sorted_wrt (\<lambda>x y. \<not> message_less y x) ts \<and>
    (\<forall>(msg, c)\<in>set ms. \<forall>t\<in>set ts. \<lparr>em_Message = msg, em_Count = c\<rparr> \<in> set ts \<or>
       message_less t \<lparr>em_Message = msg, em_Count = c\<rparr>)"
proof (intro conjI)
  have ts: "ts = take 3 (sort_slice message_less (message_stats ms))"
    unfolding ts_def topMessages_order [OF assms(1)] by (simp add: topMessages_eq)
  show "length ts = min 3 (length ms)" by (simp add: ts)
  show "set ts \<subseteq> set (message_stats ms)"
    unfolding ts using set_take_subset [of 3 "sort_slice message_less (message_stats ms)"] by simp
  show "sorted_wrt (\<lambda>x y. \<not> message_less y x) ts"
    unfolding ts by (intro sorted_wrt_take message_sort.ordered)
  show "\<forall>(msg, c)\<in>set ms. \<forall>t\<in>set ts. \<lparr>em_Message = msg, em_Count = c\<rparr> \<in> set ts \<or>
      message_less t \<lparr>em_Message = msg, em_Count = c\<rparr>"
    using topMessages_dominate [OF assms(1)] unfolding ts_def by blast
qed

theorem top_messages_correct_witness:
  "length (topMessages rev [(''a'', 1), (''b'', 4), (''c'', 2), (''d'', 2)]) = 3"
  using top_messages_correct [OF fair_rev, of "[(''a'', 1), (''b'', 4), (''c'', 2), (''d'', 2)]"] by simp

text \<open>
  C25: The error breakdown has one row per status code that occurs among the errors, in falling order of
  count, whatever order Go visits its maps in. Each row counts the errors with its code, every message
  it shows is the truncated message of that many of them, and the rows together count every failed
  result exactly once.
\<close>

theorem status_codes_correct:
  fixes st :: "'e grpc_status" and results :: "'e Result list"
  assumes "fair ord" "fair ordm"
  defines "rows \<equiv> computeStatusCodes st ord ordm results"
  shows "sc_Code ` set rows = status_Code st ` set (errors_of results) \<and>
    sorted_wrt (\<lambda>x y. \<not> code_less y x) rows \<and>
    sum_list (map sc_Count rows) = int (length (filter failed results)) \<and>
    (\<forall>row\<in>set rows.
       sc_Count row = int (length (errors_with st (sc_Code row) results)) \<and>
       sc_CodeName row = code_String st (sc_Code row) \<and>
       (\<forall>t\<in>set (sc_TopMessages row).
          em_Count t = int (count_list (messages_of st (errors_with st (sc_Code row) results)) (em_Message t))))"
proof (intro conjI ballI)
  have set: "set rows = code_row st results ` status_Code st ` set (errors_of results)"
    unfolding rows_def computeStatusCodes_eq [OF assms(1,2)] by simp
  show "sc_Code ` set rows = status_Code st ` set (errors_of results)"
    unfolding set by (simp add: image_image)
  show "sorted_wrt (\<lambda>x y. \<not> code_less y x) rows"
    unfolding rows_def computeStatusCodes_eq [OF assms(1,2)] by (rule code_sort.ordered)
  show "sum_list (map sc_Count rows) = int (length (filter failed results))"
    unfolding rows_def by (rule sum_status_codes [OF assms(1,2)])
  fix row assume "row \<in> set rows"
  then obtain c where row: "row = code_row st results c" unfolding set by blast
  show "sc_Count row = int (length (errors_with st (sc_Code row) results))"
    "sc_CodeName row = code_String st (sc_Code row)"
    unfolding row by simp_all
  fix t assume "t \<in> set (sc_TopMessages row)"
  then have "t \<in> set (message_stats (histogram (messages_of st (errors_with st c results))))"
    unfolding row by (auto simp: code_row_def Let_def topMessages_eq dest: in_set_takeD split: if_splits)
  then show "em_Count t = int (count_list (messages_of st (errors_with st (sc_Code row) results)) (em_Message t))"
    unfolding row by (auto simp: mem_histogram)
qed

theorem status_codes_correct_witness:
  "sum_list (map sc_Count (computeStatusCodes
     \<lparr>status_Code = id, status_FromError = (\<lambda>_. None), error_Error = (\<lambda>_. ''down''), code_String = (\<lambda>_. ''x'')\<rparr>
     rev (\<lambda>xs. xs) [plain_result ''a'' 5 (Some 14), plain_result ''b'' 7 None, plain_result ''a'' 9 (Some 4)])) = 2"
  using status_codes_correct [OF fair_rev fair_id, of
      "\<lparr>status_Code = id, status_FromError = (\<lambda>_. None), error_Error = (\<lambda>_. ''down''), code_String = (\<lambda>_. ''x'')\<rparr>"
      "[plain_result ''a'' 5 (Some 14), plain_result ''b'' 7 None, plain_result ''a'' 9 (Some 4)]"]
  by (simp add: failed_def)

end
