(* ===== verification/Aggregator.thy ===== *)
theory Aggregator
  imports Errors
begin

text \<open>
  \<open>aggregate\<close> of \<open>pkg/bench/aggregator.go\<close>: from the results of a run to its \<open>Summary\<close>.
\<close>

section \<open>The code\<close>

record samples =
  sa_total :: "duration list"
  sa_server :: "duration list"
  sa_network :: "duration list"
  sa_upstream :: "duration list"

definition sample_step :: "samples \<Rightarrow> 'e Result \<Rightarrow> samples" where
  "sample_step a r =
     (if r_Err r \<noteq> None then a else
      let srv = r_ServerDurationNs r;
          net = wrap64 (r_TotalDuration r - srv);
          net = (if net < 0 then 0 else net)
      in \<lparr>sa_total = sa_total a @ [r_TotalDuration r], sa_server = sa_server a @ [srv],
          sa_network = sa_network a @ [net],
          sa_upstream = (if r_HasUpstreamTime r then sa_upstream a @ [r_UpstreamDurationNs r]
                         else sa_upstream a)\<rparr>)"

definition collect_samples :: "'e Result list \<Rightarrow> samples" where
  "collect_samples results =
     foldl sample_step \<lparr>sa_total = [], sa_server = [], sa_network = [], sa_upstream = []\<rparr> results"

definition outcome_step :: "int \<times> int \<Rightarrow> 'e Result \<Rightarrow> int \<times> int" where
  "outcome_step c r =
     (let (errorCount, successes) = c in
      if r_Err r \<noteq> None then (errorCount + 1, successes) else (errorCount, successes + 1))"

record map_orders =
  ord_backends :: "(string \<times> backend_bucket) order"
  ord_codes :: "(code \<times> code_bucket) order"
  ord_messages :: "(string \<times> int) order"

definition aggregate ::
  "'e grpc_status \<Rightarrow> map_orders \<Rightarrow> 'e Result list \<Rightarrow> duration \<Rightarrow> string \<Rightarrow> Summary" where
  "aggregate st ords results elapsed connModel =
     (let count = int (length results);
          (errorCount, successes) = foldl outcome_step (0, 0) results;
          throughput = (if elapsed > 0 then f64 (f64 (of_int count) / duration_Seconds elapsed) else 0);
          a = collect_samples results;
          stats = (\<lambda>xs. if successes > 0 then computeLatencyStats (sort_slice (<) xs)
                        else zero_LatencyStats);
          backends = computeBackends (ord_backends ords) results count
      in \<lparr>s_Count = count, s_ErrorCount = errorCount, s_Elapsed = elapsed,
          s_Throughput = throughput, s_ConnModel = connModel,
          s_Total = stats (sa_total a), s_Server = stats (sa_server a),
          s_Network = stats (sa_network a), s_Upstream = stats (sa_upstream a),
          s_Backends = backends, s_BackendSkew = computeBackendSkew backends,
          s_Errors = computeStatusCodes st (ord_codes ords) (ord_messages ords) results\<rparr>)"

section \<open>The loops as maps over the successful results\<close>

abbreviation oks :: "'e Result list \<Rightarrow> 'e Result list" where
  "oks results \<equiv> filter (Not \<circ> failed) results"

definition network_of :: "'e Result \<Rightarrow> duration" where
  "network_of r = max 0 (wrap64 (r_TotalDuration r - r_ServerDurationNs r))"

lemma collect_samples_eq:
  "collect_samples results =
     \<lparr>sa_total = map r_TotalDuration (oks results), sa_server = map r_ServerDurationNs (oks results),
      sa_network = map network_of (oks results),
      sa_upstream = map r_UpstreamDurationNs (filter r_HasUpstreamTime (oks results))\<rparr>"
proof -
  have "foldl sample_step a results =
     \<lparr>sa_total = sa_total a @ map r_TotalDuration (oks results),
      sa_server = sa_server a @ map r_ServerDurationNs (oks results),
      sa_network = sa_network a @ map network_of (oks results),
      sa_upstream = sa_upstream a @ map r_UpstreamDurationNs (filter r_HasUpstreamTime (oks results))\<rparr>" for a
    by (induction results arbitrary: a) (auto simp: sample_step_def failed_def network_of_def Let_def)
  then show ?thesis by (simp add: collect_samples_def)
qed

lemma outcome_loop:
  "foldl outcome_step c results =
     (fst c + int (length (filter failed results)), snd c + int (length (oks results)))"
  by (induction results arbitrary: c) (auto simp: outcome_step_def failed_def)

lemma sort_slice_duration: "sort_slice (<) (xs :: duration list) = sort xs"
  by (rule sort_slice_int)

lemma latency_block:
  assumes "oks results = [] \<Longrightarrow> xs = []"
  shows "(if 0 < int (length (oks results)) then computeLatencyStats (sort_slice (<) xs)
      else zero_LatencyStats) = computeLatencyStats (sort xs)"
  using assms by (cases "oks results = []") (simp_all add: sort_slice_int computeLatencyStats_def del: filter_False)

lemma aggregate_eq:
  "aggregate st ords results elapsed connModel =
     (let bs = computeBackends (ord_backends ords) results (int (length results)) in
      \<lparr>s_Count = int (length results), s_ErrorCount = int (length (filter failed results)),
       s_Elapsed = elapsed,
       s_Throughput = (if elapsed > 0 then f64 (f64 (of_int (int (length results))) / duration_Seconds elapsed) else 0),
       s_ConnModel = connModel,
       s_Total = computeLatencyStats (sort (map r_TotalDuration (oks results))),
       s_Server = computeLatencyStats (sort (map r_ServerDurationNs (oks results))),
       s_Network = computeLatencyStats (sort (map network_of (oks results))),
       s_Upstream = computeLatencyStats (sort (map r_UpstreamDurationNs (filter r_HasUpstreamTime (oks results)))),
       s_Backends = bs, s_BackendSkew = computeBackendSkew bs,
       s_Errors = computeStatusCodes st (ord_codes ords) (ord_messages ords) results\<rparr>)"
  unfolding aggregate_def Let_def collect_samples_eq outcome_loop prod.case fst_conv snd_conv add_0_left
    samples.simps
  by (simp only: latency_block list.map filter.simps)

lemma computeLatencyStats_count: "ls_Count (computeLatencyStats xs) = int (length xs)"
  by (simp add: computeLatencyStats_def zero_LatencyStats_def Let_def)

section \<open>The order of the results\<close>

definition fair_orders :: "map_orders \<Rightarrow> bool" where
  "fair_orders ords \<longleftrightarrow> fair (ord_backends ords) \<and> fair (ord_codes ords) \<and> fair (ord_messages ords)"

text \<open>Two results with one key name it by the same field.\<close>

definition sources_agree :: "'e Result list \<Rightarrow> bool" where
  "sources_agree results \<longleftrightarrow>
     (\<forall>x\<in>set results. \<forall>y\<in>set results. key_of x = key_of y \<longrightarrow> snd (backendKey x) = snd (backendKey y))"

lemma mset_filter_eq: "mset xs = mset ys \<Longrightarrow> mset (filter P xs) = mset (filter P ys)"
  by simp

lemma mset_map_eq: "mset xs = mset ys \<Longrightarrow> mset (map f xs) = mset (map f ys)"
  by simp

lemma sort_map_eq: "mset xs = mset ys \<Longrightarrow> sort (map f xs) = sort (map f ys :: 'a :: linorder list)"
  by (metis mset_map sorted_list_of_multiset_mset)

lemma backend_row_mset:
  assumes "mset xs = mset ys" "sources_agree xs" "k \<in> key_of ` set xs"
  shows "backend_row xs t k = backend_row ys t k"
proof -
  have m: "mset (results_of k xs) = mset (results_of k ys)"
    unfolding results_of_def by (rule mset_filter_eq [OF assms(1)])
  then have len: "length (results_of k xs) = length (results_of k ys)"
    by (rule mset_eq_length)
  have err: "length (filter failed (results_of k xs)) = length (filter failed (results_of k ys))"
    by (rule mset_eq_length [OF mset_filter_eq [OF m]])
  have ds: "sort (map r_TotalDuration (oks (results_of k xs))) = sort (map r_TotalDuration (oks (results_of k ys)))"
    by (rule sort_map_eq [OF mset_filter_eq [OF m]])
  have ne: "results_of k xs \<noteq> []" using assms(3) by (auto simp: results_of_def filter_empty_conv)
  have ney: "results_of k ys \<noteq> []" using ne len by auto
  have "hd (results_of k ys) \<in> set (results_of k xs)"
    using hd_in_set [OF ney] mset_eq_setD [OF m] by simp
  then have "snd (backendKey (hd (results_of k xs))) = snd (backendKey (hd (results_of k ys)))"
    using assms(2) hd_in_set [OF ne] unfolding sources_agree_def results_of_def by simp
  then show ?thesis by (simp only: backend_row_def Let_def len err ds)
qed

lemma computeBackends_mset:
  assumes "mset xs = mset ys" "sources_agree xs" "fair o1" "fair o2"
  shows "computeBackends o1 xs t = computeBackends o2 ys t"
proof -
  have "set ys = set xs" by (rule mset_eq_setD [OF assms(1) [symmetric]])
  moreover have "map (backend_row ys t) (sorted_list_of_set (key_of ` set xs)) =
      map (backend_row xs t) (sorted_list_of_set (key_of ` set xs))"
    using backend_row_mset [OF assms(1,2)] by (intro map_cong) auto
  ultimately show ?thesis
    unfolding computeBackends_eq [OF assms(3)] computeBackends_eq [OF assms(4)] by (simp only: )
qed

lemma histogram_mset:
  assumes "mset ms = mset ns"
  shows "mset (histogram ms) = mset (histogram ns)"
proof -
  have "set ms = set ns" "count_list ms = count_list ns"
    using assms by (auto simp: fun_eq_iff count_mset [symmetric] dest: mset_eq_setD)
  then have "set (histogram ms) = set (histogram ns)" by (auto simp: mem_histogram)
  moreover have "distinct (histogram ms)" "distinct (histogram ns)"
    unfolding histogram_def by (metis distinct_map distinct_fill_buckets)+
  ultimately show ?thesis by (simp add: set_eq_iff_mset_eq_distinct)
qed

lemma code_row_mset:
  assumes "mset (errors_of xs) = mset (errors_of ys)"
  shows "code_row st xs c = code_row st ys c"
proof -
  have e: "mset (errors_with st c xs) = mset (errors_with st c ys)"
    unfolding errors_with_def by (rule mset_filter_eq [OF assms])
  let ?h = "histogram (messages_of st (errors_with st c xs))"
    and ?h' = "histogram (messages_of st (errors_with st c ys))"
  have h: "mset ?h = mset ?h'" by (intro histogram_mset mset_map_eq e)
  then have "sort_slice message_less (message_stats ?h) = sort_slice message_less (message_stats ?h')"
    by (intro message_sort.perm_invariant mset_map_eq) (auto dest: message_less_total)
  moreover have "?h = [] \<longleftrightarrow> ?h' = []" using h by (metis mset_zero_iff)
  ultimately show ?thesis
    using mset_eq_length [OF e] by (simp add: code_row_def topMessages_eq Let_def)
qed

lemma computeStatusCodes_mset:
  assumes "mset xs = mset ys" "fair o1" "fair o2" "fair p1" "fair p2"
  shows "computeStatusCodes st o1 p1 xs = computeStatusCodes st o2 p2 ys"
proof -
  have e: "mset (errors_of xs) = mset (errors_of ys)"
    using assms(1) by (simp add: errors_of_def List.map_filter_def)
  then have "code_row st xs = code_row st ys" by (intro ext code_row_mset)
  then show ?thesis
    unfolding computeStatusCodes_eq [OF assms(2,4)] computeStatusCodes_eq [OF assms(3,5)]
    by (simp only: mset_eq_setD [OF e])
qed

section \<open>Properties\<close>

text \<open>
  C8: The report does not depend on how the workers interleave or on how Go orders its maps: two runs
  with the same results in another order give the same summary, provided every backend key is named by
  one source.
\<close>

theorem summary_order_independent:
  assumes "mset xs = mset ys" "sources_agree xs" "fair_orders o1" "fair_orders o2"
  shows "aggregate st o1 xs elapsed connModel = aggregate st o2 ys elapsed connModel"
proof -
  have f: "fair (ord_backends o1)" "fair (ord_codes o1)" "fair (ord_messages o1)"
    "fair (ord_backends o2)" "fair (ord_codes o2)" "fair (ord_messages o2)"
    using assms(3,4) by (simp_all add: fair_orders_def)
  have m: "mset (filter P xs) = mset (filter P ys)" "mset (filter Q (filter P xs)) = mset (filter Q (filter P ys))"
    for P Q using assms(1) by simp_all
  show ?thesis
    unfolding aggregate_eq Let_def mset_eq_length [OF assms(1)]
    by (simp only: mset_eq_length [OF m(1), of failed] sort_map_eq [OF m(1), of _ "Not \<circ> failed"]
        sort_map_eq [OF m(2), of _ r_HasUpstreamTime "Not \<circ> failed"]
        computeBackends_mset [OF assms(1,2) f(1,4)] computeStatusCodes_mset [OF assms(1) f(2,5,3,6)])
qed

text \<open>A status interface and map orders for concrete inputs.\<close>

definition example_status :: "nat grpc_status" where
  "example_status =
     \<lparr>status_Code = (\<lambda>e. e), status_FromError = (\<lambda>e. Some ''down''), error_Error = (\<lambda>_. ''err''),
      code_String = show_nat\<rparr>"

definition example_orders :: map_orders where
  "example_orders = \<lparr>ord_backends = rev, ord_codes = rev, ord_messages = (\<lambda>xs. xs)\<rparr>"

lemma fair_example_orders: "fair_orders example_orders"
  by (simp add: fair_orders_def example_orders_def)

theorem summary_order_independent_witness:
  "aggregate example_status example_orders
     [plain_result ''a'' 5 None, plain_result ''b'' 7 (Some 14)] 1000 ''shared'' =
   aggregate example_status example_orders
     [plain_result ''b'' 7 (Some 14), plain_result ''a'' 5 None] 1000 ''shared''"
proof (rule summary_order_independent [OF _ _ fair_example_orders fair_example_orders])
  show "mset [plain_result ''a'' 5 None, plain_result ''b'' 7 (Some 14)] =
      mset [plain_result ''b'' 7 (Some 14), plain_result ''a'' 5 None :: nat Result]" by simp
  show "sources_agree [plain_result ''a'' 5 None, plain_result ''b'' 7 (Some 14 :: nat option)]"
    by (simp add: sources_agree_def backendKey_def)
qed

text \<open>
  C14: A summary accounts for every result exactly once: the request count, the sum over the backends
  and the latency samples plus the errors all agree, the error count is the sum over the backends and
  the sum over the status codes, and the three latency blocks that every success contributes to have
  one sample per success.
\<close>

theorem summary_conserves:
  fixes st :: "'e grpc_status" and results :: "'e Result list" and ords elapsed connModel
  assumes "fair_orders ords"
  defines "s \<equiv> aggregate st ords results elapsed connModel"
  shows "s_Count s = int (length results) \<and>
    sum_list (map be_Count (s_Backends s)) = s_Count s \<and>
    sum_list (map be_ErrorCount (s_Backends s)) = s_ErrorCount s \<and>
    sum_list (map sc_Count (s_Errors s)) = s_ErrorCount s \<and>
    ls_Count (s_Total s) + s_ErrorCount s = s_Count s \<and>
    ls_Count (s_Server s) = ls_Count (s_Total s) \<and> ls_Count (s_Network s) = ls_Count (s_Total s) \<and>
    ls_Count (s_Upstream s) \<le> ls_Count (s_Total s)"
proof -
  have f: "fair (ord_backends ords)" "fair (ord_codes ords)" "fair (ord_messages ords)"
    using assms(1) by (simp_all add: fair_orders_def)
  have "length (oks results) + length (filter failed results) = length results"
    using sum_length_filter_compl [of failed results] by (simp add: comp_def)
  moreover have "length (filter r_HasUpstreamTime (oks results)) \<le> length (oks results)"
    by (rule length_filter_le)
  ultimately show ?thesis
    unfolding s_def aggregate_eq Let_def
    by (simp add: backends_conserve [OF f(1)] sum_status_codes [OF f(2,3)] computeLatencyStats_count
        del: filter_filter)
qed

theorem summary_conserves_witness:
  "s_ErrorCount (aggregate example_status example_orders
     [plain_result ''a'' 5 None, plain_result ''b'' 7 (Some 14)] 1000 ''shared'') =
   sum_list (map be_ErrorCount (s_Backends (aggregate example_status example_orders
     [plain_result ''a'' 5 None, plain_result ''b'' 7 (Some 14)] 1000 ''shared'')))"
  by (rule summary_conserves [OF fair_example_orders, THEN conjunct2, THEN conjunct2, THEN conjunct1, symmetric])

text \<open>
  C29: The network time of a call is its total time less the server's own time, and never negative;
  the total, server and network blocks are the statistics of exactly the successful calls, the upstream
  block those of the successful calls whose reply carried an upstream time, and a run with no success
  reports zeros. The throughput is positive exactly when something was measured.
\<close>

theorem summary_blocks:
  fixes st :: "'e grpc_status" and results :: "'e Result list" and ords elapsed connModel
  assumes "\<forall>r\<in>set results. 0 \<le> r_TotalDuration r \<and> in_int64 (r_TotalDuration r) \<and>
    0 \<le> r_ServerDurationNs r \<and> in_int64 (r_ServerDurationNs r)"
  defines "s \<equiv> aggregate st ords results elapsed connModel"
    and "good \<equiv> filter (\<lambda>r. r_Err r = None) results"
  shows "s_Total s = computeLatencyStats (sort (map r_TotalDuration good)) \<and>
    s_Server s = computeLatencyStats (sort (map r_ServerDurationNs good)) \<and>
    s_Upstream s = computeLatencyStats (sort (map r_UpstreamDurationNs (filter r_HasUpstreamTime good))) \<and>
    s_Network s = computeLatencyStats
      (sort (map (\<lambda>r. max 0 (r_TotalDuration r - r_ServerDurationNs r)) good)) \<and>
    (good = [] \<longrightarrow> s_Total s = zero_LatencyStats \<and> s_Server s = zero_LatencyStats \<and>
       s_Network s = zero_LatencyStats \<and> s_Upstream s = zero_LatencyStats) \<and>
    (0 < elapsed \<and> results \<noteq> [] \<longleftrightarrow> 0 < s_Throughput s)"
proof -
  have good: "oks results = good" by (simp add: good_def failed_def comp_def)
  have net: "map network_of good = map (\<lambda>r. max 0 (r_TotalDuration r - r_ServerDurationNs r)) good"
  proof (rule map_cong [OF refl])
    fix r assume "r \<in> set good"
    then have "in_int64 (r_TotalDuration r - r_ServerDurationNs r)"
      using assms(1) by (auto simp: good_def in_int64_def)
    then show "network_of r = max 0 (r_TotalDuration r - r_ServerDurationNs r)"
      by (simp add: network_of_def wrap64_id)
  qed
  have thr: "0 < s_Throughput s \<longleftrightarrow> 0 < elapsed \<and> results \<noteq> []"
  proof -
    have "0 < f64 (of_int (int (length results)) / duration_Seconds elapsed)" if "0 < elapsed" "results \<noteq> []"
      using that by (intro f64_pos divide_pos_pos duration_Seconds_pos) simp_all
    moreover have "0 < f64 (f64 (of_int (int (length results))) / duration_Seconds elapsed)"
      if "0 < elapsed" "results \<noteq> []"
      using that by (intro f64_pos divide_pos_pos duration_Seconds_pos f64_pos) simp_all
    ultimately show ?thesis by (cases "results = []") (auto simp: s_def aggregate_eq Let_def)
  qed
  have blocks: "s_Total s = computeLatencyStats (sort (map r_TotalDuration good))"
    "s_Server s = computeLatencyStats (sort (map r_ServerDurationNs good))"
    "s_Network s = computeLatencyStats (sort (map network_of good))"
    "s_Upstream s = computeLatencyStats (sort (map r_UpstreamDurationNs (filter r_HasUpstreamTime good)))"
    by (simp_all add: s_def aggregate_eq Let_def good del: filter_filter)
  have zero: "computeLatencyStats [] = zero_LatencyStats" by (simp add: computeLatencyStats_def)
  show ?thesis unfolding blocks thr net using zero by auto
qed

theorem summary_blocks_witness:
  "\<exists>s. s = aggregate example_status example_orders
     [(plain_result ''a'' 5 None)\<lparr>r_HasUpstreamTime := True, r_UpstreamDurationNs := 3\<rparr>, plain_result ''b'' 7 None,
      plain_result ''b'' 9 (Some 14)] 1000 ''shared'' \<and>
     ls_Count (s_Server s) = 2 \<and> s_Upstream s = computeLatencyStats [3] \<and> 0 < s_Throughput s"
proof -
  let ?rs = "[(plain_result ''a'' 5 None)\<lparr>r_HasUpstreamTime := True, r_UpstreamDurationNs := 3\<rparr>,
    plain_result ''b'' 7 None, plain_result ''b'' 9 (Some 14 :: nat option)]"
  have "\<forall>r\<in>set ?rs. 0 \<le> r_TotalDuration r \<and> in_int64 (r_TotalDuration r) \<and>
    0 \<le> r_ServerDurationNs r \<and> in_int64 (r_ServerDurationNs r)"
    by (simp add: in_int64_def)
  note b = summary_blocks [OF this, of example_status example_orders 1000 "''shared''"]
  have u: "map r_UpstreamDurationNs (filter r_HasUpstreamTime (filter (\<lambda>r. r_Err r = None) ?rs)) = [3]"
    "length (filter (\<lambda>r. r_Err r = None) ?rs) = 2"
    by (simp_all add: plain_result_def)
  from b u show ?thesis
    by (simp add: computeLatencyStats_count)
qed

end
