(* ===== verification/Config.thy ===== *)
theory Config
  imports Worker Aggregator
begin

text \<open>
  \<open>pkg/bench/config.go\<close> without the run itself (that is theory \<open>Run\<close>): the configuration record, its
  defaults, \<open>Validate\<close>, the flattening of the headers and the elapsed time of a set of results.
  The maps \<open>Headers\<close> and \<open>Labels\<close> are association lists with distinct keys; the error values of
  \<open>Validate\<close> name the message the code prints.
\<close>

section \<open>The code\<close>

definition OutputFormatHuman :: string where "OutputFormatHuman = ''human''"
definition OutputFormatJSON :: string where "OutputFormatJSON = ''json''"

record 'o Config =
  cf_Target :: string
  cf_Plaintext :: bool
  cf_TLSInsecureSkipVerify :: bool
  cf_Concurrency :: int64
  cf_Duration :: duration
  cf_Payload :: PayloadMix
  cf_EmbeddingDim :: int64
  cf_BytesSize :: int64
  cf_StringLen :: int64
  cf_Compression :: string
  cf_ConnModel :: string
  cf_OutputFormat :: string
  cf_Headers :: "(string \<times> string) list"
  cf_Labels :: "(string \<times> string) list"
  cf_Output :: "writer option"
  cf_dialOpts :: "'o list"

definition New :: "'o Config" where
  "New =
     \<lparr>cf_Target = ''127.0.0.1:8080'', cf_Plaintext = True, cf_TLSInsecureSkipVerify = False,
      cf_Concurrency = 1, cf_Duration = 10 * 1000000000,
      cf_Payload = [\<lparr>Shape = PAYLOAD_SHAPE_EMBEDDING_FLOAT, Weight = 1\<rparr>],
      cf_EmbeddingDim = 1024, cf_BytesSize = 1024, cf_StringLen = 1024,
      cf_Compression = CompressionIdentity, cf_ConnModel = ConnModelPerWorker,
      cf_OutputFormat = OutputFormatHuman, cf_Headers = [], cf_Labels = [], cf_Output = Some Stdout,
      cf_dialOpts = []\<rparr>"

definition isValidOutputFormat :: "string \<Rightarrow> bool" where
  "isValidOutputFormat s \<longleftrightarrow> s = OutputFormatHuman \<or> s = OutputFormatJSON"

datatype config_error =
    TargetEmpty | ConcurrencyTooSmall | DurationNotPositive | PayloadMixEmpty | PayloadMixNoWeight
  | EmbeddingDimNegative | BytesSizeNegative | StringLenNegative | CompressionUnknown string
  | ConnModelUnknown string | OutputUnknown string | HeaderKeyEmpty | LabelKeyEmpty

fun has_positive :: "PayloadMix \<Rightarrow> bool" where
  "has_positive [] = False"
| "has_positive (e # es) = (if Weight e > 0 then True else has_positive es)"

fun has_empty_key :: "(string \<times> string) list \<Rightarrow> bool" where
  "has_empty_key [] = False"
| "has_empty_key ((k, v) # m) = (if k = [] then True else has_empty_key m)"

definition Validate :: "'o Config \<Rightarrow> config_error option" where
  "Validate c =
     (if cf_Target c = [] then Some TargetEmpty
      else if cf_Concurrency c < 1 then Some ConcurrencyTooSmall
      else if cf_Duration c \<le> 0 then Some DurationNotPositive
      else if length (cf_Payload c) = 0 then Some PayloadMixEmpty
      else if \<not> has_positive (cf_Payload c) then Some PayloadMixNoWeight
      else if cf_EmbeddingDim c < 0 then Some EmbeddingDimNegative
      else if cf_BytesSize c < 0 then Some BytesSizeNegative
      else if cf_StringLen c < 0 then Some StringLenNegative
      else if \<not> isValidCompression (cf_Compression c) then Some (CompressionUnknown (cf_Compression c))
      else if \<not> isValidConnModel (cf_ConnModel c) then Some (ConnModelUnknown (cf_ConnModel c))
      else if \<not> isValidOutputFormat (cf_OutputFormat c) then Some (OutputUnknown (cf_OutputFormat c))
      else if has_empty_key (cf_Headers c) then Some HeaderKeyEmpty
      else if has_empty_key (cf_Labels c) then Some LabelKeyEmpty
      else None)"

definition config_output :: "'o Config \<Rightarrow> writer" where
  "config_output c = (case cf_Output c of None \<Rightarrow> Stdout | Some w \<Rightarrow> w)"

text \<open>\<open>ord\<close> is the order in which \<open>range\<close> visits the map.\<close>

definition headerMetadataKV :: "(string \<times> string) order \<Rightarrow> (string \<times> string) list \<Rightarrow> string list" where
  "headerMetadataKV ord headers =
     (if length headers = 0 then [] else
      let keys = sort_slice (<) (map fst (ord headers))
      in concat (map (\<lambda>k. [k, case map_of headers k of Some v \<Rightarrow> v | None \<Rightarrow> []]) keys))"

definition elapsed_step :: "int \<times> int \<Rightarrow> 'e Result \<Rightarrow> int \<times> int" where
  "elapsed_step el r =
     (let (earliest, latest) = el in
      (if r_Start r < earliest then r_Start r else earliest, if r_End r > latest then r_End r else latest))"

definition elapsed :: "'e Result list \<Rightarrow> duration" where
  "elapsed results =
     (if length results = 0 then 0
      else let (earliest, latest) = foldl elapsed_step (r_Start (results ! 0), r_End (results ! 0)) (tl results)
           in time_Sub latest earliest)"

section \<open>The loops\<close>

lemma has_positive_iff: "has_positive mix \<longleftrightarrow> (\<exists>e\<in>set mix. 0 < Weight e)"
  by (induction mix) auto

lemma has_empty_key_iff: "has_empty_key m \<longleftrightarrow> [] \<in> fst ` set m"
  by (induction m rule: has_empty_key.induct) auto

lemma elapsed_loop:
  "foldl elapsed_step (e, l) rs = (Min (insert e (r_Start ` set rs)), Max (insert l (r_End ` set rs)))"
proof (induction rs arbitrary: e l)
  case (Cons r rs)
  have "elapsed_step (e, l) r = (min e (r_Start r), max l (r_End r))"
    by (simp add: elapsed_step_def min_def max_def)
  then show ?case
    by (simp add: Cons.IH Min_Max_insert2 del: Min_insert Max_insert)
qed simp

lemma elapsed_eq:
  "results \<noteq> [] \<Longrightarrow> elapsed results = time_Sub (Max (r_End ` set results)) (Min (r_Start ` set results))"
  by (cases results) (simp_all add: elapsed_def elapsed_loop)

lemma headerMetadataKV_eq:
  assumes "fair ord"
  shows "headerMetadataKV ord headers =
    concat (map (\<lambda>k. [k, case map_of headers k of Some v \<Rightarrow> v | None \<Rightarrow> []]) (sort (map fst headers)))"
proof -
  have "mset (map fst (ord headers)) = mset (map fst headers)" using assms by (simp add: fair_def)
  then have "sort (map fst (ord headers)) = sort (map fst headers)"
    by (metis sorted_list_of_multiset_mset)
  then show ?thesis by (simp add: headerMetadataKV_def sort_slice_string Let_def)
qed

lemmas config_names = CompressionIdentity_def CompressionGzip_def CompressionSnappy_def
  CompressionZstd_def ConnModelPerWorker_def ConnModelShared_def ConnModelPerRequest_def
  OutputFormatHuman_def OutputFormatJSON_def

lemmas validate_simps = Validate_def has_positive_iff has_empty_key_iff isValidCompression_def
  isValidConnModel_def isValidOutputFormat_def validCompressions_def validConnModels_def config_names

lemma Validate_New: "Validate New = None"
  by (simp add: validate_simps New_def)

section \<open>Properties\<close>

text \<open>
  The outgoing metadata is the headers sorted by key, each key followed by its value, whatever
  order Go visits the map in.
\<close>

theorem header_metadata_sorted:
  assumes "fair ord" "distinct (map fst headers)"
  shows "\<exists>kvs. headerMetadataKV ord headers = concat (map (\<lambda>(k, v). [k, v]) kvs) \<and>
    mset kvs = mset headers \<and> sorted_wrt (<) (map fst kvs)"
proof (intro exI conjI)
  let ?kvs = "map (\<lambda>k. (k, the (map_of headers k))) (sort (map fst headers))"
  have val: "\<exists>v. map_of headers k = Some v" if "k \<in> fst ` set headers" for k
    using that by (cases "map_of headers k") (auto simp: map_of_eq_None_iff)
  then show "headerMetadataKV ord headers = concat (map (\<lambda>(k, v). [k, v]) ?kvs)"
    unfolding headerMetadataKV_eq [OF assms(1)] map_map by (intro arg_cong [where f = concat] map_cong) fastforce+
  have "mset ?kvs = image_mset (\<lambda>k. (k, the (map_of headers k))) (image_mset fst (mset headers))" by simp
  also have "\<dots> = image_mset (\<lambda>x. x) (mset headers)"
    unfolding image_mset.compositionality using assms(2) by (intro image_mset_cong) (auto simp: comp_def)
  finally show "mset ?kvs = mset headers" by simp
  show "sorted_wrt (<) (map fst ?kvs)"
    using assms(2) by (simp add: comp_def strict_sorted_iff)
qed

theorem header_metadata_sorted_witness:
  "\<exists>kvs. headerMetadataKV rev [(''b'', ''1''), (''a'', ''2'')] = concat (map (\<lambda>(k, v). [k, v]) kvs) \<and>
    mset kvs = mset [(''b'', ''1''), (''a'', ''2'')] \<and> sorted_wrt (<) (map fst kvs)"
  by (rule header_metadata_sorted) simp_all

text \<open>
  The elapsed time of a run is the latest end less the earliest start, so it depends on the set of
  results only; when clock readings fit a \<open>Duration\<close> and every call ends no earlier than it starts, it is
  not negative and no call lasted longer.
\<close>

theorem elapsed_correct:
  assumes "results \<noteq> []"
    and "\<forall>r\<in>set results. 0 \<le> r_Start r \<and> r_Start r \<le> r_End r \<and> r_End r < 2 ^ 63"
  shows "elapsed results = Max (r_End ` set results) - Min (r_Start ` set results) \<and> 0 \<le> elapsed results \<and>
    (\<forall>r\<in>set results. r_End r - r_Start r \<le> elapsed results)"
proof -
  let ?M = "Max (r_End ` set results)" and ?m = "Min (r_Start ` set results)"
  have fin: "finite (r_End ` set results)" "r_End ` set results \<noteq> {}" "finite (r_Start ` set results)"
    "r_Start ` set results \<noteq> {}"
    using assms(1) by simp_all
  have mx: "?M < 2 ^ 63" using Max_in [OF fin(1,2)] assms(2) by auto
  have mn: "0 \<le> ?m" using Min_in [OF fin(3,4)] assms(2) by auto
  have each: "?m \<le> r_Start r" "r_End r \<le> ?M" if "r \<in> set results" for r
    using that fin by (simp_all add: Min_le Max_ge)
  obtain r where r: "r \<in> set results" using assms(1) by (cases results) auto
  have "r_Start r \<le> r_End r" using assms(2) r by blast
  with each [OF r] have "?m \<le> ?M" by linarith
  then have "elapsed results = ?M - ?m"
    unfolding elapsed_eq [OF assms(1)] using mx mn by (intro time_Sub_exact) (simp add: in_int64_def)
  moreover have "r_End r - r_Start r \<le> ?M - ?m" if "r \<in> set results" for r
    using each [OF that] by linarith
  ultimately show ?thesis using \<open>?m \<le> ?M\<close> by simp
qed

theorem elapsed_correct_witness:
  "elapsed [plain_result ''a'' 5 (None :: bool option), plain_result ''b'' 9 None] = 9"
  using elapsed_correct [of "[plain_result ''a'' 5 (None :: bool option), plain_result ''b'' 9 None]"]
  by (simp add: plain_result_def)

end
