(* ===== verification/Run.thy ===== *)
theory Run
  imports Config
begin

text \<open>
  The run of \<open>pkg/bench/config.go\<close>: \<open>Config.run\<close> starts its workers on goroutines that share the pool,
  waits for all of them, closes the pool and aggregates their results. The scheduler is a list of
  worker numbers: the next worker named in it takes one step. The properties hold for every such list,
  so for every interleaving.
\<close>

section \<open>The code\<close>

type_synonym ('s, 'e) system = "('s, 'e) worker list \<times> world"

fun is_panicked :: "'s pc \<Rightarrow> bool" where
  "is_panicked (Panicked s r) = True"
| "is_panicked _ = False"

fun is_finished :: "'s pc \<Rightarrow> bool" where
  "is_finished Finished = True"
| "is_finished _ = False"

text \<open>A panic in one goroutine ends the process: no worker takes a step after it.\<close>

definition sys_step ::
  "('s, 'e) pool_iface \<Rightarrow> (ReleaseFunc \<Rightarrow> world \<Rightarrow> world) \<Rightarrow> 'e run_env \<Rightarrow> nat \<Rightarrow>
   ('s, 'e) system \<Rightarrow> ('s, 'e) system" where
  "sys_step P rel env i st =
     (case st of (ws, w) \<Rightarrow>
        if length ws \<le> i \<or> list_ex (\<lambda>wk. is_panicked (wk_pc wk)) ws then (ws, w)
        else (case worker_step P rel env (ws ! i) w of (wk, w) \<Rightarrow> (ws[i := wk], w)))"

definition exec ::
  "('s, 'e) pool_iface \<Rightarrow> (ReleaseFunc \<Rightarrow> world \<Rightarrow> world) \<Rightarrow> 'e run_env \<Rightarrow> nat list \<Rightarrow>
   ('s, 'e) system \<Rightarrow> ('s, 'e) system" where
  "exec P rel env sched st = foldl (\<lambda>st i. sys_step P rel env i st) st sched"

datatype 'e run_error = InvalidConfig config_error | CreatingConnPool "'e pool_error"

datatype 'e outcome = Returned "'e run_error + Summary" | Running | Crashed | Aborted

definition start_workers :: "'o Config \<Rightarrow> (string \<times> string) order \<Rightarrow> PayloadSelector \<Rightarrow> ('s, 'e) worker list" where
  "start_workers c ordh selector =
     (let sizes = \<lparr>EmbeddingDim = cf_EmbeddingDim c, BytesSize = cf_BytesSize c, StringLen = cf_StringLen c\<rparr>;
          headerKV = headerMetadataKV ordh (cf_Headers c)
      in replicate (nat (cf_Concurrency c))
           \<lparr>wk_compression = cf_Compression c, wk_selector = selector, wk_sizes = sizes,
            wk_headerKV = headerKV, wk_results = [], wk_pc = AtStart\<rparr>)"

definition collect_results :: "('s, 'e) worker list \<Rightarrow> 'e werr Result list" where
  "collect_results ws = concat (map wk_results ws)"

text \<open>
  \<open>Running\<close> is the outcome when the schedule stops before the workers do, \<open>Crashed\<close> the one after a
  panic of a worker's goroutine, which ends the process on the spot; a nil selector would panic in the
  first \<open>Pick\<close>. \<open>Aborted\<close> is the panic of \<open>make\<close> for the slice of workers, eight bytes each, on the
  calling goroutine: the deferred \<open>Close\<close> of the pool still runs. \<open>aggregate\<close> does not touch the world, so
  the deferred \<open>Close\<close> is written before it.
\<close>

definition config_run ::
  "('e, 'o) grpc_lib \<Rightarrow> 'e run_env \<Rightarrow> map_orders \<Rightarrow> (string \<times> string) order \<Rightarrow> nat list \<Rightarrow> 'o Config \<Rightarrow>
   world \<Rightarrow> 'e outcome \<times> world" where
  "config_run g env ords ordh sched c w =
     (case Validate c of
        Some e \<Rightarrow> (Returned (Inl (InvalidConfig e)), w)
      | None \<Rightarrow>
          (case newConnPool (cf_ConnModel c)
                  (dial g (cf_Target c) (cf_Plaintext c) (cf_TLSInsecureSkipVerify c) (cf_dialOpts c)) w of
             (Inl e, w) \<Rightarrow> (Returned (Inl (CreatingConnPool e)), w)
           | (Inr pool, w) \<Rightarrow>
               if \<not> alloc_ok 8 (cf_Concurrency c) then (Aborted, snd (if_PoolClose (iface g pool) w))
               else
               (case NewPayloadSelector (cf_Payload c) of
                  None \<Rightarrow> (Crashed, w)
                | Some selector \<Rightarrow>
                    (case exec (iface g pool) (call_release g) env sched (start_workers c ordh selector, w) of
                       (ws, w) \<Rightarrow>
                         if list_ex (\<lambda>wk. is_panicked (wk_pc wk)) ws then (Crashed, w)
                         else if \<not> list_all (\<lambda>wk. is_finished (wk_pc wk)) ws then (Running, w)
                         else
                           let w = snd (if_PoolClose (iface g pool) w);
                               results = collect_results ws
                           in (Returned (Inr (aggregate (env_status env) ords results (elapsed results)
                                (cf_ConnModel c))), w)))))"

section \<open>The interleaving as a step relation\<close>

inductive run_step ::
  "('s, 'e) pool_iface \<Rightarrow> (ReleaseFunc \<Rightarrow> world \<Rightarrow> world) \<Rightarrow> 'e run_env \<Rightarrow>
   ('s, 'e) system \<Rightarrow> ('s, 'e) system \<Rightarrow> bool" for P rel env where
  step: "worker_step P rel env wk w = (wk', w') \<Longrightarrow> \<not> is_finished (wk_pc wk) \<Longrightarrow> \<not> is_panicked (wk_pc wk) \<Longrightarrow>
    run_step P rel env (us @ wk # vs, w) (us @ wk' # vs, w')"

abbreviation reaches ::
  "('s, 'e) pool_iface \<Rightarrow> (ReleaseFunc \<Rightarrow> world \<Rightarrow> world) \<Rightarrow> 'e run_env \<Rightarrow>
   ('s, 'e) system \<Rightarrow> ('s, 'e) system \<Rightarrow> bool" where
  "reaches P rel env \<equiv> (run_step P rel env)\<^sup>*\<^sup>*"

inductive_cases run_stepE: "run_step P rel env st st'"

lemma finished_pc: "is_finished pc \<longleftrightarrow> pc = Finished"
  by (cases pc) simp_all

lemma sys_step_idle:
  assumes "length ws \<le> i \<or> list_ex (\<lambda>wk. is_panicked (wk_pc wk)) ws \<or> is_finished (wk_pc (ws ! i))"
  shows "sys_step P rel env i (ws, w) = (ws, w)"
  using assms by (auto simp: sys_step_def worker_step_def finished_pc)

lemma sys_step_active:
  assumes "i < length ws" "\<not> list_ex (\<lambda>wk. is_panicked (wk_pc wk)) ws" "\<not> is_finished (wk_pc (ws ! i))"
  shows "run_step P rel env (ws, w) (sys_step P rel env i (ws, w))"
proof -
  obtain wk' w' where s: "worker_step P rel env (ws ! i) w = (wk', w')" by (cases "worker_step P rel env (ws ! i) w")
  have np: "\<not> is_panicked (wk_pc (ws ! i))" using assms(1,2) by (auto simp: list_ex_iff)
  from step [OF s assms(3) np, of "take i ws" "drop (Suc i) ws"] show ?thesis
    using assms s by (simp add: sys_step_def id_take_nth_drop [symmetric] upd_conv_take_nth_drop)
qed

lemma sys_step_cases:
  "sys_step P rel env i st = st \<or> run_step P rel env st (sys_step P rel env i st)"
  by (metis linorder_not_le prod.collapse sys_step_active sys_step_idle)

lemma length_sys_step [simp]: "length (fst (sys_step P rel env i st)) = length (fst st)"
  by (auto simp: sys_step_def split: prod.splits)

lemma sys_step_other: "j \<noteq> i \<Longrightarrow> fst (sys_step P rel env i st) ! j = fst st ! j"
  by (auto simp: sys_step_def split: prod.splits)

lemma exec_snoc: "exec P rel env (sched @ [i]) st = sys_step P rel env i (exec P rel env sched st)"
  by (simp add: exec_def)

lemma exec_Nil: "exec P rel env [] st = st"
  by (simp add: exec_def)

lemma exec_reaches: "reaches P rel env st (exec P rel env sched st)"
proof (induction sched rule: rev_induct)
  case Nil
  show ?case by (simp add: exec_Nil)
next
  case (snoc i sched)
  with sys_step_cases [of P rel env i "exec P rel env sched st"] show ?case
    by (metis exec_snoc rtranclp.rtrancl_into_rtrancl)
qed

section \<open>Who holds which connection\<close>

definition holdings :: "('s \<Rightarrow> conn list) \<Rightarrow> ('s, 'e) worker list \<Rightarrow> conn list" where
  "holdings own ws = concat (map (\<lambda>wk. held own (wk_pc wk)) ws)"

text \<open>
  The open connections are those of the pool and those the workers hold, and each is held once.
\<close>

definition sys_inv ::
  "conn list \<Rightarrow> ('s \<Rightarrow> conn list) \<Rightarrow> ('s \<Rightarrow> bool) \<Rightarrow> ('s, 'e) system \<Rightarrow> bool" where
  "sys_inv base own ok st \<longleftrightarrow>
     good_world (snd st) \<and> (\<forall>wk\<in>set (fst st). pc_ok base own ok (wk_pc wk)) \<and>
     distinct (base @ holdings own (fst st)) \<and> set (base @ holdings own (fst st)) = opened (snd st)"

lemma exchange_lists:
  assumes "distinct (as @ hs @ bs)" "set (as @ hs @ bs) = X" "distinct hs'" "set hs' \<inter> (X - set hs) = {}"
  shows "distinct (as @ hs' @ bs) \<and> set (as @ hs' @ bs) = (X - set hs) \<union> set hs'"
  using assms by auto

context conn_pool
begin

lemma sys_inv_holds:
  assumes "sys_inv base owned valid (us @ wk # vs, w)"
  shows "holds base (held owned (wk_pc wk)) w" "pc_ok base owned valid (wk_pc wk)"
  using assms by (auto simp: sys_inv_def holds_def holdings_def)

lemma sys_inv_step:
  assumes "run_step P rel env st st'" "sys_inv base owned valid st"
  shows "sys_inv base owned valid st'"
  using assms
proof cases
  case (step wk w wk' w' us vs)
  note inv = assms(2) [unfolded step(1)]
  note x = step_exchanges [OF step(3) sys_inv_holds(2) [OF inv] sys_inv_holds(1) [OF inv]]
  let ?h = "held owned (wk_pc wk)" and ?h' = "held owned (wk_pc wk')"
  let ?as = "base @ holdings owned us" and ?bs = "holdings owned vs"
  have "distinct (?as @ ?h @ ?bs)" "set (?as @ ?h @ ?bs) = opened w"
    using inv by (auto simp: sys_inv_def holdings_def)
  moreover have "distinct ?h'" "set ?h' \<inter> (opened w - set ?h) = {}" "good_world w'"
      "opened w' = (opened w - set ?h) \<union> set ?h'"
    using x by (simp_all add: exchanges_def)
  ultimately have "distinct (?as @ ?h' @ ?bs) \<and> set (?as @ ?h' @ ?bs) = opened w'"
    using exchange_lists [of ?as ?h ?bs "opened w" ?h'] by simp
  with x inv \<open>good_world w'\<close> show ?thesis
    unfolding step(2) by (simp add: sys_inv_def holdings_def)
qed

lemma sys_inv_reaches: "reaches P rel env st st' \<Longrightarrow> sys_inv base owned valid st \<Longrightarrow> sys_inv base owned valid st'"
  by (induction rule: rtranclp_induct) (auto intro: sys_inv_step)

lemmas sys_inv_exec = sys_inv_reaches [OF exec_reaches]

end

lemma start_workers_pc:
  fixes ws :: "('s, 'e) worker list"
  assumes "ws = start_workers c ordh sel"
  shows "\<forall>wk\<in>set ws. wk_pc wk = AtStart" "holdings own ws = []"
  by (simp_all add: assms holdings_def start_workers_def Let_def)

lemma sys_inv_start:
  fixes own :: "'s \<Rightarrow> conn list" and ok :: "'s \<Rightarrow> bool" and ws :: "('s, 'e) worker list"
  assumes "good_world w" "opened w = set base" "distinct base" "ws = start_workers c ordh sel"
  shows "sys_inv base own ok (ws, w)"
  using assms(1-3) start_workers_pc [OF assms(4)] by (simp add: sys_inv_def)

lemma holdings_finished: "list_all (\<lambda>wk. is_finished (wk_pc wk)) ws \<Longrightarrow> holdings own ws = []"
  by (induction ws) (auto simp: holdings_def finished_pc)

lemma distinct_pool_conns: "distinct (pool_conns p)"
  by (cases p rule: pool_conns.cases) simp_all

text \<open>The system a run of a configuration works on, once the pool is open.\<close>

lemma run_system:
  assumes "newConnPool model (dial g target plaintext skip extra) w = (Inr p, w1)"
    and "good_world w" "opened w = {}"
  shows "conn_pool (iface g p) (call_release g) (pool_conns p) source_conns (valid_source p)"
    "sys_inv (pool_conns p) source_conns (valid_source p)
       (exec (iface g p) (call_release g) env sched (start_workers c ordh sel, w1))"
proof -
  have p: "pool_over (dial g target plaintext skip extra) p" "good_world w1" "opened w1 = set (pool_conns p)"
    using bench_dial.newConnPool_ok [OF assms(1-3)] by simp_all
  show C: "conn_pool (iface g p) (call_release g) (pool_conns p) source_conns (valid_source p)"
    by (rule bench_dial.pool_contract [OF p(1)])
  show "sys_inv (pool_conns p) source_conns (valid_source p)
      (exec (iface g p) (call_release g) env sched (start_workers c ordh sel, w1))"
    by (rule conn_pool.sys_inv_exec [OF C sys_inv_start [OF p(2,3) distinct_pool_conns refl]])
qed

section \<open>Progress\<close>

text \<open>
  Once the context is done a worker leaves its loop at the next test. A test reads one tick, so before
  that there are at most as many tests as ticks; \<open>rank\<close> counts the steps to the next test.
\<close>

fun rank :: "'s pc \<Rightarrow> nat" where
  "rank AtStart = 3"
| "rank (AtLoop s) = 2"
| "rank (AtAcquire s) = 6"
| "rank (AtCall s c r) = 5"
| "rank (InCall s k r cl start) = 4"
| "rank (AtRelease s r dropped) = 3"
| "rank (AtClose s) = 1"
| "rank Finished = 0"
| "rank (Panicked s r) = 0"

definition budget :: "nat \<Rightarrow> ('s, 'e) system \<Rightarrow> nat" where
  "budget N st = 8 * (N - w_tick (snd st)) + sum_list (map (\<lambda>wk. rank (wk_pc wk)) (fst st))"

context conn_pool
begin

lemma step_rank:
  assumes "worker_step P rel env wk w = (wk', w')" "\<not> is_finished (wk_pc wk)" "\<not> is_panicked (wk_pc wk)"
    and "pc_ok base owned valid (wk_pc wk)" "holds base (held owned (wk_pc wk)) w"
    and "\<And>t. N \<le> t \<Longrightarrow> env_ctx_done env t"
  shows "8 * (N - w_tick w') + rank (wk_pc wk') < 8 * (N - w_tick w) + rank (wk_pc wk)"
proof -
  have g: "good_world w" "set base \<subseteq> opened w" "set (held owned (wk_pc wk)) \<subseteq> opened w"
    using assms(5) by (simp_all add: holds_def)
  have later: "8 * (N - w_tick w') + a < 8 * (N - w_tick w) + b" if "w_tick w \<le> w_tick w'" "a < b" for a b :: nat
    using that by (intro add_le_less_mono mult_le_mono2 diff_le_mono2)
  show ?thesis
  proof (cases "wk_pc wk")
    case AtStart
    obtain res w1 where n: "if_NewSource P w = (res, w1)" by (cases "if_NewSource P w")
    show ?thesis
    proof (cases res)
      case (Inl e)
      from new_err [OF n [unfolded Inl] g(1,2)] AtStart assms(1) n Inl show ?thesis
        by (intro later) (auto simp: worker_step_def quiet_def split: prod.splits dest!: fail_result_world)
    next
      case (Inr s)
      from new_ok [OF n [unfolded Inr] g(1,2)] AtStart assms(1) n Inr show ?thesis
        by (intro later) (auto simp: worker_step_def quiet_def)
    qed
  next
    case (AtLoop s)
    then have w': "w' = tick w" and pc: "wk_pc wk' = (if env_ctx_done env (w_tick w) then AtClose s else AtAcquire s)"
      using assms(1) by (auto simp: worker_step_def ctx_Err_def)
    show ?thesis
    proof (cases "env_ctx_done env (w_tick w)")
      case True
      then show ?thesis using pc AtLoop by (intro later) (simp_all add: w')
    next
      case False
      then have "w_tick w < N" using assms(6) [of "w_tick w"] by (meson not_le)
      then have "N - w_tick w = Suc (N - w_tick w')" by (simp add: w')
      then show ?thesis using False pc AtLoop by simp
    qed
  next
    case (AtAcquire s)
    obtain res w1 where n: "if_Acquire P s w = (res, w1)" by (cases "if_Acquire P s w")
    show ?thesis
    proof (cases res)
      case (Inl e)
      from acquire_err [OF n [unfolded Inl] g(1)] assms(4) AtAcquire
      have t: "w_tick w1 = w_tick w" by (simp add: quiet_def)
      from assms(1) AtAcquire n Inl have "w_tick w1 \<le> w_tick w'" "wk_pc wk' = AtClose s \<or> wk_pc wk' = AtLoop s"
        by (auto simp: worker_step_def split: prod.splits bool.splits dest!: fail_result_world ctx_Err_world)
      then show ?thesis using t AtAcquire by (intro later) auto
    next
      case (Inr cr)
      obtain c r where cr: "cr = (c, r)" by (cases cr)
      from acquire_ok [OF n [unfolded Inr cr] g(1)] g assms(4) AtAcquire
      have "w_tick w1 = w_tick w" by (simp add: quiet_def)
      then show ?thesis using assms(1) AtAcquire n Inr cr by (intro later) (auto simp: worker_step_def)
    qed
  next
    case (AtCall s c r)
    have "w_tick w \<le> w_tick w' \<and> rank (wk_pc wk') < 5"
      using assms(1) AtCall
      by (auto simp: worker_step_def doCall_send_def time_Now_def Let_def split: option.splits prod.splits)
    then show ?thesis using AtCall by (intro later) auto
  next
    case (InCall s k r cl start)
    then have "wk_pc wk' \<in> range (AtRelease s r)" "w' = tick w \<or> w' = tick (tick w)"
      using assms(1) by (auto simp: worker_step_def split: prod.splits dest: doCall_receive_world)
    then show ?thesis using InCall by (intro later) auto
  next
    case (AtRelease s r dropped)
    then have "w' = rel r w" "wk_pc wk' = AtClose s \<or> wk_pc wk' = AtLoop s"
      using assms(1) by (auto simp: worker_step_def split: if_splits)
    then show ?thesis using release_ok [OF g(1), of r] g(3) AtRelease by (intro later) (auto simp: quiet_def)
  next
    case (AtClose s)
    obtain e w1 where n: "if_SourceClose P s w = (e, w1)" by (cases "if_SourceClose P s w")
    then show ?thesis
      using assms(1) close_ok [OF n g(1)] g(3) assms(4) AtClose by (intro later) (auto simp: worker_step_def quiet_def)
  qed (use assms(2,3) in auto)
qed

lemma step_budget:
  assumes "run_step P rel env st st'" "sys_inv base owned valid st"
    and "\<And>t. N \<le> t \<Longrightarrow> env_ctx_done env t"
  shows "budget N st' < budget N st"
  using assms(1)
proof cases
  case (step wk w wk' w' us vs)
  note inv = assms(2) [unfolded step(1)]
  from step_rank [OF step(3,4,5) sys_inv_holds(2) [OF inv] sys_inv_holds(1) [OF inv] assms(3)]
  show ?thesis unfolding step(1,2) by (simp add: budget_def)
qed

end

lemma length_exec: "length (fst (exec P rel env sched st)) = length (fst st)"
  by (induction sched rule: rev_induct) (simp_all add: exec_Nil exec_snoc)

context conn_pool
begin

text \<open>A worker that is not finished has used up part of the budget every time it was scheduled.\<close>

lemma exec_budget:
  assumes inv: "sys_inv base owned valid st" and cd: "\<And>t. N \<le> t \<Longrightarrow> env_ctx_done env t"
    and i: "i < length (fst st)"
    and "\<not> list_ex (\<lambda>wk. is_panicked (wk_pc wk)) (fst (exec P rel env sched st))"
    and "\<not> is_finished (wk_pc (fst (exec P rel env sched st) ! i))"
  shows "budget N (exec P rel env sched st) + count_list sched i \<le> budget N st"
  using assms(4,5)
proof (induction sched rule: rev_induct)
  case Nil
  then show ?case by (simp add: exec_Nil)
next
  case (snoc j sched)
  let ?st1 = "exec P rel env sched st" and ?st2 = "exec P rel env (sched @ [j]) st"
  have st2: "?st2 = sys_step P rel env j ?st1" by (rule exec_snoc)
  have len: "length (fst ?st1) = length (fst st)" by (rule length_exec)
  have pan: "\<not> list_ex (\<lambda>wk. is_panicked (wk_pc wk)) (fst ?st1)"
    using snoc.prems(1) sys_step_idle [of "fst ?st1" j P rel env "snd ?st1"] unfolding st2 by auto
  have fin: "\<not> is_finished (wk_pc (fst ?st1 ! i))"
  proof
    assume f: "is_finished (wk_pc (fst ?st1 ! i))"
    then have "fst ?st2 ! i = fst ?st1 ! i"
      using sys_step_idle [of "fst ?st1" j P rel env "snd ?st1"] sys_step_other [of i j P rel env ?st1]
      unfolding st2 by (cases "i = j") auto
    with f snoc.prems(2) show False by simp
  qed
  note IH = snoc.IH [OF pan fin]
  have inv1: "sys_inv base owned valid ?st1" by (rule sys_inv_exec [OF inv])
  show ?case
  proof (cases "j = i")
    case True
    have "run_step P rel env ?st1 ?st2"
      using sys_step_active [of i "fst ?st1" P rel env "snd ?st1"] i len pan fin True unfolding st2 by simp
    from step_budget [where N = N, OF this inv1 cd] IH True show ?thesis by simp
  next
    case False
    have "budget N ?st2 \<le> budget N ?st1"
      using sys_step_cases [of P rel env j ?st1] step_budget [where N = N, OF _ inv1 cd, of ?st2] unfolding st2 by auto
    with IH False show ?thesis by simp
  qed
qed

text \<open>So a schedule that names every worker often enough finishes them all.\<close>

lemma exec_finishes:
  assumes inv: "sys_inv base owned valid st" and cd: "\<And>t. N \<le> t \<Longrightarrow> env_ctx_done env t"
    and often: "\<And>i. i < length (fst st) \<Longrightarrow> budget N st < count_list sched i"
    and np: "\<not> list_ex (\<lambda>wk. is_panicked (wk_pc wk)) (fst (exec P rel env sched st))"
  shows "list_all (\<lambda>wk. is_finished (wk_pc wk)) (fst (exec P rel env sched st))"
proof (rule ccontr)
  assume "\<not> ?thesis"
  then obtain i where i: "i < length (fst (exec P rel env sched st))"
    "\<not> is_finished (wk_pc (fst (exec P rel env sched st) ! i))"
    by (auto simp: list_all_length)
  have len: "length (fst (exec P rel env sched st)) = length (fst st)" by (rule length_exec)
  from exec_budget [OF inv cd _ np i(2)] i(1) often [of i] len show False by fastforce
qed

end

section \<open>No panics\<close>

definition ready :: "'e run_env \<Rightarrow> ('s, 'e) worker \<Rightarrow> bool" where
  "ready env wk \<longleftrightarrow> (\<forall>t. Pick (wk_selector wk) (env_intN env t) \<noteq> None) \<and>
     (\<forall>shape. BuildEchoRequest shape (wk_sizes wk) \<noteq> None) \<and> \<not> is_panicked (wk_pc wk)"

lemma worker_step_config:
  assumes "worker_step P rel env wk w = (wk', w')"
  shows "wk_selector wk' = wk_selector wk \<and> wk_sizes wk' = wk_sizes wk"
proof (cases "wk_pc wk")
  case (AtCall s c r)
  then show ?thesis using assms by (auto simp: worker_step_def split: option.splits)
qed (use assms in \<open>auto simp: worker_step_def split: prod.splits sum.splits bool.splits\<close>)

lemma ready_step:
  assumes "worker_step P rel env wk w = (wk', w')" "ready env wk" "pc_ok base own ok (wk_pc wk)"
  shows "ready env wk'"
proof -
  have "\<not> is_panicked (wk_pc wk')"
  proof (cases "wk_pc wk")
    case (AtCall s c r)
    with assms(3) obtain k where "c = Some k" by auto
    moreover obtain shape where "Pick (wk_selector wk) (env_intN env (w_tick w)) = Some shape"
      using assms(2) unfolding ready_def by blast
    moreover obtain req where "BuildEchoRequest shape (wk_sizes wk) = Some req"
      using assms(2) unfolding ready_def by blast
    ultimately show ?thesis
      using assms(1) AtCall by (auto simp: worker_step_def doCall_send_def Let_def split: prod.splits)
  qed (use assms(1,2) in \<open>auto simp: worker_step_def ready_def
      split: prod.splits sum.splits bool.splits if_splits\<close>)
  with assms(2) worker_step_config [OF assms(1)] show ?thesis by (simp add: ready_def)
qed

section \<open>Every call is accounted for\<close>

text \<open>A result of a call, as opposed to one of a source or a connection that could not be had.\<close>

definition of_call :: "'e werr Result \<Rightarrow> bool" where
  "of_call r \<longleftrightarrow> (\<forall>what e. r_Err r \<noteq> Some (Wrapped what e))"

fun in_flight :: "'s pc \<Rightarrow> nat" where
  "in_flight (InCall s k r cl start) = 1"
| "in_flight _ = 0"

text \<open>Whether the worker may have dropped a call, or may still drop the one in flight.\<close>

fun may_drop :: "'s pc \<Rightarrow> nat" where
  "may_drop (InCall s k r cl start) = 1"
| "may_drop (AtRelease s r dropped) = (if dropped then 1 else 0)"
| "may_drop (AtClose s) = 1"
| "may_drop Finished = 1"
| "may_drop _ = 0"

definition reported :: "('s, 'e) worker \<Rightarrow> nat" where
  "reported wk = length (filter of_call (wk_results wk))"

definition no_cancellation :: "'e run_env \<Rightarrow> 'e werr Result list \<Rightarrow> bool" where
  "no_cancellation env rs \<longleftrightarrow>
     (\<forall>r\<in>set rs. \<forall>e. r_Err r = Some (Plain e) \<longrightarrow> \<not> isCancellation env (Plain e))"

lemma calls_tick [simp]: "calls (tick w) = calls w" "written (tick w) = written w"
  by (simp_all add: calls_def written_def)

lemma error_result_call [simp]: "\<not> of_call (error_result now (Wrapped what e))"
  by (auto simp: of_call_def error_result_def)

lemma call_result_call [simp]: "of_call (call_result start end rp)"
  by (auto simp: of_call_def call_result_common)

lemma fail_result_account:
  assumes "fail_result env what err rs w = (rs', w')"
  shows "length (filter of_call rs') = length (filter of_call rs) \<and> calls w' = calls w \<and> written w' = written w \<and>
    (no_cancellation env rs \<longrightarrow> no_cancellation env rs')"
  using assms by (auto simp: fail_result_def time_Now_def no_cancellation_def error_result_def of_call_def)

lemma doCall_receive_account:
  assumes "doCall_receive env k cl start rs w = ((dropped, rs'), w')"
  shows "length (filter of_call rs') = length (filter of_call rs) + (if dropped then 0 else 1) \<and>
    calls w' = calls w \<and> written w' = written w \<and> (no_cancellation env rs \<longrightarrow> no_cancellation env rs')"
  using assms
  by (auto simp: doCall_receive_def time_Now_def ctx_Err_def no_cancellation_def call_result_common Let_def
      split: option.splits if_splits)

definition account :: "nat \<Rightarrow> nat \<Rightarrow> ('s, 'e) worker \<Rightarrow> ('s, 'e) worker \<Rightarrow> bool" where
  "account c c' wk wk' \<longleftrightarrow>
     c + reported wk' + in_flight (wk_pc wk') \<le> c' + reported wk + in_flight (wk_pc wk) \<and>
     c' + reported wk + may_drop (wk_pc wk) \<le> c + reported wk' + may_drop (wk_pc wk')"

context conn_pool
begin

lemma step_account:
  assumes "worker_step P rel env wk w = (wk', w')"
    and "pc_ok base owned valid (wk_pc wk)" "holds base (held owned (wk_pc wk)) w"
  shows "account (calls w) (calls w') wk wk' \<and> written w' = written w \<and>
    (no_cancellation env (wk_results wk) \<longrightarrow> no_cancellation env (wk_results wk'))"
proof -
  have g: "good_world w" "set base \<subseteq> opened w" "set (held owned (wk_pc wk)) \<subseteq> opened w"
    using assms(3) by (simp_all add: holds_def)
  note acc = account_def reported_def quiet_def
  show ?thesis
  proof (cases "wk_pc wk")
    case AtStart
    obtain res w1 where n: "if_NewSource P w = (res, w1)" by (cases "if_NewSource P w")
    show ?thesis
    proof (cases res)
      case (Inl e)
      from new_err [OF n [unfolded Inl] g(1,2)] AtStart assms(1) n Inl show ?thesis
        by (auto simp: worker_step_def acc split: prod.splits dest!: fail_result_account)
    next
      case (Inr s)
      from new_ok [OF n [unfolded Inr] g(1,2)] AtStart assms(1) n Inr show ?thesis
        by (auto simp: worker_step_def acc)
    qed
  next
    case (AtLoop s)
    then show ?thesis using assms(1) by (auto simp: worker_step_def acc ctx_Err_def)
  next
    case (AtAcquire s)
    obtain res w1 where n: "if_Acquire P s w = (res, w1)" by (cases "if_Acquire P s w")
    show ?thesis
    proof (cases res)
      case (Inl e)
      from acquire_err [OF n [unfolded Inl] g(1)] assms(2) AtAcquire
      have "calls w1 = calls w" "written w1 = written w" by (simp_all add: quiet_def)
      with assms(1) AtAcquire n Inl show ?thesis
        by (auto simp: worker_step_def acc split: prod.splits bool.splits
            dest!: fail_result_account ctx_Err_world)
    next
      case (Inr cr)
      obtain c r where cr: "cr = (c, r)" by (cases cr)
      from acquire_ok [OF n [unfolded Inr cr] g(1)] g assms(2) AtAcquire
      have "calls w1 = calls w" "written w1 = written w" by (simp_all add: quiet_def)
      then show ?thesis using assms(1) AtAcquire n Inr cr by (auto simp: worker_step_def acc)
    qed
  next
    case (AtCall s c r)
    then show ?thesis
      using assms(1)
      by (auto simp: worker_step_def doCall_send_def time_Now_def Let_def acc calls_def written_def tick_def
          split: option.splits prod.splits)
  next
    case (InCall s k r cl start)
    then show ?thesis
      using assms(1) by (auto simp: worker_step_def acc split: prod.splits dest!: doCall_receive_account)
  next
    case (AtRelease s r dropped)
    then show ?thesis
      using assms(1) release_ok [OF g(1), of r] g(3) by (auto simp: worker_step_def acc)
  next
    case (AtClose s)
    obtain e w1 where n: "if_SourceClose P s w = (e, w1)" by (cases "if_SourceClose P s w")
    then show ?thesis
      using assms(1) close_ok [OF n g(1)] g(3) assms(2) AtClose by (auto simp: worker_step_def acc)
  qed (use assms(1) in \<open>auto simp: worker_step_def acc\<close>)
qed

end

text \<open>The invariants of a run that starts in the world \<open>w0\<close> together.\<close>

definition run_inv ::
  "'e run_env \<Rightarrow> world \<Rightarrow> conn list \<Rightarrow> ('s \<Rightarrow> conn list) \<Rightarrow> ('s \<Rightarrow> bool) \<Rightarrow> ('s, 'e) system \<Rightarrow> bool" where
  "run_inv env w0 base own ok st \<longleftrightarrow>
     sys_inv base own ok st \<and> written (snd st) = written w0 \<and>
     (\<forall>wk\<in>set (fst st). no_cancellation env (wk_results wk)) \<and>
     calls w0 + sum_list (map (\<lambda>wk. reported wk + in_flight (wk_pc wk)) (fst st)) \<le> calls (snd st) \<and>
     calls (snd st) \<le> calls w0 + sum_list (map (\<lambda>wk. reported wk + may_drop (wk_pc wk)) (fst st))"

context conn_pool
begin

lemma run_inv_step:
  assumes "run_step P rel env st st'" "run_inv env w0 base owned valid st"
  shows "run_inv env w0 base owned valid st'"
  using assms(1)
proof cases
  case (step wk w wk' w' us vs)
  have inv: "sys_inv base owned valid st" using assms(2) by (simp add: run_inv_def)
  note i = inv [unfolded step(1)]
  note a = step_account [OF step(3) sys_inv_holds(2) [OF i] sys_inv_holds(1) [OF i]]
  have "sys_inv base owned valid st'" by (rule sys_inv_step [OF assms(1) inv])
  with a assms(2) show ?thesis
    unfolding step(1,2) by (auto simp: run_inv_def account_def)
qed

lemma run_inv_reaches:
  "reaches P rel env st st' \<Longrightarrow> run_inv env w0 base owned valid st \<Longrightarrow> run_inv env w0 base owned valid st'"
  by (induction rule: rtranclp_induct) (auto intro: run_inv_step)

lemmas run_inv_exec = run_inv_reaches [OF exec_reaches]

lemma ready_exec:
  assumes "sys_inv base owned valid st" "\<forall>wk\<in>set (fst st). ready env wk"
  shows "\<forall>wk\<in>set (fst (exec P rel env sched st)). ready env wk"
proof (induction sched rule: rev_induct)
  case Nil
  then show ?case using assms(2) by (simp add: exec_Nil)
next
  case (snoc i sched)
  let ?st1 = "exec P rel env sched st"
  have inv: "sys_inv base owned valid ?st1" by (rule sys_inv_exec [OF assms(1)])
  consider "sys_step P rel env i ?st1 = ?st1" | "run_step P rel env ?st1 (sys_step P rel env i ?st1)"
    using sys_step_cases by blast
  then show ?case
  proof cases
    case 1
    then show ?thesis using snoc by (simp add: exec_snoc)
  next
    case 2
    then show ?thesis
    proof cases
      case (step wk w wk' w' us vs)
      have "ready env wk" using snoc.IH unfolding step(1) by simp
      from ready_step [OF step(3) this sys_inv_holds(2) [OF inv [unfolded step(1)]]] snoc.IH
      show ?thesis unfolding exec_snoc step(2) unfolding step(1) by auto
    qed
  qed
qed

end

section \<open>A concrete environment\<close>

text \<open>Every call answers at once, and the context is done from the fifth tick on.\<close>

definition example_env :: "nat run_env" where
  "example_env =
     \<lparr>env_ctx_done = (\<lambda>t. 5 \<le> t), env_now = int, env_intN = (\<lambda>_ _. 0),
      env_echo = (\<lambda>_ _ _. \<lparr>rp_rsp = None, rp_err = None, rp_peer = None, rp_hdr = (\<lambda>_. []), rp_stats = []\<rparr>),
      env_status = \<lparr>status_Code = (\<lambda>_. 14), status_FromError = (\<lambda>_. None), error_Error = (\<lambda>_. []),
        code_String = (\<lambda>_. [])\<rparr>,
      env_errors_Is = (\<lambda>_ _. False)\<rparr>"

section \<open>Properties\<close>

abbreviation bench_dial_of :: "('e, 'o) grpc_lib \<Rightarrow> 'o Config \<Rightarrow> 'e dialFunc" where
  "bench_dial_of g c \<equiv> dial g (cf_Target c) (cf_Plaintext c) (cf_TLSInsecureSkipVerify c) (cf_dialOpts c)"

text \<open>The pieces of a run that got past the pool.\<close>

lemma config_run_pieces:
  assumes "config_run g env ords ordh sched c w = (out, w')" "Validate c = None"
    and "newConnPool (cf_ConnModel c) (bench_dial_of g c) w = (Inr p, w1)"
    and "NewPayloadSelector (cf_Payload c) = Some sel" "alloc_ok 8 (cf_Concurrency c)"
  obtains ws w2 where
    "exec (iface g p) (call_release g) env sched (start_workers c ordh sel, w1) = (ws, w2)"
    "list_ex (\<lambda>wk. is_panicked (wk_pc wk)) ws \<Longrightarrow> out = Crashed \<and> w' = w2"
    "\<not> list_ex (\<lambda>wk. is_panicked (wk_pc wk)) ws \<Longrightarrow> \<not> list_all (\<lambda>wk. is_finished (wk_pc wk)) ws \<Longrightarrow>
      out = Running \<and> w' = w2"
    "\<not> list_ex (\<lambda>wk. is_panicked (wk_pc wk)) ws \<Longrightarrow> list_all (\<lambda>wk. is_finished (wk_pc wk)) ws \<Longrightarrow>
      out = Returned (Inr (aggregate (env_status env) ords (collect_results ws)
        (elapsed (collect_results ws)) (cf_ConnModel c))) \<and> w' = snd (ConnPool_Close g p w2)"
proof -
  obtain ws w2 where e: "exec (iface g p) (call_release g) env sched (start_workers c ordh sel, w1) = (ws, w2)"
    by (cases "exec (iface g p) (call_release g) env sched (start_workers c ordh sel, w1)")
  have "config_run g env ords ordh sched c w =
      (if list_ex (\<lambda>wk. is_panicked (wk_pc wk)) ws then (Crashed, w2)
       else if \<not> list_all (\<lambda>wk. is_finished (wk_pc wk)) ws then (Running, w2)
       else (Returned (Inr (aggregate (env_status env) ords (collect_results ws)
         (elapsed (collect_results ws)) (cf_ConnModel c))), snd (ConnPool_Close g p w2)))"
    unfolding config_run_def Let_def assms(2,3,4) option.case prod.case sum.case e
    using assms(5) by (simp add: iface_def)
  with assms(1) show ?thesis by (intro that [OF e]) (simp_all only: if_True if_False simp_thms prod.inject)
qed

lemma pool_closed:
  assumes "conn_pool (iface g p) (call_release g) (pool_conns p) source_conns (valid_source p)"
    and "sys_inv (pool_conns p) source_conns (valid_source p) (ws, w)"
    and "list_all (\<lambda>wk. is_finished (wk_pc wk)) ws"
  shows "good_world (snd (ConnPool_Close g p w)) \<and> opened (snd (ConnPool_Close g p w)) = {} \<and>
    calls (snd (ConnPool_Close g p w)) = calls w \<and> written (snd (ConnPool_Close g p w)) = written w"
proof -
  have "good_world w" "opened w = set (pool_conns p)"
    using assms(2) holdings_finished [OF assms(3), of source_conns] by (simp_all add: sys_inv_def)
  with conn_pool.pool_close [OF assms(1), of w "fst (ConnPool_Close g p w)" "snd (ConnPool_Close g p w)"]
  show ?thesis by (simp add: iface_def quiet_def)
qed

text \<open>
  The world a run leaves: the trace is proper, and unless a worker panicked or the schedule stopped too
  early every connection is closed, also when the calling goroutine panicked. The run itself writes no report.
\<close>

lemma run_inv_start:
  fixes env :: "'e run_env"
  assumes "newConnPool model (dial g target plaintext skip extra) w = (Inr p, w1)"
    and "good_world w" "opened w = {}"
  shows "run_inv env w (pool_conns p) source_conns (valid_source p)
    ((start_workers c ordh sel, w1) :: ('e ConnSource, 'e) system)"
proof -
  have "sys_inv (pool_conns p) source_conns (valid_source p)
      ((start_workers c ordh sel, w1) :: ('e ConnSource, 'e) system)"
    using run_system(2) [OF assms, of env "[]" c ordh sel] by (simp add: exec_Nil)
  then show ?thesis
    using bench_dial.newConnPool_quiet [OF assms(1,2)]
    by (auto simp: run_inv_def quiet_def start_workers_def Let_def no_cancellation_def reported_def sum_list_replicate)
qed

lemma run_world:
  fixes env :: "'e run_env"
  assumes "good_world w" "opened w = {}" "config_run g env ords ordh sched c w = (out, w')"
  shows "good_world w' \<and> written w' = written w \<and> (out \<noteq> Running \<longrightarrow> out \<noteq> Crashed \<longrightarrow> opened w' = {})"
proof (cases "Validate c")
  case (Some e)
  then show ?thesis using assms by (auto simp: config_run_def)
next
  case None
  obtain res w1 where np: "newConnPool (cf_ConnModel c) (bench_dial_of g c) w = (res, w1)"
    by (cases "newConnPool (cf_ConnModel c) (bench_dial_of g c) w")
  show ?thesis
  proof (cases res)
    case (Inl e)
    have "w' = w1" using assms(3) None np Inl by (simp add: config_run_def)
    with bench_dial.newConnPool_err [OF np [unfolded Inl] assms(1)] assms(2) show ?thesis by (auto simp: quiet_def)
  next
    case (Inr p)
    note np = np [unfolded Inr]
    note sys = run_system [OF np assms(1,2)]
    note new = bench_dial.newConnPool_ok [OF np assms(1,2)]
    have wr: "written w1 = written w" using bench_dial.newConnPool_quiet [OF np assms(1)] by (simp add: quiet_def)
    consider "\<not> alloc_ok 8 (cf_Concurrency c)"
      | "alloc_ok 8 (cf_Concurrency c)" "NewPayloadSelector (cf_Payload c) = None"
      | sel where "alloc_ok 8 (cf_Concurrency c)" "NewPayloadSelector (cf_Payload c) = Some sel"
      by blast
    then show ?thesis
    proof cases
      case 1
      then have w': "w' = snd (ConnPool_Close g p w1)" using assms(3) None np by (simp add: config_run_def iface_def)
      have inv: "sys_inv (pool_conns p) source_conns (valid_source p) ([] :: ('e ConnSource, 'e) worker list, w1)"
        using new by (simp add: sys_inv_def holdings_def distinct_pool_conns)
      show ?thesis using pool_closed [OF sys(1) inv] by (simp add: w' wr)
    next
      case 2
      then have "w' = w1" "out = Crashed" using assms(3) None np by (simp_all add: config_run_def)
      with new wr show ?thesis by simp
    next
      case 3
      from config_run_pieces [OF assms(3) None np 3(2,1)] obtain ws w2 where
        x: "exec (iface g p) (call_release g) env sched (start_workers c ordh sel, w1) = (ws, w2)"
          "w' = w2 \<and> (out = Crashed \<or> out = Running) \<or>
           w' = snd (ConnPool_Close g p w2) \<and> list_all (\<lambda>wk. is_finished (wk_pc wk)) ws" by metis
      have "run_inv env w (pool_conns p) source_conns (valid_source p) (ws, w2)"
        using conn_pool.run_inv_exec [OF sys(1) run_inv_start [OF np assms(1,2), of env c ordh sel], of sched] x(1) by simp
      then have inv: "sys_inv (pool_conns p) source_conns (valid_source p) (ws, w2)" "written w2 = written w"
        by (simp_all add: run_inv_def)
      from x(2) show ?thesis using inv pool_closed [OF sys(1) inv(1)] by (auto simp: sys_inv_def)
    qed
  qed
qed

text \<open>
  C1: However the workers are scheduled, and whatever gRPC, the clock and the context do: a run never
  makes a call on a connection that is not open and never closes one twice, and when it returns,
  every connection it dialed has been closed exactly once.
\<close>

theorem run_closes_connections:
  assumes "good_world w" "opened w = {}" "config_run g env ords ordh sched c w = (out, w')"
  shows "proper (w_trace w') \<and> (\<forall>res. out = Returned res \<longrightarrow> opened w' = {} \<and>
    (\<forall>k. Dialed k \<in> set (w_trace w') \<longrightarrow> count_list (w_trace w') (Closed k) = 1))"
  using run_world [OF assms] closed_exactly_once [of w'] by (auto simp: good_world_def)

theorem run_closes_connections_witness:
  "proper (w_trace (snd (config_run quiet_lib example_env example_orders rev
      (concat (replicate 20 [0])) (New :: nat Config) world0)))"
  by (rule run_closes_connections [OF good_world0 prod.collapse [symmetric], THEN conjunct1])

text \<open>What a run needs from its configuration and from the random source not to panic.\<close>

definition allocatable :: "'o Config \<Rightarrow> bool" where
  "allocatable c \<longleftrightarrow> 4 * cf_EmbeddingDim c \<le> maxAlloc \<and> cf_BytesSize c \<le> maxAlloc \<and>
     cf_StringLen c \<le> maxAlloc \<and> 8 * cf_Concurrency c \<le> maxAlloc"

definition run_safe :: "'e run_env \<Rightarrow> 'o Config \<Rightarrow> bool" where
  "run_safe env c \<longleftrightarrow> weights_ok (cf_Payload c) \<and> allocatable c \<and>
     (\<forall>t n. 0 < n \<longrightarrow> 0 \<le> env_intN env t n \<and> env_intN env t n < n)"

abbreviation config_sizes :: "'o Config \<Rightarrow> PayloadSizes" where
  "config_sizes c \<equiv>
     \<lparr>EmbeddingDim = cf_EmbeddingDim c, BytesSize = cf_BytesSize c, StringLen = cf_StringLen c\<rparr>"

lemma Validate_sizes:
  assumes "Validate c = None" "allocatable c"
  shows "sizes_ok (config_sizes c)" "alloc_ok 8 (cf_Concurrency c)"
  using assms by (simp_all add: Validate_def sizes_ok_def alloc_ok_def allocatable_def split: if_splits)

lemma start_workers_ready:
  assumes "Validate c = None" "run_safe env c" "NewPayloadSelector (cf_Payload c) = Some sel"
    and "wk \<in> set (start_workers c ordh sel)"
  shows "ready env wk"
proof -
  have "sizes_ok (wk_sizes wk)"
    using assms Validate_sizes(1) [of c] by (auto simp: start_workers_def run_safe_def Let_def)
  then have "\<forall>shape. BuildEchoRequest shape (wk_sizes wk) \<noteq> None" by (simp only: buildable_iff)
  moreover have "Pick sel (env_intN env t) \<noteq> None" for t
    using assms(2) by (intro Pick_total [OF assms(3)]) (auto simp: run_safe_def)
  ultimately show ?thesis
    using assms(4) by (auto simp: ready_def start_workers_def Let_def)
qed

lemma not_panicked_ready: "\<forall>wk\<in>set ws. ready env wk \<Longrightarrow> \<not> list_ex (\<lambda>wk. is_panicked (wk_pc wk)) ws"
  by (auto simp: ready_def list_ex_iff)

text \<open>The outcome of a validated, safe run whose pool opened.\<close>

lemma run_no_panic:
  fixes env :: "'e run_env"
  assumes "good_world w" "opened w = {}" "Validate c = None" "run_safe env c"
    and np: "newConnPool (cf_ConnModel c) (bench_dial_of g c) w = (Inr p, w1)"
    and sel: "NewPayloadSelector (cf_Payload c) = Some sel"
  shows "\<not> list_ex (\<lambda>wk. is_panicked (wk_pc wk))
    (fst (exec (iface g p) (call_release g) env sched (start_workers c ordh sel, w1)))"
proof (rule not_panicked_ready)
  note sys = run_system [OF np assms(1,2)]
  let ?st = "(start_workers c ordh sel, w1) :: ('e ConnSource, 'e) system"
  have "sys_inv (pool_conns p) source_conns (valid_source p) ?st"
    using sys(2) [of env "[]" c ordh sel] by (simp add: exec_Nil)
  moreover have "\<forall>wk\<in>set (fst ?st). ready env wk"
    by (auto intro: start_workers_ready [OF assms(3,4) sel])
  ultimately show "\<forall>wk\<in>set (fst (exec (iface g p) (call_release g) env sched (start_workers c ordh sel, w1))).
      ready env wk"
    by (rule conn_pool.ready_exec [OF sys(1)])
qed

lemma Validate_selector: "Validate c = None \<Longrightarrow> \<exists>sel. NewPayloadSelector (cf_Payload c) = Some sel"
  using NewPayloadSelector_total by (auto simp: Validate_def has_positive_iff split: if_splits)

lemma safe_run_outcome:
  assumes "good_world w" "opened w = {}" "run_safe env c"
  shows "fst (config_run g env ords ordh sched c w) \<notin> {Crashed, Aborted}"
proof (cases "Validate c")
  case (Some e)
  then show ?thesis by (simp add: config_run_def)
next
  case None
  then obtain sel where sel: "NewPayloadSelector (cf_Payload c) = Some sel" using Validate_selector by blast
  have al: "alloc_ok 8 (cf_Concurrency c)" using Validate_sizes(2) [OF None] assms(3) by (simp add: run_safe_def)
  obtain res w1 where np: "newConnPool (cf_ConnModel c) (bench_dial_of g c) w = (res, w1)"
    by (cases "newConnPool (cf_ConnModel c) (bench_dial_of g c) w")
  show ?thesis
  proof (cases res)
    case (Inl e)
    then show ?thesis using None np by (simp add: config_run_def)
  next
    case (Inr p)
    note np = np [unfolded Inr]
    note pan = run_no_panic [OF assms(1,2) None assms(3) np sel, of sched ordh]
    obtain out w' where run: "config_run g env ords ordh sched c w = (out, w')"
      by (cases "config_run g env ords ordh sched c w")
    from config_run_pieces [OF run None np sel al] pan have "out \<noteq> Crashed \<and> out \<noteq> Aborted"
      by (metis fst_conv outcome.distinct)
    with run show ?thesis by simp
  qed
qed

lemma aborted_run:
  assumes "config_run g env ords ordh sched c w = (Aborted, w')"
  shows "Validate c = None \<and> \<not> allocatable c"
proof -
  have v: "Validate c = None" using assms by (cases "Validate c") (auto simp: config_run_def)
  with assms have "\<not> alloc_ok 8 (cf_Concurrency c)"
    by (auto simp: config_run_def Let_def split: prod.splits sum.splits option.splits if_splits)
  with v Validate_sizes(2) show ?thesis by blast
qed

text \<open>
  C16: A run of a configuration that passes \<open>Validate\<close> never panics, in no goroutine and however it is
  scheduled, as long as the payload sizes and the slice of workers can be allocated and the weights of a
  mix of several shapes add up to a positive 64-bit total.
\<close>

theorem run_never_panics:
  assumes "good_world w" "opened w = {}" "run_safe env c"
  shows "fst (config_run g env ords ordh sched c w) \<notin> {Crashed, Aborted}"
  by (rule safe_run_outcome [OF assms])

theorem run_never_panics_witness:
  "fst (config_run quiet_lib example_env example_orders rev [0, 0, 0] (New :: nat Config) world0) \<notin>
     {Crashed, Aborted}"
  by (rule run_never_panics [OF good_world0])
    (simp add: run_safe_def New_def weights_ok_def allocatable_def maxAlloc_def example_env_def)

text \<open>What the checks of \<open>Validate\<close> on the mix and the connection model buy.\<close>

lemma selector_exists_iff: "NewPayloadSelector mix \<noteq> None \<longleftrightarrow> has_positive mix"
  by (simp add: NewPayloadSelector_eq has_positive_iff filter_empty_conv)

lemma unknown_model_iff:
  "(\<forall>(d :: 'e dialFunc) w m. fst (newConnPool model d w) \<noteq> Inl (UnknownConnModel m)) \<longleftrightarrow> isValidConnModel model"
proof
  assume a: "\<forall>(d :: 'e dialFunc) w m. fst (newConnPool model d w) \<noteq> Inl (UnknownConnModel m)"
  show "isValidConnModel model"
  proof (rule ccontr)
    assume "\<not> isValidConnModel model"
    then have "fst (newConnPool model d w) = Inl (UnknownConnModel model)" for d :: "'e dialFunc" and w
      by (simp add: isValidConnModel_def validConnModels_def newConnPool_def)
    with a show False by blast
  qed
qed (auto simp: isValidConnModel_def validConnModels_def newConnPool_def split: prod.splits sum.splits)

text \<open>
  C31: \<open>Validate\<close> refuses exactly the configurations that could not run or be reported: for sizes that can
  be allocated, it accepts one if and only if there is a target, a worker and a positive duration, the
  mix gives a selector, a request of every shape can be built, the codec and the output format are
  known, the pool constructor knows the connection model whatever gRPC does, and no header or label key
  is empty. What it refuses is returned as an error by the run, before anything is dialed.
\<close>

theorem validate_exact:
  fixes c :: "'o Config" and g :: "('e, 'o) grpc_lib"
  assumes "allocatable c"
  shows "(Validate c = None \<longleftrightarrow>
      cf_Target c \<noteq> [] \<and> 1 \<le> cf_Concurrency c \<and> 0 < cf_Duration c \<and>
      NewPayloadSelector (cf_Payload c) \<noteq> None \<and>
      (\<forall>shape. BuildEchoRequest shape (config_sizes c) \<noteq> None) \<and>
      cf_Compression c \<in> {''identity'', ''gzip'', ''snappy'', ''zstd''} \<and>
      (\<forall>(d :: 'e dialFunc) w m. fst (newConnPool (cf_ConnModel c) d w) \<noteq> Inl (UnknownConnModel m)) \<and>
      cf_OutputFormat c \<in> {''human'', ''json''} \<and>
      [] \<notin> fst ` set (cf_Headers c) \<and> [] \<notin> fst ` set (cf_Labels c)) \<and>
    (\<forall>e. Validate c = Some e \<longrightarrow>
      config_run g env ords ordh sched c w = (Returned (Inl (InvalidConfig e)), w))"
proof
  have z: "sizes_ok (config_sizes c) \<longleftrightarrow> 0 \<le> cf_EmbeddingDim c \<and> 0 \<le> cf_BytesSize c \<and> 0 \<le> cf_StringLen c"
    using assms by (auto simp: sizes_ok_def alloc_ok_def allocatable_def)
  show "Validate c = None \<longleftrightarrow> cf_Target c \<noteq> [] \<and> 1 \<le> cf_Concurrency c \<and> 0 < cf_Duration c \<and>
      NewPayloadSelector (cf_Payload c) \<noteq> None \<and>
      (\<forall>shape. BuildEchoRequest shape (config_sizes c) \<noteq> None) \<and>
      cf_Compression c \<in> {''identity'', ''gzip'', ''snappy'', ''zstd''} \<and>
      (\<forall>(d :: 'e dialFunc) w m. fst (newConnPool (cf_ConnModel c) d w) \<noteq> Inl (UnknownConnModel m)) \<and>
      cf_OutputFormat c \<in> {''human'', ''json''} \<and>
      [] \<notin> fst ` set (cf_Headers c) \<and> [] \<notin> fst ` set (cf_Labels c)"
    unfolding buildable_iff z selector_exists_iff unknown_model_iff by (auto simp: validate_simps)
  show "\<forall>e. Validate c = Some e \<longrightarrow>
      config_run g env ords ordh sched c w = (Returned (Inl (InvalidConfig e)), w)"
    by (simp add: config_run_def)
qed

theorem validate_exact_witness:
  "NewPayloadSelector (cf_Payload (New :: nat Config)) \<noteq> None \<and>
   BuildEchoRequest PAYLOAD_SHAPE_MIXED (config_sizes (New :: nat Config)) \<noteq> None \<and>
   fst (config_run quiet_lib example_env example_orders rev [0] ((New :: nat Config)\<lparr>cf_StringLen := -1\<rparr>) world0) =
     Returned (Inl (InvalidConfig (the (Validate ((New :: nat Config)\<lparr>cf_StringLen := -1\<rparr>)))))"
proof -
  let ?b = "(New :: nat Config)\<lparr>cf_StringLen := -1\<rparr>"
  have al: "allocatable (New :: nat Config)" "allocatable ?b"
    by (simp_all add: allocatable_def maxAlloc_def New_def)
  note good = validate_exact [OF al(1), of quiet_lib example_env example_orders rev "[0]" world0, THEN conjunct1]
  note bad = validate_exact [OF al(2), of quiet_lib example_env example_orders rev "[0]" world0, THEN conjunct2]
  have "Validate ?b \<noteq> None" by (simp add: validate_simps New_def)
  then obtain e where "Validate ?b = Some e" by blast
  with bad have "config_run quiet_lib example_env example_orders rev [0] ?b world0 =
      (Returned (Inl (InvalidConfig (the (Validate ?b)))), world0)" by simp
  moreover have "NewPayloadSelector (cf_Payload (New :: nat Config)) \<noteq> None"
    "\<forall>shape. BuildEchoRequest shape (config_sizes (New :: nat Config)) \<noteq> None"
    using good Validate_New by blast+
  ultimately show ?thesis by simp
qed

text \<open>Once the pool is open, a schedule that is long enough gets the run to its summary.\<close>

lemma run_finishes:
  fixes env :: "'e run_env"
  assumes "good_world w" "opened w = {}" "run_safe env c"
    and "\<forall>t\<ge>N. env_ctx_done env t"
    and "\<forall>i<nat (cf_Concurrency c). 8 * (N - w_tick w) + 3 * nat (cf_Concurrency c) < count_list sched i"
    and None: "Validate c = None"
    and np: "newConnPool (cf_ConnModel c) (bench_dial_of g c) w = (Inr p, w1)"
  shows "\<exists>s. fst (config_run g env ords ordh sched c w) = Returned (Inr s)"
proof -
  obtain sel where sel: "NewPayloadSelector (cf_Payload c) = Some sel" using Validate_selector [OF None] by blast
  have al: "alloc_ok 8 (cf_Concurrency c)" using Validate_sizes(2) [OF None] assms(3) by (simp add: run_safe_def)
  note sys = run_system [OF np assms(1,2)]
  let ?st = "(start_workers c ordh sel, w1) :: ('e ConnSource, 'e) system"
  have inv: "sys_inv (pool_conns p) source_conns (valid_source p) ?st"
    using sys(2) [of env "[]" c ordh sel] by (simp add: exec_Nil)
  have t: "w_tick w1 = w_tick w" using bench_dial.newConnPool_quiet [OF np assms(1)] by (simp add: quiet_def)
  have b: "budget N ?st = 8 * (N - w_tick w) + 3 * nat (cf_Concurrency c)"
    by (simp add: budget_def t start_workers_def Let_def sum_list_replicate)
  have len: "length (fst ?st) = nat (cf_Concurrency c)" by (simp add: start_workers_def Let_def)
  note pan = run_no_panic [OF assms(1,2) None assms(3) np sel, of sched ordh]
  have fin: "list_all (\<lambda>wk. is_finished (wk_pc wk)) (fst (exec (iface g p) (call_release g) env sched ?st))"
    using assms(4,5) len b
    by (intro conn_pool.exec_finishes [OF sys(1) inv, where N = N] pan) auto
  from config_run_pieces [OF prod.collapse [symmetric] None np sel al] obtain ws w2 where
    x: "exec (iface g p) (call_release g) env sched ?st = (ws, w2)"
      "\<not> list_ex (\<lambda>wk. is_panicked (wk_pc wk)) ws \<Longrightarrow> list_all (\<lambda>wk. is_finished (wk_pc wk)) ws \<Longrightarrow>
        \<exists>s. fst (config_run g env ords ordh sched c w) = Returned (Inr s)" by metis
  show ?thesis using x(2) pan fin unfolding x(1) by simp
qed

text \<open>
  C2: A run ends. If the context is done from tick \<open>N\<close> on, which the timeout of \<open>Duration\<close> sees to, then
  under every schedule that keeps naming every worker the run returns a result: the number of turns a
  worker needs is bounded in advance.
\<close>

theorem run_returns:
  fixes env :: "'e run_env"
  assumes "good_world w" "opened w = {}" "run_safe env c"
    and "\<forall>t\<ge>N. env_ctx_done env t"
    and "\<forall>i<nat (cf_Concurrency c). 8 * (N - w_tick w) + 3 * nat (cf_Concurrency c) < count_list sched i"
  shows "\<exists>res. fst (config_run g env ords ordh sched c w) = Returned res"
proof (cases "Validate c")
  case (Some e)
  then show ?thesis by (simp add: config_run_def)
next
  case None
  obtain res w1 where np: "newConnPool (cf_ConnModel c) (bench_dial_of g c) w = (res, w1)"
    by (cases "newConnPool (cf_ConnModel c) (bench_dial_of g c) w")
  show ?thesis
  proof (cases res)
    case (Inl e)
    then show ?thesis using None np by (simp add: config_run_def)
  next
    case (Inr p)
    from run_finishes [OF assms None np [unfolded Inr]] show ?thesis by blast
  qed
qed

lemma count_list_replicate_same: "count_list (replicate n x) x = n"
  by (induction n) simp_all

text \<open>The default configuration, with sixty turns for its one worker, in an environment whose time is up at tick five.\<close>

lemma quiet_pool:
  "newConnPool (cf_ConnModel (New :: nat Config)) (bench_dial_of quiet_lib New) world0 =
     (Inr (perWorkerPool (bench_dial_of quiet_lib (New :: nat Config))), world0)"
  by (simp add: newConnPool_def New_def)

lemma quiet_env:
  "run_safe env (New :: nat Config) \<longleftrightarrow> (\<forall>t n. 0 < n \<longrightarrow> 0 \<le> env_intN env t n \<and> env_intN env t n < n)"
  "\<forall>i<nat (cf_Concurrency (New :: nat Config)).
     8 * (5 - w_tick world0) + 3 * nat (cf_Concurrency (New :: nat Config)) < count_list (replicate 60 0) i"
  by (simp_all add: run_safe_def New_def weights_ok_def allocatable_def maxAlloc_def world0_def count_list_replicate_same)

lemma quiet_run:
  fixes env :: "nat run_env"
  assumes "run_safe env (New :: nat Config)" "\<forall>t\<ge>5. env_ctx_done env t"
  obtains s w' where "config_run quiet_lib env ords ordh (replicate 60 0) (New :: nat Config) world0 = (Returned (Inr s), w')"
  using run_finishes [OF good_world0 assms quiet_env(2) Validate_New quiet_pool] by (metis prod.collapse)

lemma example_env_safe: "run_safe example_env (New :: nat Config)" "\<forall>t\<ge>5. env_ctx_done example_env t"
  by (simp_all add: quiet_env(1) example_env_def)

theorem run_returns_witness:
  "\<exists>res. fst (config_run quiet_lib example_env example_orders rev (replicate 60 0)
     (New :: nat Config) world0) = Returned res"
  by (rule run_returns [OF good_world0, of _ _ 5])
    (simp_all add: run_safe_def New_def weights_ok_def allocatable_def maxAlloc_def example_env_def world0_def count_list_replicate_same)

text \<open>
  What the summary of a run is made of: the results of its workers, every call accounted for.
\<close>

lemma run_accounts:
  fixes env :: "'e run_env"
  assumes "good_world w" "opened w = {}"
    and run: "config_run g env ords ordh sched c w = (Returned (Inr s), w')"
  shows "\<exists>results. s = aggregate (env_status env) ords results (elapsed results) (cf_ConnModel c) \<and>
    no_cancellation env results \<and>
    length (filter of_call results) \<le> calls w' - calls w \<and>
    calls w' - calls w \<le> length (filter of_call results) + nat (cf_Concurrency c)"
proof -
  have None: "Validate c = None" using run by (cases "Validate c") (auto simp: config_run_def)
  then obtain sel where sel: "NewPayloadSelector (cf_Payload c) = Some sel" using Validate_selector by blast
  obtain res w1 where np: "newConnPool (cf_ConnModel c) (bench_dial_of g c) w = (res, w1)"
    by (cases "newConnPool (cf_ConnModel c) (bench_dial_of g c) w")
  obtain p where p: "res = Inr p" using run None np by (cases res) (auto simp: config_run_def)
  note np = np [unfolded p]
  note sys = run_system [OF np assms(1,2)]
  let ?st = "(start_workers c ordh sel, w1) :: ('e ConnSource, 'e) system"
  have al: "alloc_ok 8 (cf_Concurrency c)" using run None np by (auto simp: config_run_def split: if_splits)
  from config_run_pieces [OF run None np sel al] obtain ws w2 where
    x: "exec (iface g p) (call_release g) env sched ?st = (ws, w2)"
      "list_all (\<lambda>wk. is_finished (wk_pc wk)) ws" "w' = snd (ConnPool_Close g p w2)"
      "s = aggregate (env_status env) ords (collect_results ws) (elapsed (collect_results ws)) (cf_ConnModel c)"
    by (metis outcome.distinct(1,3) outcome.inject sum.inject(2))
  from conn_pool.run_inv_exec [OF sys(1) run_inv_start [OF np assms(1,2), of env c ordh sel], of sched] x(1)
  have r: "run_inv env w (pool_conns p) source_conns (valid_source p) (ws, w2)" by simp
  have c': "calls w' = calls w2"
    using pool_closed [OF sys(1) _ x(2)] r x(3) by (simp add: run_inv_def)
  have n: "length (filter of_call (collect_results ws)) = sum_list (map reported ws)"
    by (induction ws) (simp_all add: collect_results_def reported_def)
  have fin: "sum_list (map (\<lambda>wk. reported wk + in_flight (wk_pc wk)) ws) = sum_list (map reported ws)"
      "sum_list (map (\<lambda>wk. reported wk + may_drop (wk_pc wk)) ws) = sum_list (map reported ws) + length ws"
    using x(2) by (induction ws) (auto simp: finished_pc)
  have len: "length ws = nat (cf_Concurrency c)"
    using length_exec [of "iface g p" "call_release g" env sched ?st] x(1)
    by (simp add: start_workers_def Let_def)
  have "no_cancellation env (collect_results ws)"
    using r by (auto simp: run_inv_def collect_results_def no_cancellation_def)
  with r fin n len c' x(4) show ?thesis
    by (intro exI [of _ "collect_results ws"]) (auto simp: run_inv_def)
qed

text \<open>
  C3: The summary of a run reports what happened: it aggregates a list of results in which no recorded
  RPC error is a cancellation, and every call the run sent is in it, except at most one call per
  worker, dropped when the time was up.
\<close>

theorem run_reports_every_call:
  fixes env :: "'e run_env"
  assumes "good_world w" "opened w = {}"
    and run: "config_run g env ords ordh sched c w = (Returned (Inr s), w')"
  shows "\<exists>results. s = aggregate (env_status env) ords results (elapsed results) (cf_ConnModel c) \<and>
    no_cancellation env results \<and>
    length (filter of_call results) \<le> calls w' - calls w \<and>
    calls w' - calls w \<le> length (filter of_call results) + nat (cf_Concurrency c)"
  by (rule run_accounts [OF assms])

theorem run_reports_every_call_witness:
  "\<exists>s w' (results :: nat werr Result list). config_run quiet_lib example_env example_orders rev (replicate 60 0) (New :: nat Config) world0 =
     (Returned (Inr s), w') \<and> calls w' - calls world0 \<le> length (filter of_call results) + 1 \<and>
     length (filter of_call results) \<le> calls w'"
proof -
  let ?c = "New :: nat Config"
  obtain s w' where run: "config_run quiet_lib example_env example_orders rev (replicate 60 0) ?c world0 =
      (Returned (Inr s), w')"
    using quiet_run [OF example_env_safe] .
  have c: "nat (cf_Concurrency ?c) = 1" "calls world0 = 0" by (simp_all add: New_def calls_def world0_def)
  from run_reports_every_call [OF good_world0 run] obtain results :: "nat werr Result list" where
    "length (filter of_call results) \<le> calls w' - calls world0"
    "calls w' - calls world0 \<le> length (filter of_call results) + nat (cf_Concurrency ?c)" by blast
  with run show ?thesis unfolding c by auto
qed

end
