(* ===== verification/Report_Json.thy ===== *)
theory Report_Json
  imports Config Json
begin

text \<open>
  \<open>pkg/bench/report_json.go\<close>: the JSON view of a run. The records follow the Go structs and \<open>json_of_*\<close>
  their struct tags: fields in order, maps sorted by key, which is what \<open>encoding/json\<close> does with
  them. A JSON document is a value here; its spelling (indentation, escapes, the shortest decimal of a
  float) belongs to the encoder. Marshalling a string replaces invalid UTF-8 by U+FFFD.
\<close>

section \<open>The code\<close>

datatype json_error = NotAString | BadDuration string | UnknownShape string

text \<open>\<open>json.Unmarshal(b, &s)\<close> into an empty string variable: null leaves it empty.\<close>

definition unmarshal_string :: "json \<Rightarrow> json_error + string" where
  "unmarshal_string b = (case b of JString s \<Rightarrow> Inr s | JNull \<Rightarrow> Inr [] | _ \<Rightarrow> Inl NotAString)"

type_synonym jsonDuration = duration

definition jsonDuration_MarshalJSON :: "jsonDuration \<Rightarrow> json" where
  "jsonDuration_MarshalJSON d = marshal_string (Duration_String d)"

definition jsonDuration_UnmarshalJSON :: "json \<Rightarrow> json_error + jsonDuration" where
  "jsonDuration_UnmarshalJSON b =
     (case unmarshal_string b of
        Inl e \<Rightarrow> Inl e
      | Inr s \<Rightarrow>
          if s = [] then Inr 0
          else (case ParseDuration s of None \<Rightarrow> Inl (BadDuration s) | Some d \<Rightarrow> Inr d))"

type_synonym jsonPayloadShape = PayloadShape

definition jsonPayloadShape_MarshalJSON :: "jsonPayloadShape \<Rightarrow> json" where
  "jsonPayloadShape_MarshalJSON p =
     (case payloadShapeFlagNames p of
        Some name \<Rightarrow> marshal_string name
      | None \<Rightarrow> marshal_string (PayloadShape_String p))"

definition jsonPayloadShape_UnmarshalJSON :: "json \<Rightarrow> json_error + jsonPayloadShape" where
  "jsonPayloadShape_UnmarshalJSON b =
     (case unmarshal_string b of
        Inl e \<Rightarrow> Inl e
      | Inr s \<Rightarrow>
          (case payloadShapeNames s of
             Some shape \<Rightarrow> Inr shape
           | None \<Rightarrow>
               (case PayloadShape_value s of
                  Some shape \<Rightarrow> Inr shape
                | None \<Rightarrow> Inl (UnknownShape s))))"

record jsonPayloadEntry =
  jp_Shape :: jsonPayloadShape
  jp_Weight :: int64

record jsonConfig =
  jc_Target :: string
  jc_Plaintext :: bool
  jc_Concurrency :: int64
  jc_Duration :: jsonDuration
  jc_Payload :: "jsonPayloadEntry list"
  jc_EmbeddingDim :: int64
  jc_BytesSize :: int64
  jc_StringLen :: int64
  jc_Compression :: string
  jc_ConnModel :: string
  jc_Labels :: "(string \<times> string) list"

record jsonLatencyStats =
  jl_Count :: int
  jl_Min :: jsonDuration
  jl_Mean :: jsonDuration
  jl_Stddev :: jsonDuration
  jl_Max :: jsonDuration
  jl_P50 :: jsonDuration
  jl_P90 :: jsonDuration
  jl_P99 :: jsonDuration

record jsonBackendStats =
  jb_Key :: string
  jb_Source :: string
  jb_Count :: int
  jb_ErrorCount :: int
  jb_PercentOfTotal :: float64
  jb_P50 :: jsonDuration
  jb_P99 :: jsonDuration

record jsonBackendSkew =
  jk_CountRatio :: float64
  jk_P99Ratio :: float64

record jsonErrorMessage =
  jm_Message :: string
  jm_Count :: int

record jsonStatusCode =
  je_Code :: code
  je_CodeName :: string
  je_Count :: int
  je_TopMessages :: "jsonErrorMessage list"

record jsonSummary =
  js_Count :: int
  js_ErrorCount :: int
  js_Elapsed :: jsonDuration
  js_Throughput :: float64
  js_ConnModel :: string
  js_Total :: jsonLatencyStats
  js_Server :: jsonLatencyStats
  js_Network :: jsonLatencyStats
  js_Upstream :: jsonLatencyStats
  js_Backends :: "jsonBackendStats list"
  js_BackendSkew :: jsonBackendSkew
  js_Errors :: "jsonStatusCode list"

record jsonReport =
  jr_Config :: jsonConfig
  jr_Summary :: jsonSummary

definition newJSONConfig :: "'o Config \<Rightarrow> jsonConfig" where
  "newJSONConfig c =
     \<lparr>jc_Target = cf_Target c, jc_Plaintext = cf_Plaintext c, jc_Concurrency = cf_Concurrency c,
      jc_Duration = cf_Duration c,
      jc_Payload = map (\<lambda>e. \<lparr>jp_Shape = Shape e, jp_Weight = Weight e\<rparr>) (cf_Payload c),
      jc_EmbeddingDim = cf_EmbeddingDim c, jc_BytesSize = cf_BytesSize c, jc_StringLen = cf_StringLen c,
      jc_Compression = cf_Compression c, jc_ConnModel = cf_ConnModel c, jc_Labels = cf_Labels c\<rparr>"

definition toJSONLatencyStats :: "LatencyStats \<Rightarrow> jsonLatencyStats" where
  "toJSONLatencyStats l =
     \<lparr>jl_Count = ls_Count l, jl_Min = ls_Min l, jl_Mean = ls_Mean l, jl_Stddev = ls_Stddev l,
      jl_Max = ls_Max l, jl_P50 = ls_P50 l, jl_P90 = ls_P90 l, jl_P99 = ls_P99 l\<rparr>"

definition toJSONBackend :: "BackendStats \<Rightarrow> jsonBackendStats" where
  "toJSONBackend b =
     \<lparr>jb_Key = be_Key b, jb_Source = be_Source b, jb_Count = be_Count b, jb_ErrorCount = be_ErrorCount b,
      jb_PercentOfTotal = be_PercentOfTotal b, jb_P50 = be_P50 b, jb_P99 = be_P99 b\<rparr>"

definition toJSONCode :: "StatusCodeStats \<Rightarrow> jsonStatusCode" where
  "toJSONCode e =
     \<lparr>je_Code = sc_Code e, je_CodeName = sc_CodeName e, je_Count = sc_Count e,
      je_TopMessages = map (\<lambda>m. \<lparr>jm_Message = em_Message m, jm_Count = em_Count m\<rparr>) (sc_TopMessages e)\<rparr>"

definition newJSONSummary :: "Summary \<Rightarrow> jsonSummary" where
  "newJSONSummary s =
     (let backends = map toJSONBackend (s_Backends s);
          errs = map toJSONCode (s_Errors s)
      in \<lparr>js_Count = s_Count s, js_ErrorCount = s_ErrorCount s, js_Elapsed = s_Elapsed s,
          js_Throughput = s_Throughput s, js_ConnModel = s_ConnModel s,
          js_Total = toJSONLatencyStats (s_Total s), js_Server = toJSONLatencyStats (s_Server s),
          js_Network = toJSONLatencyStats (s_Network s), js_Upstream = toJSONLatencyStats (s_Upstream s),
          js_Backends = backends,
          js_BackendSkew = \<lparr>jk_CountRatio = sk_CountRatio (s_BackendSkew s),
            jk_P99Ratio = sk_P99Ratio (s_BackendSkew s)\<rparr>,
          js_Errors = errs\<rparr>)"

definition newJSONReport :: "'o Config \<Rightarrow> Summary \<Rightarrow> jsonReport" where
  "newJSONReport c s = \<lparr>jr_Config = newJSONConfig c, jr_Summary = newJSONSummary s\<rparr>"

section \<open>The struct tags\<close>

definition json_of_entry :: "jsonPayloadEntry \<Rightarrow> json" where
  "json_of_entry e =
     JObject [(''shape'', jsonPayloadShape_MarshalJSON (jp_Shape e)), (''weight'', JInt (jp_Weight e))]"

text \<open>A map is written with its keys sorted.\<close>

definition json_of_labels :: "(string \<times> string) list \<Rightarrow> json" where
  "json_of_labels m =
     JObject (map (\<lambda>k. (to_valid_utf8 k, marshal_string (case map_of m k of Some v \<Rightarrow> v | None \<Rightarrow> [])))
       (sort_slice (<) (map fst m)))"

definition json_of_config :: "jsonConfig \<Rightarrow> json" where
  "json_of_config c = JObject
     [(''target'', marshal_string (jc_Target c)), (''plaintext'', JBool (jc_Plaintext c)),
      (''concurrency'', JInt (jc_Concurrency c)), (''duration'', jsonDuration_MarshalJSON (jc_Duration c)),
      (''payload'', JArray (map json_of_entry (jc_Payload c))),
      (''embedding_dim'', JInt (jc_EmbeddingDim c)), (''bytes_size'', JInt (jc_BytesSize c)),
      (''string_len'', JInt (jc_StringLen c)), (''compression'', marshal_string (jc_Compression c)),
      (''conn_model'', marshal_string (jc_ConnModel c)), (''labels'', json_of_labels (jc_Labels c))]"

definition json_of_latency :: "jsonLatencyStats \<Rightarrow> json" where
  "json_of_latency l = JObject
     [(''count'', JInt (jl_Count l)), (''min'', jsonDuration_MarshalJSON (jl_Min l)),
      (''mean'', jsonDuration_MarshalJSON (jl_Mean l)), (''stddev'', jsonDuration_MarshalJSON (jl_Stddev l)),
      (''max'', jsonDuration_MarshalJSON (jl_Max l)), (''p50'', jsonDuration_MarshalJSON (jl_P50 l)),
      (''p90'', jsonDuration_MarshalJSON (jl_P90 l)), (''p99'', jsonDuration_MarshalJSON (jl_P99 l))]"

definition json_of_backend :: "jsonBackendStats \<Rightarrow> json" where
  "json_of_backend b = JObject
     [(''key'', marshal_string (jb_Key b)), (''source'', marshal_string (jb_Source b)),
      (''count'', JInt (jb_Count b)), (''error_count'', JInt (jb_ErrorCount b)),
      (''percent_of_total'', JFloat (jb_PercentOfTotal b)), (''p50'', jsonDuration_MarshalJSON (jb_P50 b)),
      (''p99'', jsonDuration_MarshalJSON (jb_P99 b))]"

definition json_of_skew :: "jsonBackendSkew \<Rightarrow> json" where
  "json_of_skew k = JObject
     [(''count_ratio'', JFloat (jk_CountRatio k)), (''p99_ratio'', JFloat (jk_P99Ratio k))]"

definition json_of_message :: "jsonErrorMessage \<Rightarrow> json" where
  "json_of_message m = JObject [(''message'', marshal_string (jm_Message m)), (''count'', JInt (jm_Count m))]"

definition json_of_code :: "jsonStatusCode \<Rightarrow> json" where
  "json_of_code e = JObject
     [(''code'', JInt (int (je_Code e))), (''code_name'', marshal_string (je_CodeName e)),
      (''count'', JInt (je_Count e)), (''top_messages'', JArray (map json_of_message (je_TopMessages e)))]"

definition json_of_summary :: "jsonSummary \<Rightarrow> json" where
  "json_of_summary s = JObject
     [(''count'', JInt (js_Count s)), (''error_count'', JInt (js_ErrorCount s)),
      (''elapsed'', jsonDuration_MarshalJSON (js_Elapsed s)), (''throughput_rps'', JFloat (js_Throughput s)),
      (''conn_model'', marshal_string (js_ConnModel s)), (''total'', json_of_latency (js_Total s)),
      (''server'', json_of_latency (js_Server s)), (''network'', json_of_latency (js_Network s)),
      (''upstream'', json_of_latency (js_Upstream s)),
      (''backends'', JArray (map json_of_backend (js_Backends s))),
      (''backend_skew'', json_of_skew (js_BackendSkew s)),
      (''errors'', JArray (map json_of_code (js_Errors s)))]"

definition json_of_report :: "jsonReport \<Rightarrow> json" where
  "json_of_report r = JObject
     [(''config'', json_of_config (jr_Config r)), (''summary'', json_of_summary (jr_Summary r))]"

text \<open>\<open>writeJSONReport\<close> hands this value to the encoder of its writer.\<close>

definition writeJSONReport :: "'o Config \<Rightarrow> Summary \<Rightarrow> json" where
  "writeJSONReport c s = json_of_report (newJSONReport c s)"

section \<open>Nothing is lost\<close>

lemma duration_roundtrip:
  "in_int64 d \<Longrightarrow> jsonDuration_UnmarshalJSON (jsonDuration_MarshalJSON d) = Inr d"
  by (simp add: jsonDuration_UnmarshalJSON_def jsonDuration_MarshalJSON_def unmarshal_string_def
      marshal_valid valid_utf8_Duration_String Duration_String_nonempty ParseDuration_String)

lemma duration_inject:
  "in_int64 a \<Longrightarrow> in_int64 b \<Longrightarrow> jsonDuration_MarshalJSON a = jsonDuration_MarshalJSON b \<longleftrightarrow> a = b"
  by (metis Inr_inject duration_roundtrip)

lemma string_inject: "valid_utf8 a \<Longrightarrow> valid_utf8 b \<Longrightarrow> marshal_string a = marshal_string b \<longleftrightarrow> a = b"
  by (simp add: marshal_valid)

text \<open>What makes a summary representable: durations of 64 bits and valid UTF-8.\<close>

definition latency_ok :: "LatencyStats \<Rightarrow> bool" where
  "latency_ok l \<longleftrightarrow> in_int64 (ls_Min l) \<and> in_int64 (ls_Mean l) \<and> in_int64 (ls_Stddev l) \<and> in_int64 (ls_Max l) \<and>
     in_int64 (ls_P50 l) \<and> in_int64 (ls_P90 l) \<and> in_int64 (ls_P99 l)"

definition backend_ok :: "BackendStats \<Rightarrow> bool" where
  "backend_ok b \<longleftrightarrow> valid_utf8 (be_Key b) \<and> valid_utf8 (be_Source b) \<and> in_int64 (be_P50 b) \<and> in_int64 (be_P99 b)"

definition code_ok :: "StatusCodeStats \<Rightarrow> bool" where
  "code_ok e \<longleftrightarrow> valid_utf8 (sc_CodeName e) \<and> list_all (\<lambda>m. valid_utf8 (em_Message m)) (sc_TopMessages e)"

definition summary_ok :: "Summary \<Rightarrow> bool" where
  "summary_ok s \<longleftrightarrow> in_int64 (s_Elapsed s) \<and> valid_utf8 (s_ConnModel s) \<and> latency_ok (s_Total s) \<and>
     latency_ok (s_Server s) \<and> latency_ok (s_Network s) \<and> latency_ok (s_Upstream s) \<and>
     list_all backend_ok (s_Backends s) \<and> list_all code_ok (s_Errors s)"

lemma map_inject_on:
  assumes "\<And>x y. P x \<Longrightarrow> P y \<Longrightarrow> f x = f y \<Longrightarrow> x = y" "list_all P xs" "list_all P ys" "map f xs = map f ys"
  shows "xs = ys"
  using assms(2-4)
proof (induction xs arbitrary: ys)
  case Nil
  then show ?case by simp
next
  case (Cons x xs)
  then obtain y ys' where ys: "ys = y # ys'" "f x = f y" "map f xs = map f ys'" by (cases ys) auto
  have "x = y" using assms(1) [of x y] Cons.prems ys by simp
  moreover have "xs = ys'" using Cons.IH [of ys'] Cons.prems(1,2) ys(1,3) by simp
  ultimately show ?case using ys(1) by simp
qed

lemma latency_inject:
  assumes "latency_ok a" "latency_ok b"
    and "json_of_latency (toJSONLatencyStats a) = json_of_latency (toJSONLatencyStats b)"
  shows "a = b"
  using assms
  by (cases a; cases b; simp only: latency_ok_def json_of_latency_def toJSONLatencyStats_def)
    (simp add: duration_inject)

lemma message_inject:
  fixes a b :: ErrorMessageStat
  assumes "valid_utf8 (em_Message a)" "valid_utf8 (em_Message b)"
    and "json_of_message \<lparr>jm_Message = em_Message a, jm_Count = em_Count a\<rparr> =
      json_of_message \<lparr>jm_Message = em_Message b, jm_Count = em_Count b\<rparr>"
  shows "a = b"
  using assms by (intro ErrorMessageStat.equality; simp add: json_of_message_def string_inject)

lemma backend_inject:
  fixes a b :: BackendStats
  assumes "backend_ok a" "backend_ok b"
    and "json_of_backend (toJSONBackend a) = json_of_backend (toJSONBackend b)"
  shows "a = b"
  using assms
  by (intro BackendStats.equality; simp add: backend_ok_def json_of_backend_def toJSONBackend_def
      string_inject duration_inject)

lemma code_inject:
  fixes a b :: StatusCodeStats
  assumes "code_ok a" "code_ok b"
    and "json_of_code (toJSONCode a) = json_of_code (toJSONCode b)"
  shows "a = b"
proof -
  have "map (\<lambda>m. json_of_message \<lparr>jm_Message = em_Message m, jm_Count = em_Count m\<rparr>) (sc_TopMessages a) =
      map (\<lambda>m. json_of_message \<lparr>jm_Message = em_Message m, jm_Count = em_Count m\<rparr>) (sc_TopMessages b)"
    using assms(3) by (simp add: json_of_code_def toJSONCode_def comp_def)
  then have "sc_TopMessages a = sc_TopMessages b"
    using assms(1,2)
    by (intro map_inject_on [where P = "\<lambda>m. valid_utf8 (em_Message m)", OF message_inject])
      (simp_all add: code_ok_def)
  with assms show ?thesis
    by (intro StatusCodeStats.equality; simp add: code_ok_def json_of_code_def toJSONCode_def string_inject)
qed

lemma summary_inject:
  fixes a b :: Summary
  assumes ok: "summary_ok a" "summary_ok b"
    and eq: "json_of_summary (newJSONSummary a) = json_of_summary (newJSONSummary b)"
  shows "a = b"
proof -
  note d = json_of_summary_def newJSONSummary_def Let_def
  note o = ok [unfolded summary_ok_def]
  have flat: "s_Count a = s_Count b" "s_ErrorCount a = s_ErrorCount b" "s_Elapsed a = s_Elapsed b"
    "s_Throughput a = s_Throughput b" "s_ConnModel a = s_ConnModel b"
    using eq o by (simp_all add: d duration_inject string_inject)
  have blocks: "s_Total a = s_Total b" "s_Server a = s_Server b" "s_Network a = s_Network b"
    "s_Upstream a = s_Upstream b"
    using eq o by (auto simp: d intro: latency_inject)
  have skew: "s_BackendSkew a = s_BackendSkew b"
    using eq by (intro BackendSkew.equality; simp add: d json_of_skew_def)
  have "map (\<lambda>x. json_of_backend (toJSONBackend x)) (s_Backends a) =
      map (\<lambda>x. json_of_backend (toJSONBackend x)) (s_Backends b)"
    using eq by (simp add: d toJSONBackend_def comp_def)
  then have backends: "s_Backends a = s_Backends b"
    using o by (intro map_inject_on [where P = backend_ok, OF backend_inject]) simp_all
  have "map (\<lambda>x. json_of_code (toJSONCode x)) (s_Errors a) = map (\<lambda>x. json_of_code (toJSONCode x)) (s_Errors b)"
    using eq by (simp add: d toJSONCode_def comp_def)
  then have "s_Errors a = s_Errors b"
    using o by (intro map_inject_on [where P = code_ok, OF code_inject]) simp_all
  with flat blocks skew backends show ?thesis by (intro Summary.equality) simp_all
qed

lemma show_int_ascii: "valid_utf8 (show_int w)"
  by (simp add: show_int_def valid_utf8_show_nat valid_utf8_Cons)

lemma hd_show_int: "hd (show_int w) = CHR ''-'' \<or> is_digit (hd (show_int w))"
  using list_all_show_nat [of "nat w"] show_nat_nonempty [of "nat w"]
  by (auto simp: show_int_def list_all_iff)

lemma map_of_hd_None: "list_all (\<lambda>(n, _). \<not> P (hd n)) t \<Longrightarrow> P (hd s) \<Longrightarrow> map_of t s = None"
  by (force simp: map_of_eq_None_iff list_all_iff)

lemma shape_tables_letters:
  assumes "hd s = CHR ''-'' \<or> is_digit (hd s)"
  shows "payloadShapeNames s = None" "PayloadShape_value s = None"
  unfolding payloadShapeNames_def PayloadShape_value_def
  by (rule map_of_hd_None [where P = "\<lambda>c. c = CHR ''-'' \<or> is_digit c"];
      simp add: payload_shape_table_def is_digit_def assms [unfolded is_digit_def])+

lemma shape_names_roundtrip:
  assumes "p \<in> {0, 1, 2, 3, 4, 5}"
  shows "jsonPayloadShape_UnmarshalJSON (jsonPayloadShape_MarshalJSON p) = Inr p"
proof -
  have "marshal_string n = JString n" if "list_all (\<lambda>c. byte c < 0x80) n" for n
    by (rule marshal_valid [OF valid_utf8_ascii [OF that]])
  then show ?thesis
    using assms
    by (auto simp: jsonPayloadShape_MarshalJSON_def jsonPayloadShape_UnmarshalJSON_def unmarshal_string_def
        PayloadShape_String_def PayloadShape_name_def PayloadShape_value_def payloadShapeFlagNames_def
        payloadShapeNames_def payload_shape_table_def)
qed

section \<open>Properties\<close>

text \<open>
  C17: A duration survives the JSON report: unmarshalling what \<open>MarshalJSON\<close> wrote gives back every
  duration of 64 bits, to the nanosecond, through the text of \<open>Duration.String\<close> and the floating-point
  fractions of \<open>ParseDuration\<close>.
\<close>

theorem json_duration_roundtrip:
  assumes "in_int64 d"
  shows "jsonDuration_UnmarshalJSON (jsonDuration_MarshalJSON d) = Inr d"
  using assms by (rule duration_roundtrip)

theorem json_duration_roundtrip_witness:
  "jsonDuration_UnmarshalJSON (jsonDuration_MarshalJSON (- 9223372036854775808)) = Inr (- 9223372036854775808) \<and>
   jsonDuration_UnmarshalJSON (jsonDuration_MarshalJSON 3723000000450) = Inr 3723000000450"
  by (intro conjI json_duration_roundtrip) (simp_all add: in_int64_def)

text \<open>
  The JSON name of a payload shape reads back as the shape for every value the enum defines, and
  only for those: an unknown number is written in decimal and \<open>UnmarshalJSON\<close> rejects that text.
\<close>

theorem json_shape_roundtrip:
  "jsonPayloadShape_UnmarshalJSON (jsonPayloadShape_MarshalJSON p) =
     (if PayloadShape_name p \<noteq> None then Inr p else Inl (UnknownShape (show_int (sint p))))"
proof (cases "PayloadShape_name p")
  case None
  then have "payloadShapeFlagNames p = None" "PayloadShape_String p = show_int (sint p)"
    by (auto simp: PayloadShape_name_def payloadShapeFlagNames_def payload_shape_table_def
        PayloadShape_String_def split: if_splits)
  then show ?thesis
    using None shape_tables_letters [OF hd_show_int [of "sint p"]]
    by (simp add: jsonPayloadShape_MarshalJSON_def jsonPayloadShape_UnmarshalJSON_def unmarshal_string_def
        marshal_valid [OF show_int_ascii])
next
  case (Some n)
  then have "p \<in> {0, 1, 2, 3, 4, 5}" by (auto simp: PayloadShape_name_def split: if_splits)
  then show ?thesis using shape_names_roundtrip Some by auto
qed

text \<open>
  C21: The JSON report loses nothing of a summary: with strings of valid UTF-8 and durations of 64 bits,
  two reports are the same document exactly when the summaries are equal.
\<close>

theorem json_report_lossless:
  assumes "summary_ok s" "summary_ok t"
  shows "writeJSONReport c s = writeJSONReport c t \<longleftrightarrow> s = t"
  using summary_inject [OF assms]
  by (auto simp: writeJSONReport_def json_of_report_def newJSONReport_def)

definition example_summary :: "string \<Rightarrow> duration \<Rightarrow> Summary" where
  "example_summary msg d =
     \<lparr>s_Count = 1, s_ErrorCount = 1, s_Elapsed = d, s_Throughput = 0, s_ConnModel = ConnModelShared,
      s_Total = zero_LatencyStats, s_Server = zero_LatencyStats, s_Network = zero_LatencyStats,
      s_Upstream = zero_LatencyStats\<lparr>ls_P99 := d\<rparr>, s_Backends = [],
      s_BackendSkew = \<lparr>sk_CountRatio = 0, sk_P99Ratio = 0\<rparr>,
      s_Errors = [\<lparr>sc_Code = 14, sc_CodeName = ''Unavailable'', sc_Count = 1,
        sc_TopMessages = [\<lparr>em_Message = msg, em_Count = 1\<rparr>]\<rparr>]\<rparr>"

lemma example_summary_ok:
  "list_all (\<lambda>c. byte c < 0x80) msg \<Longrightarrow> in_int64 d \<Longrightarrow> summary_ok (example_summary msg d)"
  by (simp add: summary_ok_def example_summary_def latency_ok_def code_ok_def zero_LatencyStats_def
      ConnModelShared_def valid_utf8_ascii in_int64_def)

theorem json_report_lossless_witness:
  "writeJSONReport (New :: nat Config) (example_summary ''refused'' 7) \<noteq> writeJSONReport (New :: nat Config) (example_summary ''reset'' 7) \<and>
   writeJSONReport (New :: nat Config) (example_summary ''reset'' 7) \<noteq> writeJSONReport (New :: nat Config) (example_summary ''reset'' 8)"
  by (intro conjI; subst json_report_lossless [OF example_summary_ok example_summary_ok])
    (simp_all add: in_int64_def example_summary_def)

end
