(* ===== verification/Gofmt.thy ===== *)
theory Gofmt
  imports Durations
begin

text \<open>
  The verbs of \<open>fmt\<close> the program prints with, next to \<open>%d\<close> and \<open>%s\<close>: \<open>%.Nf\<close> on an exact float
  (rounded half to even on the exact value, as \<open>strconv\<close> does) and \<open>%q\<close> on a string. The table behind
  \<open>strconv.IsPrint\<close> is a parameter above Latin-1, where the function is written out. The second part
  counts the newlines of what is printed.
\<close>

section \<open>Fixed point\<close>

definition pad_zeros :: "nat \<Rightarrow> string \<Rightarrow> string" where
  "pad_zeros n s = replicate (n - length s) CHR ''0'' @ s"

definition format_f :: "nat \<Rightarrow> float64 \<Rightarrow> string" where
  "format_f prec x =
     (let n = nat (rne (\<bar>x\<bar> * 10 ^ prec));
          body = show_nat (n div 10 ^ prec) @ CHR ''.'' # pad_zeros prec (show_nat (n mod 10 ^ prec))
      in if x < 0 then CHR ''-'' # body else body)"

section \<open>Quoted strings\<close>

definition hex_digit :: "nat \<Rightarrow> char" where
  "hex_digit n = (if n < 10 then digit n else char_of (87 + n))"

definition is_print :: "(rune \<Rightarrow> bool) \<Rightarrow> rune \<Rightarrow> bool" where
  "is_print table r =
     (if r \<le> 0xFF then 0x20 \<le> r \<and> r < 0x7F \<or> 0xA1 \<le> r \<and> r \<noteq> 0xAD else table r)"

definition hex2 :: "nat \<Rightarrow> string" where
  "hex2 n = [hex_digit (n div 16 mod 16), hex_digit (n mod 16)]"

definition hex4 :: "nat \<Rightarrow> string" where
  "hex4 n = hex2 (n div 256) @ hex2 n"

definition escaped_rune :: "(rune \<Rightarrow> bool) \<Rightarrow> rune \<Rightarrow> string" where
  "escaped_rune table r =
     (if r = 0x22 \<or> r = 0x5C then [CHR 0x5C, char_of r]
      else if is_print table r then encode_rune r
      else if r = 7 then [CHR 0x5C, CHR ''a'']
      else if r = 8 then [CHR 0x5C, CHR ''b'']
      else if r = 12 then [CHR 0x5C, CHR ''f'']
      else if r = 10 then [CHR 0x5C, CHR ''n'']
      else if r = 13 then [CHR 0x5C, CHR ''r'']
      else if r = 9 then [CHR 0x5C, CHR ''t'']
      else if r = 11 then [CHR 0x5C, CHR ''v'']
      else if r < 0x20 \<or> r = 0x7F then [CHR 0x5C, CHR ''x''] @ hex2 r
      else if r < 0x10000 then [CHR 0x5C, CHR ''u''] @ hex4 r
      else [CHR 0x5C, CHR ''U''] @ hex4 (r div 65536) @ hex4 r)"

function quote_loop :: "(rune \<Rightarrow> bool) \<Rightarrow> string \<Rightarrow> string" where
  "quote_loop table s =
     (if s = [] then []
      else
        let (r, width) = decode_rune s in
        (if width = 1 \<and> r = rune_error then [CHR 0x5C, CHR ''x''] @ hex2 (byte (hd s))
         else escaped_rune table r)
        @ quote_loop table (drop width s))"
  by pat_completeness auto
termination
proof (relation "measure (length \<circ> snd)")
  fix table :: "rune \<Rightarrow> bool" and s :: string and x r width
  assume "s \<noteq> []" "x = decode_rune s" "(r, width) = x"
  then show "((table, drop width s), table, s) \<in> measure (length \<circ> snd)"
    using decode_rune_width [of s] by (cases "decode_rune s") (auto simp: Suc_le_eq)
qed simp

declare quote_loop.simps [simp del]

definition quote :: "(rune \<Rightarrow> bool) \<Rightarrow> string \<Rightarrow> string" where
  "quote table s = CHR 0x22 # quote_loop table s @ [CHR 0x22]"

section \<open>Lines\<close>

abbreviation NL :: char where "NL \<equiv> CHR 0x0A"

definition newlines :: "string \<Rightarrow> nat" where
  "newlines s = count_list s NL"

abbreviation one_line :: "string \<Rightarrow> bool" where
  "one_line s \<equiv> NL \<notin> set s"

lemma newlines_simps [simp]:
  "newlines [] = 0" "newlines (s @ t) = newlines s + newlines t"
  "newlines (c # s) = (if c = NL then Suc (newlines s) else newlines s)"
  by (simp_all add: newlines_def)

lemma newlines_one_line: "one_line s \<Longrightarrow> newlines s = 0"
  by (simp add: newlines_def count_notin)

lemma byte_NL [simp]: "byte NL = 10"
  by simp

lemma char_of_NL: "(n :: nat) < 256 \<Longrightarrow> n \<noteq> 10 \<Longrightarrow> NL \<noteq> char_of n"
  using byte_char_of [of n] byte_NL by fastforce

lemma one_line_digits: "list_all is_digit s \<Longrightarrow> one_line s"
  by (auto simp: list_all_iff is_digit_def)

lemma one_line_show_nat [simp]: "one_line (show_nat n)"
  by (rule one_line_digits [OF list_all_show_nat])

lemma one_line_show_int [simp]: "one_line (show_int x)"
  by (simp add: show_int_def)

lemma one_line_format_f [simp]: "one_line (format_f prec x)"
  by (simp add: format_f_def Let_def pad_zeros_def)

lemma one_line_fraction:
  assumes "one_line buf" "fmt_frac prec v buf = (v', buf')"
  shows "NL \<in> set buf' \<Longrightarrow> False"
proof -
  obtain fr where fr: "fmt_frac prec v buf = (v div 10 ^ prec, fr @ buf)" "fraction_of prec (v mod 10 ^ prec) fr"
    by (rule fmt_frac_fraction)
  have "one_line fr"
    using fr(2) by (auto simp: fraction_of_def dest: one_line_digits)
  then show "NL \<in> set buf' \<Longrightarrow> False" using fr(1) assms by auto
qed

lemma one_line_abs_string: "one_line (abs_string u)"
  unfolding abs_string_def Let_def fmt_int_def
  by (auto simp: unit_ns_def unit_us_def unit_ms_def split: prod.split
      dest: one_line_fraction [OF _ sym, rotated])

lemma one_line_Duration_String [simp]: "one_line (Duration_String d)"
  by (simp add: Duration_String_def Let_def one_line_abs_string)

lemma one_line_hex2: "one_line (hex2 n)"
proof -
  have "hex_digit m \<noteq> NL" if "m < 16" for m :: nat
    using that char_of_NL [of "87 + m"] char_of_NL [of "48 + m"]
    by (auto simp: hex_digit_def digit_def)
  from this [of "n div 16 mod 16"] this [of "n mod 16"] show ?thesis by (auto simp: hex2_def)
qed

lemma one_line_encode: "r \<noteq> 10 \<Longrightarrow> one_line (encode_rune r)"
proof -
  assume r: "r \<noteq> 10"
  have tag: "NL \<noteq> char_of (0x80 + m mod 64)" for m :: nat by (rule char_of_NL) (use mod_less_divisor [of 64 m] in linarith, simp)
  obtain q where q: "q = (if valid_rune r then r else rune_error)" by simp
  have r': "q \<noteq> 10" "q \<le> 0x10FFFF" using r by (auto simp: q rune_error_def valid_rune_def)
  have "q < 0x80 \<Longrightarrow> NL \<noteq> char_of q" using r' by (intro char_of_NL) simp_all
  moreover have "q < 0x800 \<Longrightarrow> NL \<noteq> char_of (0xC0 + q div 64)" by (rule char_of_NL) linarith+
  moreover have "q < 0x10000 \<Longrightarrow> NL \<noteq> char_of (0xE0 + q div 4096)" by (rule char_of_NL) linarith+
  moreover have "NL \<noteq> char_of (0xF0 + q div 262144)" using r'(2) by (intro char_of_NL) linarith+
  ultimately show ?thesis
    unfolding encode_rune_def Let_def q [symmetric] using tag by simp
qed

lemma one_line_escaped: "one_line (escaped_rune table r)"
proof (cases "r = 10")
  case True
  then show ?thesis by (simp add: escaped_rune_def is_print_def)
next
  case False
  then show ?thesis
    using one_line_encode [OF False] one_line_hex2 char_of_NL [of 34] char_of_NL [of 92]
    by (auto simp: escaped_rune_def hex4_def)
qed

lemma one_line_quote_loop: "one_line (quote_loop table s)"
proof (induction table s rule: quote_loop.induct)
  case (1 table s)
  then show ?case
    using one_line_escaped one_line_hex2 by (subst quote_loop.simps) (auto split: prod.split)
qed

lemma one_line_quote [simp]: "one_line (quote table s)"
  by (simp add: quote_def one_line_quote_loop)

lemma one_line_join: "one_line sep \<Longrightarrow> \<forall>x\<in>set xs. one_line x \<Longrightarrow> one_line (join sep xs)"
  by (induction sep xs rule: join.induct) auto

end
