(* ===== verification/Report.thy ===== *)
theory Report
  imports Run Report_Json Gofmt
begin

text \<open>
  \<open>pkg/bench/report.go\<close>: the text report. Every function returns the text the code writes; \<open>table\<close> is
  the table of printable runes that \<open>%q\<close> consults and \<open>ord\<close> the order in which Go visits the labels.
\<close>

section \<open>The code\<close>

definition labelsHeader :: "(string \<times> string) order \<Rightarrow> (string \<times> string) list \<Rightarrow> string" where
  "labelsHeader ord labels =
     (if length labels = 0 then []
      else
        let keys = sort_slice (<) (map fst (ord labels));
            parts = map (\<lambda>k. k @ ''='' @ (case map_of labels k of Some v \<Rightarrow> v | None \<Rightarrow> [])) keys
        in ''Labels:      '' @ join '' '' parts @ [NL])"

definition formatTopMessages :: "(rune \<Rightarrow> bool) \<Rightarrow> ErrorMessageStat list \<Rightarrow> string" where
  "formatTopMessages table msgs =
     (if length msgs = 0 then ''(no message)''
      else join '', ''
        (map (\<lambda>m. quote table (em_Message m) @ '' ('' @ show_int (em_Count m) @ '')'') msgs))"

text \<open>The loops write a newline after every row but the last, which is \<open>join\<close>.\<close>

definition status_row :: "(rune \<Rightarrow> bool) \<Rightarrow> StatusCodeStats \<Rightarrow> string" where
  "status_row table st =
     ''  '' @ sc_CodeName st @ '' ('' @ show_int (sc_Count st) @ '' req): '' @
     formatTopMessages table (sc_TopMessages st)"

definition statusCodeBlock :: "(rune \<Rightarrow> bool) \<Rightarrow> StatusCodeStats list \<Rightarrow> string" where
  "statusCodeBlock table stats =
     (if length stats = 0 then ''Errors by code: n/a''
      else ''Errors by code:'' @ [NL] @ join [NL] (map (status_row table) stats))"

definition formatRatio :: "float64 \<Rightarrow> string" where
  "formatRatio r = (if r = 0 then ''n/a'' else format_f 2 r)"

definition backendSkewLine :: "BackendSkew \<Rightarrow> string" where
  "backendSkewLine s =
     ''Backend skew: count='' @ formatRatio (sk_CountRatio s) @ '' p99='' @ formatRatio (sk_P99Ratio s)"

definition backend_row :: "BackendStats \<Rightarrow> string" where
  "backend_row b =
     (let key = (if be_Key b = [] then ''(unknown)'' else be_Key b)
      in ''  '' @ be_Source b @ ''='' @ key @ '' ('' @ show_int (be_Count b) @ '' req, '' @
         format_f 1 (be_PercentOfTotal b) @ ''%): p50='' @ Duration_String (be_P50 b) @
         '' p99='' @ Duration_String (be_P99 b) @ '' errors='' @ show_int (be_ErrorCount b))"

definition backendsBlock :: "BackendStats list \<Rightarrow> string" where
  "backendsBlock backends =
     (if length backends = 0 then ''Backends: n/a''
      else ''Backends:'' @ [NL] @ join [NL] (map backend_row backends))"

definition latencyStatsBlock :: "string \<Rightarrow> LatencyStats \<Rightarrow> string" where
  "latencyStatsBlock name stats =
     (if ls_Count stats = 0 then ''Latency ('' @ name @ ''): n/a''
      else
        ''Latency ('' @ name @ ''):'' @ [NL] @
        ''  count:  '' @ show_int (ls_Count stats) @ [NL] @
        ''  min:    '' @ Duration_String (ls_Min stats) @ [NL] @
        ''  mean:   '' @ Duration_String (ls_Mean stats) @ [NL] @
        ''  stddev: '' @ Duration_String (ls_Stddev stats) @ [NL] @
        ''  p50:    '' @ Duration_String (ls_P50 stats) @ [NL] @
        ''  p90:    '' @ Duration_String (ls_P90 stats) @ [NL] @
        ''  p99:    '' @ Duration_String (ls_P99 stats) @ [NL] @
        ''  max:    '' @ Duration_String (ls_Max stats))"

definition writeReport :: "(rune \<Rightarrow> bool) \<Rightarrow> (string \<times> string) order \<Rightarrow> 'o Config \<Rightarrow> Summary \<Rightarrow> string" where
  "writeReport table ord c s =
     ''Target:      '' @ cf_Target c @ [NL] @
     ''Concurrency: '' @ show_int (cf_Concurrency c) @ [NL] @
     ''Duration:    '' @ Duration_String (cf_Duration c) @ [NL] @
     ''Conn model:  '' @ s_ConnModel s @ [NL] @
     labelsHeader ord (cf_Labels c) @
     [NL] @
     ''Requests:    '' @ show_int (s_Count s) @ [NL] @
     ''Errors:      '' @ show_int (s_ErrorCount s) @ [NL] @
     ''Elapsed:     '' @ Duration_String (s_Elapsed s) @ [NL] @
     ''Throughput:  '' @ format_f 2 (s_Throughput s) @ '' req/s'' @ [NL] @
     [NL] @
     latencyStatsBlock ''total'' (s_Total s) @ [NL] @
     latencyStatsBlock ''server'' (s_Server s) @ [NL] @
     latencyStatsBlock ''network'' (s_Network s) @ [NL] @
     latencyStatsBlock ''upstream'' (s_Upstream s) @ [NL] @
     backendsBlock (s_Backends s) @ [NL] @
     backendSkewLine (s_BackendSkew s) @ [NL] @
     statusCodeBlock table (s_Errors s)"

section \<open>Lines\<close>

lemma newlines_join_lines:
  "xs \<noteq> [] \<Longrightarrow> \<forall>x\<in>set xs. one_line x \<Longrightarrow> newlines (join [NL] xs) = length xs - 1"
  by (induction "[NL]" xs rule: join.induct) (auto simp: newlines_one_line)

lemma one_line_messages: "one_line (formatTopMessages table msgs)"
  unfolding formatTopMessages_def
  by (simp del: set_append, intro impI one_line_join) simp_all

lemma newlines_status: "\<forall>st\<in>set stats. one_line (sc_CodeName st) \<Longrightarrow>
    newlines (statusCodeBlock table stats) = length stats"
  by (auto simp: statusCodeBlock_def status_row_def newlines_join_lines one_line_messages)

lemma newlines_backends: "\<forall>b\<in>set backends. one_line (be_Key b) \<and> one_line (be_Source b) \<Longrightarrow>
    newlines (backendsBlock backends) = length backends"
  by (auto simp: backendsBlock_def backend_row_def Let_def newlines_join_lines)

lemma newlines_latency: "one_line name \<Longrightarrow>
    newlines (latencyStatsBlock name l) = (if ls_Count l = 0 then 0 else 8)"
  by (simp add: latencyStatsBlock_def newlines_one_line)

lemma newlines_skew: "newlines (backendSkewLine k) = 0"
  by (simp add: backendSkewLine_def formatRatio_def newlines_one_line)

lemma newlines_labels:
  assumes "fair ord" "\<forall>(k, v)\<in>set labels. one_line k \<and> one_line v"
  shows "newlines (labelsHeader ord labels) = (if labels = [] then 0 else 1)"
proof -
  have keys: "set (sort_slice (<) (map fst (ord labels))) = fst ` set labels"
    using assms(1) by (simp add: fair_def) (metis set_mset_mset)
  have "one_line (k @ ''='' @ (case map_of labels k of Some v \<Rightarrow> v | None \<Rightarrow> []))" if "k \<in> fst ` set labels" for k
    using that assms(2) by (cases "map_of labels k") (auto dest: map_of_SomeD)
  then have "one_line (join '' '' (map (\<lambda>k. k @ ''='' @ (case map_of labels k of Some v \<Rightarrow> v | None \<Rightarrow> []))
      (sort_slice (<) (map fst (ord labels)))))"
    by (intro one_line_join) (simp_all add: keys del: set_sort_slice)
  then show ?thesis by (simp add: labelsHeader_def Let_def newlines_one_line del: set_append)
qed

section \<open>Reading the numbers back\<close>

lemma show_nat_inject: "show_nat m = show_nat n \<longleftrightarrow> m = n"
  by (metis digits_value_show_nat)

lemma show_int_inject: "show_int x = show_int y \<longleftrightarrow> x = y"
proof
  have minus: "show_nat n \<noteq> CHR ''-'' # s" for n s
    using hd_show_nat(1) [of n] by (auto simp: is_digit_def)
  assume "show_int x = show_int y"
  then show "x = y"
    using minus minus [symmetric]
    by (auto simp: show_int_def show_nat_inject nat_eq_iff split: if_splits)
qed simp

lemma Duration_String_inject:
  "in_int64 d \<Longrightarrow> in_int64 e \<Longrightarrow> Duration_String d = Duration_String e \<longleftrightarrow> d = e"
  by (metis ParseDuration_String option.inject)

definition latency_lines :: "string \<Rightarrow> LatencyStats \<Rightarrow> string list" where
  "latency_lines name l =
     [''Latency ('' @ name @ ''):'', ''  count:  '' @ show_int (ls_Count l),
      ''  min:    '' @ Duration_String (ls_Min l), ''  mean:   '' @ Duration_String (ls_Mean l),
      ''  stddev: '' @ Duration_String (ls_Stddev l), ''  p50:    '' @ Duration_String (ls_P50 l),
      ''  p90:    '' @ Duration_String (ls_P90 l), ''  p99:    '' @ Duration_String (ls_P99 l),
      ''  max:    '' @ Duration_String (ls_Max l)]"

lemma split_latency:
  assumes "ls_Count l \<noteq> 0" "one_line name"
  shows "split_on NL (latencyStatsBlock name l) = latency_lines name l"
proof -
  have "latencyStatsBlock name l = join [NL] (latency_lines name l)"
    using assms(1) by (simp add: latencyStatsBlock_def latency_lines_def)
  moreover have "split_on NL (join [NL] (latency_lines name l)) = latency_lines name l"
    using assms(2) by (intro split_on_join) (simp_all add: latency_lines_def)
  ultimately show ?thesis by simp
qed

lemma latency_lines_inject:
  fixes a b :: LatencyStats
  assumes "latency_ok a" "latency_ok b" "latency_lines name a = latency_lines name b"
  shows "a = b"
  using assms
  by (intro LatencyStats.equality;
      simp add: latency_ok_def latency_lines_def show_int_inject Duration_String_inject)

section \<open>Config.Run\<close>

text \<open>
  \<open>Config.Run\<close> of \<open>pkg/bench/config.go\<close>: the run, then the report on the configured writer. Both report
  functions hand the whole report to the writer in one call, which is an event of the trace; \<open>write\<close> is what
  the writer answers.
\<close>

datatype ('e, 'x) run_return =
    NilError | RunError "'e run_error" | WriteError 'x | StillRunning | RunPanicked | RunAborted

definition write_report :: "(writer \<Rightarrow> report \<Rightarrow> 'x option) \<Rightarrow> writer \<Rightarrow> report \<Rightarrow> world \<Rightarrow> 'x option \<times> world" where
  "write_report write out r w = (write out r, w\<lparr>w_trace := Wrote out r # w_trace w\<rparr>)"

definition Config_Run ::
  "('e, 'o) grpc_lib \<Rightarrow> 'e run_env \<Rightarrow> map_orders \<Rightarrow> (string \<times> string) order \<Rightarrow> (rune \<Rightarrow> bool) \<Rightarrow>
   (writer \<Rightarrow> report \<Rightarrow> 'x option) \<Rightarrow> nat list \<Rightarrow> 'o Config \<Rightarrow> world \<Rightarrow> ('e, 'x) run_return \<times> world" where
  "Config_Run g env ords ordh table write sched c w =
     (case config_run g env ords ordh sched c w of
        (Running, w) \<Rightarrow> (StillRunning, w)
      | (Crashed, w) \<Rightarrow> (RunPanicked, w)
      | (Aborted, w) \<Rightarrow> (RunAborted, w)
      | (Returned (Inl e), w) \<Rightarrow> (RunError e, w)
      | (Returned (Inr s), w) \<Rightarrow>
          (case (if cf_OutputFormat c = OutputFormatJSON
                 then write_report write (config_output c) (JSONReport (writeJSONReport c s)) w
                 else write_report write (config_output c) (TextReport (writeReport table ordh c s)) w) of
             (None, w) \<Rightarrow> (NilError, w)
           | (Some x, w) \<Rightarrow> (WriteError x, w)))"

text \<open>The report of a summary, and what a run has written when it returns.\<close>

definition report_of :: "(rune \<Rightarrow> bool) \<Rightarrow> (string \<times> string) order \<Rightarrow> 'o Config \<Rightarrow> Summary \<Rightarrow> report" where
  "report_of table ordh c s =
     (if cf_OutputFormat c = ''json'' then JSONReport (writeJSONReport c s)
      else TextReport (writeReport table ordh c s))"

lemma Config_Run_report:
  assumes "config_run g env ords ordh sched c w = (Returned (Inr s), w1)"
  shows "Config_Run g env ords ordh table write sched c w =
    (case write (config_output c) (report_of table ordh c s) of None \<Rightarrow> NilError | Some x \<Rightarrow> WriteError x,
     w1\<lparr>w_trace := Wrote (config_output c) (report_of table ordh c s) # w_trace w1\<rparr>)"
  using assms by (simp add: Config_Run_def write_report_def report_of_def config_names split: option.split)

section \<open>Properties\<close>

text \<open>
  C34: The shape of the text report is fixed by the summary: whatever bytes the error messages hold, they
  add no line, because \<open>%q\<close> escapes them. With names, labels and backend keys of one line each, the report
  has sixteen lines plus one for labels, eight for every latency block with samples, one for every
  backend and one for every status code.
\<close>

theorem text_report_lines:
  assumes "fair ord" "one_line (cf_Target c)" "one_line (s_ConnModel s)"
    and "\<forall>(k, v)\<in>set (cf_Labels c). one_line k \<and> one_line v"
    and "\<forall>b\<in>set (s_Backends s). one_line (be_Key b) \<and> one_line (be_Source b)"
    and "\<forall>st\<in>set (s_Errors s). one_line (sc_CodeName st)"
  shows "newlines (writeReport table ord c s) =
    16 + (if cf_Labels c = [] then 0 else 1) +
    8 * length (filter (\<lambda>l. ls_Count l \<noteq> 0) [s_Total s, s_Server s, s_Network s, s_Upstream s]) +
    length (s_Backends s) + length (s_Errors s)"
proof -
  have step: "8 * length (filter (\<lambda>l. ls_Count l \<noteq> 0) (l # ls)) =
      (if ls_Count l = 0 then 0 else 8) + 8 * length (filter (\<lambda>l. ls_Count l \<noteq> 0) ls)"
    for l and ls :: "LatencyStats list" by simp
  have lat: "newlines (latencyStatsBlock n l) = (if ls_Count l = 0 then 0 else 8)"
    if "n \<in> {''total'', ''server'', ''network'', ''upstream''}" for n l
    using that by (intro newlines_latency) auto
  note lat = lat [of "''total''", simplified] lat [of "''server''", simplified]
    lat [of "''network''", simplified] lat [of "''upstream''", simplified]
  show ?thesis
    unfolding writeReport_def newlines_simps(2) step newlines_skew newlines_labels [OF assms(1,4)]
      newlines_backends [OF assms(5)] newlines_status [OF assms(6)] newlines_one_line [OF assms(2)]
      newlines_one_line [OF assms(3)] newlines_one_line [OF one_line_show_int]
      newlines_one_line [OF one_line_Duration_String] newlines_one_line [OF one_line_format_f]
    by (simp only: lat newlines_simps simp_thms char.inject if_False if_True filter.simps list.size mult_0_right
        add_0 add_0_right add_Suc add_Suc_right)
qed

theorem text_report_lines_witness:
  "newlines (writeReport (\<lambda>_. True) rev (New :: nat Config) (example_summary [NL, NL] 7)) = 17"
  by (subst text_report_lines)
    (simp_all add: New_def example_summary_def ConnModelShared_def zero_LatencyStats_def)

text \<open>
  The text report does not depend on the order in which Go visits the labels: they are printed in the
  order of their keys.
\<close>

theorem text_report_order_independent:
  assumes "fair o1" "fair o2" "mset (cf_Labels c) = mset labels" "distinct (map fst labels)"
  shows "writeReport table o1 c s = writeReport table o2 (c\<lparr>cf_Labels := labels\<rparr>) s"
proof -
  have dist: "distinct (map fst (cf_Labels c))"
    using assms(3,4) by (metis mset_eq_imp_distinct_iff mset_map)
  have "map_of (cf_Labels c) = map_of labels"
    using map_of_inject_set [OF dist assms(4)] mset_eq_setD [OF assms(3)] by blast
  moreover have "sort (map fst (o1 (cf_Labels c))) = sort (map fst (o2 labels))"
    using assms(1-3) by (intro properties_for_sort) (simp_all add: fair_def)
  moreover have "length (cf_Labels c) = length labels" using assms(3) by (rule mset_eq_length)
  ultimately have "labelsHeader o1 (cf_Labels c) = labelsHeader o2 labels"
    by (simp add: labelsHeader_def sort_slice_string)
  then show ?thesis by (simp add: writeReport_def)
qed

theorem text_report_order_independent_witness:
  "writeReport (\<lambda>_. True) rev ((New :: nat Config)\<lparr>cf_Labels := [(''env'', ''a''), (''zone'', ''b'')]\<rparr>)
     (example_summary ''reset'' 7) =
   writeReport (\<lambda>_. True) (\<lambda>xs. xs) ((New :: nat Config)\<lparr>cf_Labels := [(''zone'', ''b''), (''env'', ''a'')]\<rparr>)
     (example_summary ''reset'' 7)"
  using text_report_order_independent
    [of rev "\<lambda>xs. xs" "(New :: nat Config)\<lparr>cf_Labels := [(''env'', ''a''), (''zone'', ''b'')]\<rparr>"
      "[(''zone'', ''b''), (''env'', ''a'')]" "\<lambda>_. True" "example_summary ''reset'' 7"]
  by (simp add: fair_def)

text \<open>
  C33: A latency block of the text report can be read back: two blocks with samples print the same text
  exactly when all eight numbers agree to the nanosecond.
\<close>

theorem latency_text_lossless:
  assumes "one_line name" "ls_Count a \<noteq> 0" "ls_Count b \<noteq> 0" "latency_ok a" "latency_ok b"
  shows "latencyStatsBlock name a = latencyStatsBlock name b \<longleftrightarrow> a = b"
proof
  assume "latencyStatsBlock name a = latencyStatsBlock name b"
  then have "latency_lines name a = latency_lines name b"
    by (metis split_latency assms(1-3))
  then show "a = b" by (rule latency_lines_inject [OF assms(4,5)])
qed simp

theorem latency_text_lossless_witness:
  "latencyStatsBlock ''total'' (zero_LatencyStats\<lparr>ls_Count := 1, ls_P50 := 1500000\<rparr>) \<noteq>
   latencyStatsBlock ''total'' (zero_LatencyStats\<lparr>ls_Count := 1, ls_P50 := 1500001\<rparr>)"
  by (subst latency_text_lossless) (simp_all add: zero_LatencyStats_def latency_ok_def in_int64_def)

text \<open>
  C13: A run that passes \<open>Validate\<close>, gets its pool and is scheduled long enough writes one report, to the
  configured writer and as its very last act: before it every connection has been closed, and no other
  report is written. The report has the configured format and is that of the summary of the results the
  workers recorded, in which every call that was sent is found, except at most one per worker. The run returns
  nil exactly when the writer took the report.
\<close>

theorem run_writes_one_report:
  fixes env :: "'e run_env"
  assumes "good_world w" "opened w = {}" "run_safe env c" "Validate c = None"
    and "newConnPool (cf_ConnModel c) (bench_dial_of g c) w = (Inr p, w1)"
    and "\<forall>t\<ge>N. env_ctx_done env t"
    and "\<forall>i<nat (cf_Concurrency c). 8 * (N - w_tick w) + 3 * nat (cf_Concurrency c) < count_list sched i"
  shows "\<exists>r s results w2 w'. Config_Run g env ords ordh table write sched c w =
      (case write (config_output c) r of None \<Rightarrow> NilError | Some x \<Rightarrow> WriteError x, w') \<and>
    w_trace w' = Wrote (config_output c) r # w_trace w2 \<and> opened w2 = {} \<and>
    written w' = (config_output c, r) # written w \<and>
    (if cf_OutputFormat c = ''json'' then r = JSONReport (writeJSONReport c s)
     else cf_OutputFormat c = ''human'' \<and> r = TextReport (writeReport table ordh c s)) \<and>
    s = aggregate (env_status env) ords results (elapsed results) (cf_ConnModel c) \<and>
    no_cancellation env results \<and>
    length (filter of_call results) \<le> calls w2 - calls w \<and>
    calls w2 - calls w \<le> length (filter of_call results) + nat (cf_Concurrency c)"
proof -
  from run_finishes [OF assms(1-3,6,7,4,5)] obtain s where
    "fst (config_run g env ords ordh sched c w) = Returned (Inr s)" by blast
  then obtain w2 where run: "config_run g env ords ordh sched c w = (Returned (Inr s), w2)"
    by (metis prod.collapse)
  have closed: "opened w2 = {}" and wr: "written w2 = written w" using run_world [OF assms(1,2) run] by simp_all
  from run_accounts [OF assms(1,2) run] obtain results where
    acc: "s = aggregate (env_status env) ords results (elapsed results) (cf_ConnModel c)"
      "no_cancellation env results" "length (filter of_call results) \<le> calls w2 - calls w"
      "calls w2 - calls w \<le> length (filter of_call results) + nat (cf_Concurrency c)" by blast
  let ?r = "report_of table ordh c s"
  have fmt: "if cf_OutputFormat c = ''json'' then ?r = JSONReport (writeJSONReport c s)
      else cf_OutputFormat c = ''human'' \<and> ?r = TextReport (writeReport table ordh c s)"
    using assms(4) by (auto simp: report_of_def validate_simps split: if_splits)
  have "written (w2\<lparr>w_trace := Wrote (config_output c) ?r # w_trace w2\<rparr>) = (config_output c, ?r) # written w"
    using wr by (simp add: written_def)
  with Config_Run_report [OF run] closed acc fmt show ?thesis
    by (intro exI [of _ ?r] exI [of _ s] exI [of _ results] exI [of _ w2] exI conjI)
      (rule refl | assumption | simp)+
qed

theorem run_writes_one_report_witness:
  "\<exists>s w'. Config_Run quiet_lib example_env example_orders rev (\<lambda>_. True) (\<lambda>_ _. None :: unit option)
      (replicate 60 0) (New :: nat Config) world0 = (NilError, w') \<and>
    written w' = [(Stdout, TextReport (writeReport (\<lambda>_. True) rev (New :: nat Config) s))]"
proof -
  have c: "config_output (New :: nat Config) = Stdout" "cf_OutputFormat (New :: nat Config) \<noteq> ''json''"
    "written world0 = []"
    by (simp_all add: config_output_def New_def config_names written_def world0_def)
  from run_writes_one_report [OF good_world0 example_env_safe(1) Validate_New quiet_pool example_env_safe(2)
      quiet_env(2), of example_orders rev "\<lambda>_. True" "\<lambda>_ _. None :: unit option"] c
  show ?thesis by auto
qed

end
