(* ===== verification/Http.thy ===== *)
theory Http
  imports Strconv Backends "HOL-Library.Sublist"
begin

text \<open>
  What the echo server uses of \<open>net/http\<close> and \<open>net/url\<close>: requests with their header map and
  parsed URL, \<open>Header.Get\<close> with canonical keys, and \<open>url.ParseQuery\<close>. A Go map from strings to string
  slices is an association list with distinct keys, or \<open>None\<close> when it is nil; a function that ranges
  over it takes the visiting order as a parameter. The limit Go puts on the number of query parameters
  is left out.
\<close>

section \<open>Maps of string slices\<close>

type_synonym multimap = "(string \<times> string list) list option"

definition entries :: "multimap \<Rightarrow> (string \<times> string list) list" where
  "entries m = (case m of None \<Rightarrow> [] | Some es \<Rightarrow> es)"

text \<open>Indexing at a missing key gives the nil slice.\<close>

definition index :: "multimap \<Rightarrow> string \<Rightarrow> string list" where
  "index m k = (case map_of (entries m) k of None \<Rightarrow> [] | Some vs \<Rightarrow> vs)"

fun append_value :: "string \<Rightarrow> string \<Rightarrow> (string \<times> string list) list \<Rightarrow> (string \<times> string list) list" where
  "append_value k v [] = [(k, [v])]"
| "append_value k v ((k', vs) # es) =
     (if k = k' then (k', vs @ [v]) # es else (k', vs) # append_value k v es)"

section \<open>Headers\<close>

definition is_lower :: "char \<Rightarrow> bool" where "is_lower c \<longleftrightarrow> 97 \<le> byte c \<and> byte c \<le> 122"
definition is_upper :: "char \<Rightarrow> bool" where "is_upper c \<longleftrightarrow> 65 \<le> byte c \<and> byte c \<le> 90"
definition to_upper :: "char \<Rightarrow> char" where "to_upper c = (if is_lower c then char_of (byte c - 32) else c)"
definition to_lower :: "char \<Rightarrow> char" where "to_lower c = (if is_upper c then char_of (byte c + 32) else c)"

definition header_field_byte :: "char \<Rightarrow> bool" where
  "header_field_byte c \<longleftrightarrow> is_lower c \<or> is_upper c \<or> is_digit c \<or> c \<in> set ''!#$%&*+-.^_`|~'' \<or> byte c = 39"

fun canonical_loop :: "bool \<Rightarrow> string \<Rightarrow> string" where
  "canonical_loop up [] = []"
| "canonical_loop up (c # s) =
     (if up then to_upper c else to_lower c) # canonical_loop (c = CHR ''-'') s"

definition CanonicalMIMEHeaderKey :: "string \<Rightarrow> string" where
  "CanonicalMIMEHeaderKey k = (if list_all header_field_byte k then canonical_loop True k else k)"

definition Header_Get :: "multimap \<Rightarrow> string \<Rightarrow> string" where
  "Header_Get h k = (case index h (CanonicalMIMEHeaderKey k) of [] \<Rightarrow> [] | v # _ \<Rightarrow> v)"

section \<open>Query strings\<close>

definition unhex :: "char \<Rightarrow> nat option" where
  "unhex c =
     (if is_digit c then Some (byte c - 48)
      else if 97 \<le> byte c \<and> byte c \<le> 102 then Some (byte c - 87)
      else if 65 \<le> byte c \<and> byte c \<le> 70 then Some (byte c - 55) else None)"

fun QueryUnescape :: "string \<Rightarrow> string option" where
  "QueryUnescape [] = Some []"
| "QueryUnescape (c # s) =
     (if c = CHR ''%'' then
        (case s of
           a # b # s' \<Rightarrow>
             (case (unhex a, unhex b) of
                (Some x, Some y) \<Rightarrow> map_option (Cons (char_of (16 * x + y))) (QueryUnescape s')
              | _ \<Rightarrow> None)
         | _ \<Rightarrow> None)
      else map_option (Cons (if c = CHR ''+'' then CHR '' '' else c)) (QueryUnescape s))"

text \<open>\<open>strings.Cut(s, sep)\<close> for a one-byte separator.\<close>

definition cut :: "char \<Rightarrow> string \<Rightarrow> string \<times> string" where
  "cut sep s = (takeWhile (\<lambda>c. c \<noteq> sep) s, tl (dropWhile (\<lambda>c. c \<noteq> sep) s))"

definition query_pair :: "string \<Rightarrow> (string \<times> string) option" where
  "query_pair part =
     (if CHR '';'' \<in> set part \<or> part = [] then None
      else case cut CHR ''='' part of (k, v) \<Rightarrow>
        (case (QueryUnescape k, QueryUnescape v) of
           (Some k, Some v) \<Rightarrow> Some (k, v)
         | _ \<Rightarrow> None))"

text \<open>\<open>URL.Query\<close>: pairs that do not parse are dropped.\<close>

definition ParseQuery :: "string \<Rightarrow> multimap" where
  "ParseQuery query =
     Some (foldl (\<lambda>es (k, v). append_value k v es) [] (List.map_filter query_pair (split_on CHR ''&'' query)))"

section \<open>Requests\<close>

record URL =
  u_Scheme :: string
  u_Host :: string
  u_Path :: string
  u_RawPath :: string
  u_RawQuery :: string

record http_request =
  hr_Proto :: string
  hr_TLS :: "nat option"
  hr_RemoteAddr :: string
  hr_Method :: string
  hr_RequestURI :: string
  hr_Header :: multimap
  hr_URL :: "URL option"

section \<open>Lemmas\<close>

lemma entries_simps [simp]: "entries None = []" "entries (Some es) = es"
  by (simp_all add: entries_def)

lemma index_append_value:
  "index (Some (append_value k v es)) k' = index (Some es) k' @ (if k' = k then [v] else [])"
  by (induction k v es rule: append_value.induct) (auto simp: index_def)

lemma keys_append_value: "set (map fst (append_value k v es)) = insert k (set (map fst es))"
  by (induction k v es rule: append_value.induct) auto

lemma distinct_append_value: "distinct (map fst es) \<Longrightarrow> distinct (map fst (append_value k v es))"
  using keys_append_value by (induction k v es rule: append_value.induct) fastforce+

text \<open>What a fold of \<open>append_value\<close> collects: the values of every key, in order.\<close>

lemma index_append_values:
  "index (Some (foldl (\<lambda>es (k, v). append_value k v es) es kvs)) k =
    index (Some es) k @ map snd (filter (\<lambda>kv. fst kv = k) kvs)"
  by (induction kvs arbitrary: es) (auto simp: index_append_value)

lemma distinct_append_values:
  "distinct (map fst es) \<Longrightarrow> distinct (map fst (foldl (\<lambda>es (k, v). append_value k v es) es kvs))"
  by (induction kvs arbitrary: es) (auto intro: distinct_append_value)

lemma index_ParseQuery:
  "index (ParseQuery query) k =
    map snd (filter (\<lambda>kv. fst kv = k) (List.map_filter query_pair (split_on CHR ''&'' query)))"
  unfolding ParseQuery_def index_append_values by (simp add: index_def)

lemma distinct_ParseQuery: "distinct (map fst (entries (ParseQuery query)))"
  by (simp add: ParseQuery_def distinct_append_values)

end
