(* ===== verification/Echo_Result.thy ===== *)
theory Echo_Result
  imports Http Json
begin

text \<open>
  \<open>pkg/echo/result\<close>: what the echo server reports about one request (\<open>result.go\<close>), how it is collected
  from an HTTP request and from the process (\<open>request.go\<close>), and how it travels in a context
  (\<open>context.go\<close>). The process is a record of what \<open>runtime\<close> and \<open>debug.ReadBuildInfo\<close> answer.
\<close>

section \<open>result.go: the records\<close>

record ExtensionResult =
  er_Name :: string
  er_Info :: multimap

record KubernetesResult =
  kr_Hostname :: string
  kr_PodName :: string
  kr_PodNamespace :: string
  kr_PodNode :: string

record ResultURL =
  ru_Scheme :: string
  ru_Host :: string
  ru_Path :: string
  ru_RawPath :: string
  ru_RawQuery :: string
  ru_Query :: multimap

record RequestResult =
  qr_Protocol :: string
  qr_TLSVersion :: string
  qr_RemoteAddr :: string
  qr_Method :: string
  qr_URI :: string
  qr_ParsedURL :: ResultURL
  qr_Headers :: multimap

record RuntimeResult =
  rn_GoVersion :: string
  rn_GoArch :: string
  rn_GoOS :: string
  rn_NumCPUs :: int
  rn_NumGoroutines :: int
  rn_MainModule :: string
  rn_MainPath :: string
  rn_MainVersion :: string

record EchoResult =
  re_Kubernetes :: KubernetesResult
  re_Request :: RequestResult
  re_Runtime :: RuntimeResult
  re_Extensions :: "ExtensionResult list"

definition zero_ResultURL :: ResultURL where
  "zero_ResultURL =
     \<lparr>ru_Scheme = [], ru_Host = [], ru_Path = [], ru_RawPath = [], ru_RawQuery = [], ru_Query = None\<rparr>"

definition zero_EchoResult :: EchoResult where
  "zero_EchoResult =
     \<lparr>re_Kubernetes = \<lparr>kr_Hostname = [], kr_PodName = [], kr_PodNamespace = [], kr_PodNode = []\<rparr>,
      re_Request = \<lparr>qr_Protocol = [], qr_TLSVersion = [], qr_RemoteAddr = [], qr_Method = [], qr_URI = [],
        qr_ParsedURL = zero_ResultURL, qr_Headers = None\<rparr>,
      re_Runtime = \<lparr>rn_GoVersion = [], rn_GoArch = [], rn_GoOS = [], rn_NumCPUs = 0, rn_NumGoroutines = 0,
        rn_MainModule = [], rn_MainPath = [], rn_MainVersion = []\<rparr>,
      re_Extensions = []\<rparr>"

section \<open>result.go: the text\<close>

definition field_line :: "string \<Rightarrow> string \<Rightarrow> string" where
  "field_line label v = CHR 0x09 # label @ '': '' @ v @ [CHR 0x0A]"

definition header_lines :: "(string \<times> string list) order \<Rightarrow> multimap \<Rightarrow> string" where
  "header_lines ord h =
     (let names = sort_slice (<) (map fst (ord (entries h)))
      in concat (map (\<lambda>hk. concat (map (field_line hk) (index h hk))) names))"

definition extension_text :: "(string \<times> string list) order \<Rightarrow> ExtensionResult \<Rightarrow> string" where
  "extension_text ord ext =
     ''Extension '' @ er_Name ext @ '':'' @ [CHR 0x0A] @
     concat (map (\<lambda>(k, vs). concat (map (field_line k) vs)) (ord (entries (er_Info ext)))) @ [CHR 0x0A]"

definition WriteTo :: "(string \<times> string list) order \<Rightarrow> (string \<times> string list) order \<Rightarrow> EchoResult \<Rightarrow> string" where
  "WriteTo ord_headers ord_info r =
     (let k = re_Kubernetes r; q = re_Request r; rt = re_Runtime r in
      ''Kubernetes details:'' @ [CHR 0x0A] @
      field_line ''Hostname'' (kr_Hostname k) @ field_line ''Pod name'' (kr_PodName k) @
      field_line ''Namespace'' (kr_PodNamespace k) @ field_line ''Node name'' (kr_PodNode k) @ [CHR 0x0A] @
      ''Request information:'' @ [CHR 0x0A] @
      field_line ''Protocol'' (qr_Protocol q) @ field_line ''Remote address'' (qr_RemoteAddr q) @
      field_line ''Method'' (qr_Method q) @ field_line ''Raw URI'' (qr_URI q) @
      field_line ''Raw Query'' (ru_RawQuery (qr_ParsedURL q)) @ [CHR 0x0A] @
      ''Request headers:'' @ [CHR 0x0A] @ header_lines ord_headers (qr_Headers q) @ [CHR 0x0A] @
      ''Runtime information:'' @ [CHR 0x0A] @
      field_line ''Version'' (rn_GoVersion rt) @ field_line ''Arch/OS'' (rn_GoArch rt @ ''/'' @ rn_GoOS rt) @
      field_line ''Number of CPUs'' (show_int (rn_NumCPUs rt)) @
      field_line ''Number of goroutines'' (show_int (rn_NumGoroutines rt)) @
      field_line ''App main module'' (rn_MainModule rt) @ field_line ''App main path'' (rn_MainPath rt) @
      field_line ''App main version'' (rn_MainVersion rt) @ [CHR 0x0A] @
      concat (map (extension_text ord_info) (re_Extensions r)))"

section \<open>result.go: the JSON tags\<close>

definition json_of_map :: "multimap \<Rightarrow> json" where
  "json_of_map m =
     (case m of None \<Rightarrow> JNull
      | Some es \<Rightarrow> JObject (map (\<lambda>k. (to_valid_utf8 k, json_of_strings (index m k))) (sort_slice (<) (map fst es))))"

definition json_of_echo_result :: "EchoResult \<Rightarrow> json" where
  "json_of_echo_result r =
     (let k = re_Kubernetes r; q = re_Request r; u = qr_ParsedURL q; rt = re_Runtime r in
      JObject
       [(''kubernetes'', JObject
          [(''hostname'', marshal_string (kr_Hostname k)), (''pod_name'', marshal_string (kr_PodName k)),
           (''pod_namespace'', marshal_string (kr_PodNamespace k)), (''pod_node'', marshal_string (kr_PodNode k))]),
        (''request'', JObject
          [(''protocol'', marshal_string (qr_Protocol q)), (''tls_version'', marshal_string (qr_TLSVersion q)),
           (''remote_addr'', marshal_string (qr_RemoteAddr q)), (''method'', marshal_string (qr_Method q)),
           (''uri'', marshal_string (qr_URI q)),
           (''parsed_url'', JObject
             [(''scheme'', marshal_string (ru_Scheme u)), (''host'', marshal_string (ru_Host u)),
              (''path'', marshal_string (ru_Path u)), (''raw_path'', marshal_string (ru_RawPath u)),
              (''raw_query'', marshal_string (ru_RawQuery u)), (''query'', json_of_map (ru_Query u))]),
           (''headers'', json_of_map (qr_Headers q))]),
        (''runtime'', JObject
          [(''go_version'', marshal_string (rn_GoVersion rt)), (''go_arch'', marshal_string (rn_GoArch rt)),
           (''go_os'', marshal_string (rn_GoOS rt)), (''num_cpus'', JInt (rn_NumCPUs rt)),
           (''num_goroutines'', JInt (rn_NumGoroutines rt)), (''main_module'', marshal_string (rn_MainModule rt)),
           (''main_path'', marshal_string (rn_MainPath rt)), (''main_version'', marshal_string (rn_MainVersion rt))]),
        (''extensions'', JArray (map (\<lambda>e. JObject
          [(''name'', marshal_string (er_Name e)), (''info'', json_of_map (er_Info e))]) (re_Extensions r)))])"

section \<open>result.go: extensions and TLS versions\<close>

text \<open>An extension works on a clone of the request; one that fails is logged and skipped.\<close>

type_synonym 'x ExtensionFunc = "http_request \<Rightarrow> 'x + ExtensionResult list"

fun GetResult :: "'x ExtensionFunc list \<Rightarrow> http_request \<Rightarrow> ExtensionResult list" where
  "GetResult [] r = []"
| "GetResult (fn # es) r =
     (case fn r of Inl err \<Rightarrow> GetResult es r | Inr res \<Rightarrow> res @ GetResult es r)"

definition TLSVersion :: "nat option \<Rightarrow> string" where
  "TLSVersion cs =
     (case cs of None \<Rightarrow> ''none''
      | Some v \<Rightarrow>
          if v = 0x0301 then ''TLSv1.0''
          else if v = 0x0302 then ''TLSv1.1''
          else if v = 0x0303 then ''TLSv1.2''
          else if v = 0x0304 then ''TLSv1.3''
          else ''unknown (version='' @ show_nat v @ '')'')"

section \<open>request.go\<close>

record build_info =
  bi_Path :: string
  bi_MainPath :: string
  bi_MainVersion :: string
  bi_Settings :: "(string \<times> string) list"

record process =
  ps_Version :: string
  ps_GOARCH :: string
  ps_GOOS :: string
  ps_NumCPU :: int
  ps_NumGoroutine :: int
  ps_BuildInfo :: "build_info option"

definition GetRequestResult :: "http_request \<Rightarrow> RequestResult" where
  "GetRequestResult r =
     \<lparr>qr_Protocol = hr_Proto r, qr_TLSVersion = TLSVersion (hr_TLS r), qr_RemoteAddr = hr_RemoteAddr r,
      qr_Method = hr_Method r, qr_URI = hr_RequestURI r,
      qr_ParsedURL =
        (case hr_URL r of
           Some u \<Rightarrow>
             \<lparr>ru_Scheme = u_Scheme u, ru_Host = u_Host u, ru_Path = u_Path u, ru_RawPath = u_RawPath u,
              ru_RawQuery = u_RawQuery u, ru_Query = ParseQuery (u_RawQuery u)\<rparr>
         | None \<Rightarrow> zero_ResultURL\<lparr>ru_Path := hr_RequestURI r\<rparr>),
      qr_Headers = hr_Header r\<rparr>"

definition version_step :: "string \<Rightarrow> string \<times> string \<Rightarrow> string" where
  "version_step v s =
     (let v = (if fst s = ''vcs.revision'' then snd s else v)
      in if fst s = ''vcs.modified'' \<and> snd s = ''true'' then v @ '' (dirty)'' else v)"

definition GetRuntimeResult :: "process \<Rightarrow> RuntimeResult" where
  "GetRuntimeResult p =
     (let rt = \<lparr>rn_GoVersion = ps_Version p, rn_GoArch = ps_GOARCH p, rn_GoOS = ps_GOOS p,
            rn_NumCPUs = ps_NumCPU p, rn_NumGoroutines = ps_NumGoroutine p,
            rn_MainModule = [], rn_MainPath = [], rn_MainVersion = []\<rparr>
      in case ps_BuildInfo p of
           None \<Rightarrow> rt
         | Some info \<Rightarrow>
             rt\<lparr>rn_MainPath := bi_Path info, rn_MainModule := bi_MainPath info,
                rn_MainVersion :=
                  (if bi_MainVersion info = ''(devel)''
                   then foldl version_step (bi_MainVersion info) (bi_Settings info)
                   else bi_MainVersion info)\<rparr>)"

section \<open>context.go\<close>

text \<open>
  A context is the chain of its values, the innermost first. Another package's key never equals
  \<open>resultKey\<close>, whose type is private. \<open>FromContext\<close> is \<open>None\<close> where its type assertion panics.
\<close>

datatype context_key = ResultKey | OtherKey nat

datatype context_value = ResultValue EchoResult | OtherValue nat

type_synonym context_chain = "(context_key \<times> context_value) list"

definition context_Value :: "context_chain \<Rightarrow> context_key \<Rightarrow> context_value option" where
  "context_Value ctx k = map_of ctx k"

definition FromContext :: "context_chain \<Rightarrow> EchoResult option" where
  "FromContext ctx =
     (case context_Value ctx ResultKey of
        None \<Rightarrow> Some zero_EchoResult
      | Some (ResultValue res) \<Rightarrow> Some res
      | Some (OtherValue _) \<Rightarrow> None)"

definition WithResult :: "context_chain \<Rightarrow> EchoResult \<Rightarrow> context_chain" where
  "WithResult ctx res = (ResultKey, ResultValue res) # ctx"

section \<open>Lemmas\<close>

lemma fair_short: "fair ord \<Longrightarrow> length xs \<le> 1 \<Longrightarrow> ord xs = xs"
  by (cases xs) (auto simp: fair_def dest: spec [of _ xs])

lemma header_lines_order:
  assumes "fair o1" "fair o2"
  shows "header_lines o1 h = header_lines o2 h"
proof -
  have "sort (map fst (o1 (entries h))) = sort (map fst (o2 (entries h)))"
    using assms by (intro properties_for_sort) (simp_all add: fair_def)
  then show ?thesis by (simp add: header_lines_def sort_slice_string)
qed

text \<open>A dirty build: the revision and the mark, in the order Go writes the settings.\<close>

lemma version_steps_other:
  "\<forall>s\<in>set ss. fst s \<noteq> ''vcs.revision'' \<and> fst s \<noteq> ''vcs.modified'' \<Longrightarrow> foldl version_step v ss = v"
  by (induction ss arbitrary: v) (auto simp: version_step_def)

lemma version_of_dirty_build:
  assumes "\<forall>s\<in>set (xs @ ys @ zs). fst s \<noteq> ''vcs.revision'' \<and> fst s \<noteq> ''vcs.modified''"
  shows "foldl version_step v (xs @ (''vcs.revision'', rev_id) # ys @ (''vcs.modified'', m) # zs) =
    (if m = ''true'' then rev_id @ '' (dirty)'' else rev_id)"
  using assms by (auto simp: version_steps_other version_step_def)

lemma GetResult_concat:
  "GetResult es r = concat (map (\<lambda>fn. case fn r of Inl err \<Rightarrow> [] | Inr res \<Rightarrow> res) es)"
  by (induction es) (auto split: sum.split)

section \<open>Properties\<close>

text \<open>
  The text of an echo does not depend on the order in which Go visits the request's headers: they are
  sorted. The details of an extension are not, so the text is determined when every extension reports
  at most one detail.
\<close>

theorem result_text_order_independent:
  assumes "fair o1" "fair o2" "fair i1" "fair i2"
    and "\<forall>e\<in>set (re_Extensions r). length (entries (er_Info e)) \<le> 1"
  shows "WriteTo o1 i1 r = WriteTo o2 i2 r"
proof -
  have "map (extension_text i1) (re_Extensions r) = map (extension_text i2) (re_Extensions r)"
    using assms(5) by (simp add: extension_text_def fair_short [OF assms(3)] fair_short [OF assms(4)])
  then show ?thesis
    unfolding WriteTo_def Let_def header_lines_order [OF assms(1,2)] by (simp only:)
qed

theorem result_text_order_independent_witness:
  "WriteTo rev rev (zero_EchoResult\<lparr>re_Extensions := [\<lparr>er_Name = ''jwt:Authorization'', er_Info = Some [(''error'', [''expired''])]\<rparr>]\<rparr>) =
   WriteTo (\<lambda>xs. xs) (\<lambda>xs. xs) (zero_EchoResult\<lparr>re_Extensions := [\<lparr>er_Name = ''jwt:Authorization'', er_Info = Some [(''error'', [''expired''])]\<rparr>]\<rparr>)"
  by (rule result_text_order_independent) (simp_all add: fair_def)

end
