(* ===== verification/Echo_Service.thy ===== *)
theory Echo_Service
  imports Echo_Result Echopb Summary
begin

text \<open>
  \<open>pkg/echo/v1/server.go\<close>: the gRPC service. \<open>Echo\<close> answers from the result that the HTTP side left in
  the context; the clock readings at its start and end, the process and the order in which Go visits
  maps are parameters. A handler that panics is \<open>None\<close>.
\<close>

section \<open>The code\<close>

definition echoRequestPayload :: "EchoRequest_Payload option \<Rightarrow> EchoResponse_Payload option" where
  "echoRequestPayload p =
     (case p of
        Some (EchoRequest_StringPayload s) \<Rightarrow> Some (EchoResponse_StringPayload s)
      | Some (EchoRequest_BytesPayload b) \<Rightarrow> Some (EchoResponse_BytesPayload b)
      | Some (EchoRequest_EmbeddingFloat e) \<Rightarrow> Some (EchoResponse_EmbeddingFloat e)
      | Some (EchoRequest_EmbeddingBytes b) \<Rightarrow> Some (EchoResponse_EmbeddingBytes b)
      | Some (EchoRequest_Mixed m) \<Rightarrow> Some (EchoResponse_Mixed m)
      | None \<Rightarrow> None)"

definition buildKeyMultivalue :: "(string \<times> string list) order \<Rightarrow> multimap \<Rightarrow> KeyMultivalue list" where
  "buildKeyMultivalue ord md = map (\<lambda>(k, mv). \<lparr>kmv_Key = k, kmv_Values = mv\<rparr>) (ord (entries md))"

definition echo_version_step :: "string \<Rightarrow> string \<times> string \<Rightarrow> string" where
  "echo_version_step v s =
     (let v = (if fst s = ''vcs.revision'' then snd s else v)
      in if fst s = ''vcs.modified'' \<and> snd s = ''true'' then v @ '' (dirty)'' else v)"

definition echo_runtime :: "process \<Rightarrow> RuntimeInfo" where
  "echo_runtime p =
     (let rt = \<lparr>rt_GoVersion = ps_Version p, rt_GoArch = ps_GOARCH p, rt_GoOs = ps_GOOS p,
            rt_NumCpus = ps_NumCPU p, rt_NumGoroutines = ps_NumGoroutine p,
            rt_MainModule = [], rt_MainPath = [], rt_MainVersion = []\<rparr>
      in case ps_BuildInfo p of
           None \<Rightarrow> rt
         | Some info \<Rightarrow>
             rt\<lparr>rt_MainPath := bi_Path info, rt_MainModule := bi_MainPath info,
                rt_MainVersion :=
                  (if bi_MainVersion info = ''(devel)''
                   then foldl echo_version_step (bi_MainVersion info) (bi_Settings info)
                   else bi_MainVersion info)\<rparr>)"

definition echo_extensions ::
  "(string \<times> string list) order \<Rightarrow> ExtensionResult list \<Rightarrow> ExtendedInfo list" where
  "echo_extensions ord exts =
     concat (map (\<lambda>exres. map (\<lambda>kv. \<lparr>ei_Name = er_Name exres, ei_Info = Some kv\<rparr>)
       (buildKeyMultivalue ord (er_Info exres))) exts)"

definition Echo ::
  "process \<Rightarrow> (string \<times> string list) order \<Rightarrow> int \<Rightarrow> int \<Rightarrow> context_chain \<Rightarrow> EchoRequest \<Rightarrow>
   EchoResponse option" where
  "Echo p ord start end_time ctx req =
     (case FromContext ctx of
        None \<Rightarrow> None
      | Some res \<Rightarrow>
          let k = re_Kubernetes res; q = re_Request res; u = qr_ParsedURL q in
          Some
            \<lparr>rs_Query = rq_Query req,
             rs_Kubernetes = Some \<lparr>ki_Hostname = kr_Hostname k, ki_PodName = kr_PodName k,
               ki_PodNamespace = kr_PodNamespace k, ki_PodNode = kr_PodNode k\<rparr>,
             rs_Request = Some \<lparr>ri_Protocol = qr_Protocol q, ri_RemoteAddr = qr_RemoteAddr q,
               ri_Method = qr_Method q, ri_Uri = qr_URI q,
               ri_ParsedUrl = Some \<lparr>pu_Scheme = ru_Scheme u, pu_Host = ru_Host u, pu_Path = ru_Path u,
                 pu_RawPath = ru_RawPath u, pu_RawQuery = ru_RawQuery u,
                 pu_Query = buildKeyMultivalue ord (ru_Query u)\<rparr>,
               ri_Header = buildKeyMultivalue ord (qr_Headers q)\<rparr>,
             rs_Runtime = Some (echo_runtime p),
             rs_Extensions = echo_extensions ord (re_Extensions res),
             rs_ServerDurationNs = time_Sub end_time start,
             rs_ReceivedAtUnixNano = start, rs_SentAtUnixNano = end_time,
             rs_Shape = rq_Shape req, rs_Payload = echoRequestPayload (rq_Payload req)\<rparr>)"

text \<open>
  \<open>status.Error\<close> is nil for the code OK, so \<open>Status\<close> answers with an empty message then and with the
  error otherwise. The code is the field's bits read without a sign.
\<close>

datatype grpc_answer = OkStatus | GrpcError nat string

definition Status :: "StatusRequest \<Rightarrow> grpc_answer" where
  "Status req =
     (let code = unat (sr_ForceGrpcStatus req)
      in if code = 0 then OkStatus else GrpcError code (sr_Message req))"

section \<open>Lemmas\<close>

text \<open>What an echo of a payload is: the same case of the oneof with the same content, or no payload at all.\<close>

inductive mirrors :: "EchoRequest_Payload option \<Rightarrow> EchoResponse_Payload option \<Rightarrow> bool" where
  no_payload: "mirrors None None"
| string_payload: "mirrors (Some (EchoRequest_StringPayload s)) (Some (EchoResponse_StringPayload s))"
| bytes_payload: "mirrors (Some (EchoRequest_BytesPayload b)) (Some (EchoResponse_BytesPayload b))"
| embedding_float: "mirrors (Some (EchoRequest_EmbeddingFloat e)) (Some (EchoResponse_EmbeddingFloat e))"
| embedding_bytes: "mirrors (Some (EchoRequest_EmbeddingBytes b)) (Some (EchoResponse_EmbeddingBytes b))"
| mixed: "mirrors (Some (EchoRequest_Mixed m)) (Some (EchoResponse_Mixed m))"

lemma echoRequestPayload_mirrors: "mirrors p (echoRequestPayload p)"
  by (auto simp: echoRequestPayload_def intro: mirrors.intros split: option.split EchoRequest_Payload.split)

lemma echoRequestPayload_inj: "inj echoRequestPayload"
  by (rule injI)
    (auto simp: echoRequestPayload_def split: option.splits EchoRequest_Payload.splits)

text \<open>The reply carries every key of a map once, with its values, whatever the order.\<close>

lemma buildKeyMultivalue_entries:
  assumes "fair ord"
  shows "mset (map (\<lambda>kv. (kmv_Key kv, kmv_Values kv)) (buildKeyMultivalue ord md)) = mset (entries md)"
  using assms by (simp add: buildKeyMultivalue_def fair_def comp_def case_prod_beta)

lemma echo_version_step_eq: "echo_version_step = version_step"
  by (intro ext) (simp add: echo_version_step_def version_step_def)

end
