(* ===== verification/Echo_Grpc.thy ===== *)
theory Echo_Grpc
  imports Echo_Service
begin

text \<open>
  \<open>pkg/echo/v1/echo_grpc.pb.go\<close>: the stubs between the service and the gRPC library. A connection is what its
  \<open>Invoke\<close> does at the two pairs of message types; a handler that panics is \<open>None\<close>, and \<open>status_Error\<close>
  makes an error from a code that is not OK and a message.
\<close>

section \<open>The client\<close>

definition Echoer_Echo_FullMethodName :: string where
  "Echoer_Echo_FullMethodName = ''/pkg.echo.v1.Echoer/Echo''"

definition Echoer_Status_FullMethodName :: string where
  "Echoer_Status_FullMethodName = ''/pkg.echo.v1.Echoer/Status''"

text \<open>\<open>'c\<close> is the context of a call with its options. \<open>Invoke\<close> fills the reply it is given.\<close>

record ('c, 'e) echoerClient =
  Invoke_Echo :: "'c \<Rightarrow> string \<Rightarrow> EchoRequest \<Rightarrow> EchoResponse \<Rightarrow> EchoResponse \<times> 'e option"
  Invoke_Status :: "'c \<Rightarrow> string \<Rightarrow> StatusRequest \<Rightarrow> StatusResponse \<Rightarrow> StatusResponse \<times> 'e option"

definition new_EchoResponse :: EchoResponse where
  "new_EchoResponse =
     \<lparr>rs_Query = [], rs_Kubernetes = None, rs_Request = None, rs_Runtime = None, rs_Extensions = [],
      rs_ServerDurationNs = 0, rs_ReceivedAtUnixNano = 0, rs_SentAtUnixNano = 0,
      rs_Shape = PAYLOAD_SHAPE_UNSPECIFIED, rs_Payload = None\<rparr>"

definition client_Echo :: "('c, 'e) echoerClient \<Rightarrow> 'c \<Rightarrow> EchoRequest \<Rightarrow> EchoResponse option \<times> 'e option" where
  "client_Echo cc c req =
     (case Invoke_Echo cc c Echoer_Echo_FullMethodName req new_EchoResponse of
        (out, err) \<Rightarrow> if err \<noteq> None then (None, err) else (Some out, None))"

definition client_Status :: "('c, 'e) echoerClient \<Rightarrow> 'c \<Rightarrow> StatusRequest \<Rightarrow> StatusResponse option \<times> 'e option" where
  "client_Status cc c req =
     (case Invoke_Status cc c Echoer_Status_FullMethodName req StatusResponse of
        (out, err) \<Rightarrow> if err \<noteq> None then (None, err) else (Some out, None))"

section \<open>The server\<close>

text \<open>\<open>'k\<close> is the context a handler runs under.\<close>

type_synonym ('k, 'm, 'r, 'e) unary = "'k \<Rightarrow> 'm \<Rightarrow> ('r option \<times> 'e option) option"

record ('k, 'e) EchoerServer =
  srv_Echo :: "('k, EchoRequest, EchoResponse, 'e) unary"
  srv_Status :: "('k, StatusRequest, StatusResponse, 'e) unary"

definition code_Unimplemented :: nat where "code_Unimplemented = 12"

definition UnimplementedEchoerServer :: "(nat \<Rightarrow> string \<Rightarrow> 'e) \<Rightarrow> ('k, 'e) EchoerServer" where
  "UnimplementedEchoerServer status_Error =
     \<lparr>srv_Echo = (\<lambda>_ _. Some (None, Some (status_Error code_Unimplemented ''method Echo not implemented''))),
      srv_Status = (\<lambda>_ _. Some (None, Some (status_Error code_Unimplemented ''method Status not implemented'')))\<rparr>"

text \<open>The methods of \<open>v1.Server\<close> take the place of the embedded ones.\<close>

definition v1_Server ::
  "(nat \<Rightarrow> string \<Rightarrow> 'e) \<Rightarrow> process \<Rightarrow> (string \<times> string list) order \<Rightarrow> int \<Rightarrow> int \<Rightarrow> (context_chain, 'e) EchoerServer" where
  "v1_Server status_Error p ord t1 t2 =
     (UnimplementedEchoerServer status_Error)
       \<lparr>srv_Echo := \<lambda>ctx req. map_option (\<lambda>rsp. (Some rsp, None)) (Echo p ord t1 t2 ctx req),
        srv_Status := \<lambda>_ req. Some (Some StatusResponse,
          case Status req of OkStatus \<Rightarrow> None | GrpcError code m \<Rightarrow> Some (status_Error code m))\<rparr>"

record ('k, 'e) UnaryServerInfo =
  ui_Server :: "('k, 'e) EchoerServer"
  ui_FullMethod :: string

text \<open>An interceptor gets the context, the request, the method's description and the handler.\<close>

type_synonym ('k, 'm, 'r, 'e) interceptor =
  "'k \<Rightarrow> 'm \<Rightarrow> ('k, 'e) UnaryServerInfo \<Rightarrow> ('k, 'm, 'r, 'e) unary \<Rightarrow> ('r option \<times> 'e option) option"

text \<open>\<open>dec\<close> fills the request it is given from the bytes that came in.\<close>

definition Echoer_Echo_Handler ::
  "('k, 'e) EchoerServer \<Rightarrow> 'k \<Rightarrow> (EchoRequest \<Rightarrow> EchoRequest \<times> 'e option) \<Rightarrow>
   ('k, EchoRequest, EchoResponse, 'e) interceptor option \<Rightarrow> (EchoResponse option \<times> 'e option) option" where
  "Echoer_Echo_Handler srv ctx dec interceptor =
     (case dec \<lparr>rq_Query = [], rq_Shape = PAYLOAD_SHAPE_UNSPECIFIED, rq_Payload = None\<rparr> of
        (_, Some err) \<Rightarrow> Some (None, Some err)
      | (req, None) \<Rightarrow>
          (case interceptor of
             None \<Rightarrow> srv_Echo srv ctx req
           | Some i \<Rightarrow> i ctx req \<lparr>ui_Server = srv, ui_FullMethod = Echoer_Echo_FullMethodName\<rparr>
               (\<lambda>ctx req. srv_Echo srv ctx req)))"

definition Echoer_Status_Handler ::
  "('k, 'e) EchoerServer \<Rightarrow> 'k \<Rightarrow> (StatusRequest \<Rightarrow> StatusRequest \<times> 'e option) \<Rightarrow>
   ('k, StatusRequest, StatusResponse, 'e) interceptor option \<Rightarrow> (StatusResponse option \<times> 'e option) option" where
  "Echoer_Status_Handler srv ctx dec interceptor =
     (case dec \<lparr>sr_ForceGrpcStatus = 0, sr_Message = []\<rparr> of
        (_, Some err) \<Rightarrow> Some (None, Some err)
      | (req, None) \<Rightarrow>
          (case interceptor of
             None \<Rightarrow> srv_Status srv ctx req
           | Some i \<Rightarrow> i ctx req \<lparr>ui_Server = srv, ui_FullMethod = Echoer_Status_FullMethodName\<rparr>
               (\<lambda>ctx req. srv_Status srv ctx req)))"

datatype ('k, 'e) method_handler =
    EchoHandler "('k, 'e) EchoerServer \<Rightarrow> 'k \<Rightarrow> (EchoRequest \<Rightarrow> EchoRequest \<times> 'e option) \<Rightarrow>
      ('k, EchoRequest, EchoResponse, 'e) interceptor option \<Rightarrow> (EchoResponse option \<times> 'e option) option"
  | StatusHandler "('k, 'e) EchoerServer \<Rightarrow> 'k \<Rightarrow> (StatusRequest \<Rightarrow> StatusRequest \<times> 'e option) \<Rightarrow>
      ('k, StatusRequest, StatusResponse, 'e) interceptor option \<Rightarrow> (StatusResponse option \<times> 'e option) option"

record ('k, 'e) ServiceDesc =
  sd_ServiceName :: string
  sd_Methods :: "(string \<times> ('k, 'e) method_handler) list"
  sd_Streams :: "string list"
  sd_Metadata :: string

definition Echoer_ServiceDesc :: "('k, 'e) ServiceDesc" where
  "Echoer_ServiceDesc =
     \<lparr>sd_ServiceName = ''pkg.echo.v1.Echoer'',
      sd_Methods = [(''Echo'', EchoHandler Echoer_Echo_Handler), (''Status'', StatusHandler Echoer_Status_Handler)],
      sd_Streams = [], sd_Metadata = ''pkg/echo/v1/echo.proto''\<rparr>"

section \<open>Lemmas\<close>

text \<open>gRPC asks for a method by the path \<open>/service/method\<close>.\<close>

definition full_method :: "('k, 'e) ServiceDesc \<Rightarrow> string \<Rightarrow> string" where
  "full_method sd m = ''/'' @ sd_ServiceName sd @ ''/'' @ m"

definition find_handler :: "('k, 'e) ServiceDesc \<Rightarrow> string \<Rightarrow> ('k, 'e) method_handler option" where
  "find_handler sd path = map_of (map (\<lambda>(m, h). (full_method sd m, h)) (sd_Methods sd)) path"

lemma find_handler_Echoer [simp]:
  "find_handler Echoer_ServiceDesc Echoer_Echo_FullMethodName = Some (EchoHandler Echoer_Echo_Handler)"
  "find_handler Echoer_ServiceDesc Echoer_Status_FullMethodName = Some (StatusHandler Echoer_Status_Handler)"
  by (simp_all add: find_handler_def full_method_def Echoer_ServiceDesc_def Echoer_Echo_FullMethodName_def
      Echoer_Status_FullMethodName_def)

lemma full_methods_Echoer:
  "map (full_method Echoer_ServiceDesc) (map fst (sd_Methods Echoer_ServiceDesc)) =
     [Echoer_Echo_FullMethodName, Echoer_Status_FullMethodName]"
  by (simp add: full_method_def Echoer_ServiceDesc_def Echoer_Echo_FullMethodName_def
      Echoer_Status_FullMethodName_def)

text \<open>What the handlers answer when the request was decoded and no interceptor is set.\<close>

lemma handlers_plain:
  "Echoer_Echo_Handler srv ctx (\<lambda>_. (req, None)) None = srv_Echo srv ctx req"
  "Echoer_Status_Handler srv ctx (\<lambda>_. (sreq, None)) None = srv_Status srv ctx sreq"
  by (simp_all add: Echoer_Echo_Handler_def Echoer_Status_Handler_def)

lemma v1_Server_simps [simp]:
  "srv_Echo (v1_Server se p ord t1 t2) ctx req = map_option (\<lambda>rsp. (Some rsp, None)) (Echo p ord t1 t2 ctx req)"
  "srv_Status (v1_Server se p ord t1 t2) ctx sreq = Some (Some StatusResponse,
     case Status sreq of OkStatus \<Rightarrow> None | GrpcError code m \<Rightarrow> Some (se code m))"
  by (simp_all add: v1_Server_def)

lemma client_success:
  "client_Echo cc c req = (Some rsp, None) \<longleftrightarrow>
     Invoke_Echo cc c Echoer_Echo_FullMethodName req new_EchoResponse = (rsp, None)"
  "client_Status cc c sreq = (Some srsp, None) \<longleftrightarrow>
     Invoke_Status cc c Echoer_Status_FullMethodName sreq StatusResponse = (srsp, None)"
  by (auto simp: client_Echo_def client_Status_def split: prod.splits if_splits)

end
