(* ===== verification/Cert_Authority.thy ===== *)
theory Cert_Authority
  imports Echopb
begin

text \<open>
  \<open>pkg/echo/cert_ca.go\<close>: the self-signed authority and the server certificate it signs. RSA, DER and PEM
  belong to Go's crypto libraries and are the fields of a record \<open>crypto\<close>; a certificate is a record of
  the fields the code sets and the ones \<open>CreateCertificate\<close> fills in. A nil dereference is \<open>Panic\<close>. The
  clock is read at the numbered points of the code, and a time is in whole seconds, which is what a
  certificate stores.
\<close>

section \<open>Certificates\<close>

type_synonym rsa_key = nat
type_synonym time = int

datatype key_usage = KeyUsageDigitalSignature | KeyUsageCertSign
datatype ext_key_usage = ExtKeyUsageClientAuth | ExtKeyUsageServerAuth

record pkix_name =
  pn_CommonName :: string
  pn_Organization :: "string list"

record certificate =
  ct_SerialNumber :: int
  ct_Subject :: pkix_name
  ct_Issuer :: pkix_name
  ct_IPAddresses :: "string list"
  ct_DNSNames :: "string list"
  ct_NotBefore :: time
  ct_NotAfter :: time
  ct_IsCA :: bool
  ct_BasicConstraintsValid :: bool
  ct_KeyUsage :: "key_usage list"
  ct_ExtKeyUsage :: "ext_key_usage list"
  ct_PublicKey :: rsa_key
  ct_SignedBy :: rsa_key

text \<open>
  \<open>cy_GenerateKey n\<close> is the answer of the \<open>n\<close>-th call. \<open>CreateCertificate\<close> takes the subject of the
  parent as issuer, stores the public key and signs with the key it is given.
\<close>

record tls_certificate =
  tc_Certificate :: "bytes list"
  tc_PrivateKey :: rsa_key

record 'x crypto =
  cy_GenerateKey :: "nat \<Rightarrow> 'x + rsa_key"
  cy_CreateCertificate :: "certificate \<Rightarrow> 'x + bytes"
  cy_ParseCertificate :: "bytes \<Rightarrow> 'x + certificate"
  cy_MarshalPKCS1PrivateKey :: "rsa_key \<Rightarrow> bytes"
  cy_ParsePKCS1PrivateKey :: "bytes \<Rightarrow> 'x + rsa_key"
  cy_pem_Encode :: "string \<Rightarrow> bytes \<Rightarrow> 'x + bytes"
  cy_pem_Decode :: "bytes \<Rightarrow> (string \<times> bytes) option"
  cy_X509KeyPair :: "bytes \<Rightarrow> bytes \<Rightarrow> 'x + tls_certificate"
  cy_now :: "nat \<Rightarrow> time"
  cy_AddDate :: "time \<Rightarrow> int \<Rightarrow> int \<Rightarrow> int \<Rightarrow> time"

definition CreateCertificate ::
  "'x crypto \<Rightarrow> certificate \<Rightarrow> certificate \<Rightarrow> rsa_key \<Rightarrow> rsa_key \<Rightarrow> 'x + bytes" where
  "CreateCertificate cy template parent pub priv =
     cy_CreateCertificate cy
       (template\<lparr>ct_Issuer := ct_Subject parent, ct_PublicKey := pub, ct_SignedBy := priv\<rparr>)"

section \<open>The code\<close>

record Pair =
  PrivatePEM :: bytes
  CertPEM :: bytes

definition X509KeyPair :: "'x crypto \<Rightarrow> Pair \<Rightarrow> 'x + tls_certificate" where
  "X509KeyPair cy p = cy_X509KeyPair cy (CertPEM p) (PrivatePEM p)"

datatype 'x ca_error =
    GeneratingCAKey 'x | CreatingX509 'x | PEMEncodingCertificate 'x | PEMEncodingKey 'x
  | ParsingCACert 'x string | ParsingCAKey 'x string | GeneratingKey 'x

datatype ('x, 'a) checked = Ok 'a | Err 'x | Panic

definition encode_pair :: "'x crypto \<Rightarrow> bytes \<Rightarrow> rsa_key \<Rightarrow> ('x ca_error, Pair) checked" where
  "encode_pair cy der key =
     (case cy_pem_Encode cy ''CERTIFICATE'' der of
        Inl e \<Rightarrow> Err (PEMEncodingCertificate e)
      | Inr crtPem \<Rightarrow>
          (case cy_pem_Encode cy ''RSA PRIVATE KEY'' (cy_MarshalPKCS1PrivateKey cy key) of
             Inl e \<Rightarrow> Err (PEMEncodingKey e)
           | Inr keyPem \<Rightarrow> Ok \<lparr>PrivatePEM = keyPem, CertPEM = crtPem\<rparr>))"

definition ca_template :: "'x crypto \<Rightarrow> certificate" where
  "ca_template cy =
     \<lparr>ct_SerialNumber = 1, ct_Subject = \<lparr>pn_CommonName = [], pn_Organization = [''ACME Co.'']\<rparr>,
      ct_Issuer = \<lparr>pn_CommonName = [], pn_Organization = []\<rparr>, ct_IPAddresses = [], ct_DNSNames = [],
      ct_NotBefore = cy_now cy 0, ct_NotAfter = cy_AddDate cy (cy_now cy 1) 0 3 0, ct_IsCA = True,
      ct_BasicConstraintsValid = True, ct_KeyUsage = [KeyUsageDigitalSignature, KeyUsageCertSign],
      ct_ExtKeyUsage = [], ct_PublicKey = 0, ct_SignedBy = 0\<rparr>"

definition generateCACert :: "'x crypto \<Rightarrow> ('x ca_error, Pair) checked" where
  "generateCACert cy =
     (case cy_GenerateKey cy 0 of
        Inl e \<Rightarrow> Err (GeneratingCAKey e)
      | Inr key \<Rightarrow>
          let crt = ca_template cy in
          (case CreateCertificate cy crt crt key key of
             Inl e \<Rightarrow> Err (CreatingX509 e)
           | Inr ca \<Rightarrow> encode_pair cy ca key))"

definition server_template :: "'x crypto \<Rightarrow> certificate" where
  "server_template cy =
     \<lparr>ct_SerialNumber = 1,
      ct_Subject = \<lparr>pn_CommonName = ''localhost'', pn_Organization = [''ACME Co.'']\<rparr>,
      ct_Issuer = \<lparr>pn_CommonName = [], pn_Organization = []\<rparr>,
      ct_IPAddresses = [''127.0.0.1'', ''::1''], ct_DNSNames = [],
      ct_NotBefore = cy_now cy 2, ct_NotAfter = cy_AddDate cy (cy_now cy 3) 0 0 14, ct_IsCA = False,
      ct_BasicConstraintsValid = False, ct_KeyUsage = [KeyUsageDigitalSignature],
      ct_ExtKeyUsage = [ExtKeyUsageClientAuth, ExtKeyUsageServerAuth], ct_PublicKey = 0, ct_SignedBy = 0\<rparr>"

definition generateServerCert :: "'x crypto \<Rightarrow> Pair \<Rightarrow> ('x ca_error, Pair) checked" where
  "generateServerCert cy caPair =
     (case cy_pem_Decode cy (CertPEM caPair) of
        None \<Rightarrow> Panic
      | Some (certType, certBytes) \<Rightarrow>
          (case cy_ParseCertificate cy certBytes of
             Inl e \<Rightarrow> Err (ParsingCACert e certType)
           | Inr caCert \<Rightarrow>
               (case cy_pem_Decode cy (PrivatePEM caPair) of
                  None \<Rightarrow> Panic
                | Some (keyType, keyBytes) \<Rightarrow>
                    (case cy_ParsePKCS1PrivateKey cy keyBytes of
                       Inl e \<Rightarrow> Err (ParsingCAKey e keyType)
                     | Inr caKey \<Rightarrow>
                         (case cy_GenerateKey cy 1 of
                            Inl e \<Rightarrow> Err (GeneratingKey e)
                          | Inr key \<Rightarrow>
                              (case CreateCertificate cy (server_template cy) caCert key caKey of
                                 Inl e \<Rightarrow> Err (CreatingX509 e)
                               | Inr ca \<Rightarrow> encode_pair cy ca key))))))"

section \<open>What the crypto libraries promise\<close>

text \<open>
  Documented round trips: what an encoder wrote, its decoder reads back; a certificate and a private key
  load as a pair when both parse and the key is the one the certificate is for.
\<close>

definition crypto_ok :: "'x crypto \<Rightarrow> bool" where
  "crypto_ok cy \<longleftrightarrow>
     (\<forall>t der pem. cy_pem_Encode cy t der = Inr pem \<longrightarrow> cy_pem_Decode cy pem = Some (t, der)) \<and>
     (\<forall>c der. cy_CreateCertificate cy c = Inr der \<longrightarrow> cy_ParseCertificate cy der = Inr c) \<and>
     (\<forall>k. cy_ParsePKCS1PrivateKey cy (cy_MarshalPKCS1PrivateKey cy k) = Inr k) \<and>
     (\<forall>certPEM keyPEM der c kd k. cy_pem_Decode cy certPEM = Some (''CERTIFICATE'', der) \<longrightarrow>
        cy_ParseCertificate cy der = Inr c \<longrightarrow> cy_pem_Decode cy keyPEM = Some (''RSA PRIVATE KEY'', kd) \<longrightarrow>
        cy_ParsePKCS1PrivateKey cy kd = Inr k \<longrightarrow> ct_PublicKey c = k \<longrightarrow>
        cy_X509KeyPair cy certPEM keyPEM = Inr \<lparr>tc_Certificate = [der], tc_PrivateKey = k\<rparr>)"

text \<open>The checks a TLS client makes of a leaf against one trusted root at a moment \<open>t\<close>.\<close>

definition chain_ok :: "certificate \<Rightarrow> certificate \<Rightarrow> time \<Rightarrow> bool" where
  "chain_ok anchor leaf t \<longleftrightarrow>
     ct_IsCA anchor \<and> ct_BasicConstraintsValid anchor \<and> KeyUsageCertSign \<in> set (ct_KeyUsage anchor) \<and>
     ct_Issuer leaf = ct_Subject anchor \<and> ct_SignedBy leaf = ct_PublicKey anchor \<and>
     ExtKeyUsageServerAuth \<in> set (ct_ExtKeyUsage leaf) \<and>
     ct_NotBefore anchor \<le> t \<and> t \<le> ct_NotAfter anchor \<and> ct_NotBefore leaf \<le> t \<and> t \<le> ct_NotAfter leaf"

lemma encode_pair_Ok:
  assumes "crypto_ok cy" "encode_pair cy der key = Ok p"
  shows "cy_pem_Decode cy (CertPEM p) = Some (''CERTIFICATE'', der)"
    "cy_pem_Decode cy (PrivatePEM p) = Some (''RSA PRIVATE KEY'', cy_MarshalPKCS1PrivateKey cy key)"
  using assms by (auto simp: encode_pair_def crypto_ok_def split: sum.splits)

lemma encode_pair_no_panic: "encode_pair cy der key \<noteq> Panic"
  by (simp add: encode_pair_def split: sum.split)

text \<open>What the authority's pair holds, in the form the server certificate reads it.\<close>

lemma generateCACert_Ok:
  assumes "crypto_ok cy" "generateCACert cy = Ok p"
  obtains key der where
    "cy_GenerateKey cy 0 = Inr key"
    "cy_pem_Decode cy (CertPEM p) = Some (''CERTIFICATE'', der)"
    "cy_ParseCertificate cy der = Inr ((ca_template cy)\<lparr>ct_Issuer := ct_Subject (ca_template cy),
       ct_PublicKey := key, ct_SignedBy := key\<rparr>)"
    "cy_pem_Decode cy (PrivatePEM p) = Some (''RSA PRIVATE KEY'', cy_MarshalPKCS1PrivateKey cy key)"
    "cy_ParsePKCS1PrivateKey cy (cy_MarshalPKCS1PrivateKey cy key) = Inr key"
proof -
  from assms(2) obtain key der where k: "cy_GenerateKey cy 0 = Inr key"
    "CreateCertificate cy (ca_template cy) (ca_template cy) key key = Inr der" "encode_pair cy der key = Ok p"
    by (auto simp: generateCACert_def Let_def split: sum.splits)
  then show thesis
    using assms(1) encode_pair_Ok [OF assms(1) k(3)]
    by (intro that [of key der]) (auto simp: crypto_ok_def CreateCertificate_def)
qed

text \<open>From such a pair only the new key, the signature and the encoding can fail.\<close>

lemma generateServerCert_eq:
  assumes "crypto_ok cy" "generateCACert cy = Ok caPair"
  obtains key der where
    "cy_pem_Decode cy (CertPEM caPair) = Some (''CERTIFICATE'', der)"
    "cy_ParseCertificate cy der = Inr ((ca_template cy)\<lparr>ct_Issuer := ct_Subject (ca_template cy),
       ct_PublicKey := key, ct_SignedBy := key\<rparr>)"
    "generateServerCert cy caPair =
      (case cy_GenerateKey cy 1 of
         Inl e \<Rightarrow> Err (GeneratingKey e)
       | Inr key' \<Rightarrow>
           (case CreateCertificate cy (server_template cy) ((ca_template cy)
                \<lparr>ct_Issuer := ct_Subject (ca_template cy), ct_PublicKey := key, ct_SignedBy := key\<rparr>) key' key of
              Inl e \<Rightarrow> Err (CreatingX509 e)
            | Inr ca \<Rightarrow> encode_pair cy ca key'))"
proof -
  from generateCACert_Ok [OF assms] obtain key der where k:
    "cy_pem_Decode cy (CertPEM caPair) = Some (''CERTIFICATE'', der)"
    "cy_ParseCertificate cy der = Inr ((ca_template cy)\<lparr>ct_Issuer := ct_Subject (ca_template cy),
       ct_PublicKey := key, ct_SignedBy := key\<rparr>)"
    "cy_pem_Decode cy (PrivatePEM caPair) = Some (''RSA PRIVATE KEY'', cy_MarshalPKCS1PrivateKey cy key)"
    "cy_ParsePKCS1PrivateKey cy (cy_MarshalPKCS1PrivateKey cy key) = Inr key" by metis
  show thesis by (rule that [OF k(1,2)]) (simp add: generateServerCert_def k)
qed

lemma generateServerCert_no_panic:
  assumes "crypto_ok cy" "generateCACert cy = Ok caPair"
  shows "generateServerCert cy caPair \<noteq> Panic"
  by (rule generateServerCert_eq [OF assms]) (auto simp: encode_pair_no_panic split: sum.split)

lemma generateCACert_no_panic: "generateCACert cy \<noteq> Panic"
  by (simp add: generateCACert_def Let_def encode_pair_no_panic split: sum.split)

text \<open>Every pair the two generators make loads.\<close>

lemma encoded_pair_loads:
  assumes "crypto_ok cy" "CreateCertificate cy t parent key priv = Inr der" "encode_pair cy der key = Ok pair"
  shows "X509KeyPair cy pair = Inr \<lparr>tc_Certificate = [der], tc_PrivateKey = key\<rparr>"
proof -
  have "cy_ParseCertificate cy der = Inr (t\<lparr>ct_Issuer := ct_Subject parent, ct_PublicKey := key, ct_SignedBy := priv\<rparr>)"
    "cy_ParsePKCS1PrivateKey cy (cy_MarshalPKCS1PrivateKey cy key) = Inr key"
    using assms(1,2) by (simp_all add: crypto_ok_def CreateCertificate_def)
  then show ?thesis
    using assms(1) encode_pair_Ok [OF assms(1,3)] unfolding crypto_ok_def X509KeyPair_def by simp
qed

lemma generateServerCert_loads:
  assumes "crypto_ok cy" "generateCACert cy = Ok caPair" "generateServerCert cy caPair = Ok pair"
  shows "\<exists>der key. cy_GenerateKey cy 1 = Inr key \<and>
    X509KeyPair cy pair = Inr \<lparr>tc_Certificate = [der], tc_PrivateKey = key\<rparr>"
proof (rule generateServerCert_eq [OF assms(1,2)])
  fix key der
  let ?anchor = "(ca_template cy)\<lparr>ct_Issuer := ct_Subject (ca_template cy), ct_PublicKey := key, ct_SignedBy := key\<rparr>"
  assume gen: "generateServerCert cy caPair =
      (case cy_GenerateKey cy 1 of
         Inl e \<Rightarrow> Err (GeneratingKey e)
       | Inr key' \<Rightarrow>
           (case CreateCertificate cy (server_template cy) ?anchor key' key of
              Inl e \<Rightarrow> Err (CreatingX509 e)
            | Inr ca \<Rightarrow> encode_pair cy ca key'))"
  from assms(3) obtain key' d where k: "cy_GenerateKey cy 1 = Inr key'"
    "CreateCertificate cy (server_template cy) ?anchor key' key = Inr d" "encode_pair cy d key' = Ok pair"
    by (auto simp: gen split: sum.splits)
  from encoded_pair_loads [OF assms(1) k(2,3)] k(1) show ?thesis by blast
qed

section \<open>Properties\<close>

text \<open>
  C20: The server certificate is good under its authority: from a pair made by \<open>generateCACert\<close>,
  \<open>generateServerCert\<close> never panics and never fails to read the pair back; the certificate it makes is
  signed by the authority's key under the authority's name, is meant for server authentication on both
  loopback addresses, loads as a pair with the private key next to it, and is accepted while both are in date.
\<close>

theorem server_cert_verifies:
  assumes "crypto_ok cy" "generateCACert cy = Ok caPair"
  shows "generateServerCert cy caPair \<noteq> Panic \<and>
    (\<exists>anchor. cy_ParseCertificate cy (snd (the (cy_pem_Decode cy (CertPEM caPair)))) = Inr anchor \<and>
      (\<forall>pair. generateServerCert cy caPair = Ok pair \<longrightarrow>
        (\<exists>leaf der key. cy_pem_Decode cy (CertPEM pair) = Some (''CERTIFICATE'', der) \<and>
          cy_ParseCertificate cy der = Inr leaf \<and>
          cy_pem_Decode cy (PrivatePEM pair) = Some (''RSA PRIVATE KEY'', cy_MarshalPKCS1PrivateKey cy key) \<and>
          ct_PublicKey leaf = key \<and> ct_IPAddresses leaf = [''127.0.0.1'', ''::1''] \<and>
          X509KeyPair cy pair = Inr \<lparr>tc_Certificate = [der], tc_PrivateKey = key\<rparr> \<and>
          (\<forall>t. chain_ok anchor leaf t \<longleftrightarrow>
            cy_now cy 0 \<le> t \<and> t \<le> cy_AddDate cy (cy_now cy 1) 0 3 0 \<and>
            cy_now cy 2 \<le> t \<and> t \<le> cy_AddDate cy (cy_now cy 3) 0 0 14))))"
proof -
  let ?anchor = "\<lambda>key. (ca_template cy)\<lparr>ct_Issuer := ct_Subject (ca_template cy), ct_PublicKey := key, ct_SignedBy := key\<rparr>"
  from generateServerCert_eq [OF assms] obtain key der where k:
    "cy_pem_Decode cy (CertPEM caPair) = Some (''CERTIFICATE'', der)"
    "cy_ParseCertificate cy der = Inr (?anchor key)"
    and gen: "generateServerCert cy caPair =
      (case cy_GenerateKey cy 1 of
         Inl e \<Rightarrow> Err (GeneratingKey e)
       | Inr key' \<Rightarrow>
           (case CreateCertificate cy (server_template cy) (?anchor key) key' key of
              Inl e \<Rightarrow> Err (CreatingX509 e)
            | Inr ca \<Rightarrow> encode_pair cy ca key'))" .
  have "\<exists>leaf d key'. cy_pem_Decode cy (CertPEM pair) = Some (''CERTIFICATE'', d) \<and>
      cy_ParseCertificate cy d = Inr leaf \<and>
      cy_pem_Decode cy (PrivatePEM pair) = Some (''RSA PRIVATE KEY'', cy_MarshalPKCS1PrivateKey cy key') \<and>
      ct_PublicKey leaf = key' \<and> ct_IPAddresses leaf = [''127.0.0.1'', ''::1''] \<and>
      X509KeyPair cy pair = Inr \<lparr>tc_Certificate = [d], tc_PrivateKey = key'\<rparr> \<and>
      (\<forall>t. chain_ok (?anchor key) leaf t \<longleftrightarrow>
        cy_now cy 0 \<le> t \<and> t \<le> cy_AddDate cy (cy_now cy 1) 0 3 0 \<and>
        cy_now cy 2 \<le> t \<and> t \<le> cy_AddDate cy (cy_now cy 3) 0 0 14)"
    if ok: "generateServerCert cy caPair = Ok pair" for pair
  proof -
    from ok obtain key' d where s: "CreateCertificate cy (server_template cy) (?anchor key) key' key = Inr d"
      "encode_pair cy d key' = Ok pair"
      by (auto simp: gen split: sum.splits)
    let ?leaf = "(server_template cy)\<lparr>ct_Issuer := ct_Subject (?anchor key), ct_PublicKey := key', ct_SignedBy := key\<rparr>"
    have "cy_ParseCertificate cy d = Inr ?leaf"
      using s(1) assms(1) by (auto simp: CreateCertificate_def crypto_ok_def)
    then show ?thesis
      using encode_pair_Ok [OF assms(1) s(2)] encoded_pair_loads [OF assms(1) s]
      by (intro exI [of _ ?leaf] exI [of _ d] exI [of _ key'])
        (simp add: chain_ok_def ca_template_def server_template_def)
  qed
  with generateServerCert_no_panic [OF assms] k show ?thesis by simp
qed

text \<open>
  An instance: a clock, keys numbered by their call, PEM with a zero byte after the label, and a signer that
  knows the two certificates of this program.
\<close>

definition example_base :: "unit crypto" where
  "example_base =
     \<lparr>cy_GenerateKey = (\<lambda>n. Inr (n + 7)), cy_CreateCertificate = (\<lambda>_. Inl ()),
      cy_ParseCertificate = (\<lambda>_. Inl ()), cy_MarshalPKCS1PrivateKey = (\<lambda>k. replicate k CHR ''k''),
      cy_ParsePKCS1PrivateKey = (\<lambda>b. Inr (length b)),
      cy_pem_Encode = (\<lambda>t der. if CHR 0x00 \<in> set t then Inl () else Inr (t @ CHR 0x00 # der)),
      cy_pem_Decode = (\<lambda>pem. Some (takeWhile (\<lambda>c. c \<noteq> CHR 0x00) pem, tl (dropWhile (\<lambda>c. c \<noteq> CHR 0x00) pem))),
      cy_X509KeyPair = (\<lambda>_ _. Inl ()), cy_now = (\<lambda>n. 1000 + int n), cy_AddDate = (\<lambda>t y m d. t + 365 * y + 30 * m + d)\<rparr>"

definition example_anchor :: certificate where
  "example_anchor = (ca_template example_base)\<lparr>ct_Issuer := ct_Subject (ca_template example_base),
     ct_PublicKey := 7, ct_SignedBy := 7\<rparr>"

definition example_leaf :: certificate where
  "example_leaf = (server_template example_base)\<lparr>ct_Issuer := ct_Subject example_anchor,
     ct_PublicKey := 8, ct_SignedBy := 7\<rparr>"

definition example_crypto :: "unit crypto" where
  "example_crypto = example_base
     \<lparr>cy_CreateCertificate := (\<lambda>c. if c = example_anchor then Inr ''a'' else if c = example_leaf then Inr ''b'' else Inl ()),
      cy_ParseCertificate := (\<lambda>b. if b = ''a'' then Inr example_anchor else if b = ''b'' then Inr example_leaf else Inl ()),
      cy_X509KeyPair := (\<lambda>c k. Inr \<lparr>tc_Certificate = [tl (dropWhile (\<lambda>x. x \<noteq> CHR 0x00) c)],
        tc_PrivateKey = length (tl (dropWhile (\<lambda>x. x \<noteq> CHR 0x00) k))\<rparr>)\<rparr>"

lemma example_fields:
  "cy_GenerateKey example_crypto n = Inr (n + 7)"
  "cy_CreateCertificate example_crypto c =
     (if c = example_anchor then Inr ''a'' else if c = example_leaf then Inr ''b'' else Inl ())"
  "cy_ParseCertificate example_crypto b =
     (if b = ''a'' then Inr example_anchor else if b = ''b'' then Inr example_leaf else Inl ())"
  "cy_MarshalPKCS1PrivateKey example_crypto k = replicate k CHR ''k''"
  "cy_ParsePKCS1PrivateKey example_crypto b = Inr (length b)"
  "cy_pem_Encode example_crypto t b = (if CHR 0x00 \<in> set t then Inl () else Inr (t @ CHR 0x00 # b))"
  "cy_pem_Decode example_crypto b =
     Some (takeWhile (\<lambda>c. c \<noteq> CHR 0x00) b, tl (dropWhile (\<lambda>c. c \<noteq> CHR 0x00) b))"
  "cy_X509KeyPair example_crypto c' k' = Inr \<lparr>tc_Certificate = [tl (dropWhile (\<lambda>x. x \<noteq> CHR 0x00) c')],
     tc_PrivateKey = length (tl (dropWhile (\<lambda>x. x \<noteq> CHR 0x00) k'))\<rparr>"
  "ca_template example_crypto = ca_template example_base"
  by (simp_all add: example_crypto_def example_base_def ca_template_def)

lemma example_crypto_ok: "crypto_ok example_crypto"
proof -
  have distinct: "example_leaf \<noteq> example_anchor"
    by (simp add: example_leaf_def example_anchor_def server_template_def ca_template_def)
  have cut: "takeWhile (\<lambda>c. c \<noteq> CHR 0x00) (t @ CHR 0x00 # der) = t"
    "tl (dropWhile (\<lambda>c. c \<noteq> CHR 0x00) (t @ CHR 0x00 # der)) = der" if "CHR 0x00 \<notin> set t" for t der
    using that by (induction t) auto
  show ?thesis
    unfolding crypto_ok_def by (auto simp: example_fields distinct cut split: if_splits)
qed

lemma example_ca: "generateCACert example_crypto =
    Ok \<lparr>PrivatePEM = ''RSA PRIVATE KEY'' @ CHR 0x00 # ''kkkkkkk'', CertPEM = ''CERTIFICATE'' @ CHR 0x00 # ''a''\<rparr>"
proof -
  have seven: "replicate 7 c = [c, c, c, c, c, c, c]" for c :: char by (simp add: numeral_eq_Suc)
  show ?thesis
    by (simp add: generateCACert_def CreateCertificate_def example_fields encode_pair_def Let_def seven
        flip: example_anchor_def)
qed

theorem server_cert_verifies_witness:
  "generateServerCert example_crypto
     \<lparr>PrivatePEM = ''RSA PRIVATE KEY'' @ CHR 0x00 # ''kkkkkkk'', CertPEM = ''CERTIFICATE'' @ CHR 0x00 # ''a''\<rparr> \<noteq> Panic"
  using server_cert_verifies [OF example_crypto_ok example_ca] by (rule conjunct1)

end
