(* ===== verification/Transitions.thy ===== *)
theory Transitions
  imports Main
begin

text \<open>
  What the step relations of the servers share: an invariant that holds in every reachable state, a budget
  that bounds the steps of a run from any state in which the invariant holds, and a simulation by an abstract relation that takes one step or none for
  every concrete step.
\<close>

locale step_system =
  fixes step :: "'s \<Rightarrow> 's \<Rightarrow> bool" and start :: 's and inv :: "'s \<Rightarrow> bool"
  assumes start_inv: "inv start"
    and step_inv: "step s t \<Longrightarrow> inv s \<Longrightarrow> inv t"
begin

lemma run_inv_from: "(step ^^ n) s t \<Longrightarrow> inv s \<Longrightarrow> inv t"
  by (induction n arbitrary: t) (auto intro: step_inv)

lemma reachable_inv: "step\<^sup>*\<^sup>* start s \<Longrightarrow> inv s"
  by (induction rule: rtranclp_induct) (auto intro: start_inv step_inv)

lemma run_inv: "(step ^^ n) start s \<Longrightarrow> inv s"
  using run_inv_from start_inv by blast

end

locale budgeted_system = step_system step start inv
  for step :: "'s \<Rightarrow> 's \<Rightarrow> bool" and start :: 's and inv :: "'s \<Rightarrow> bool" +
  fixes budget :: "'s \<Rightarrow> nat"
  assumes step_budget: "step s t \<Longrightarrow> inv s \<Longrightarrow> budget t < budget s"
begin

lemma run_budget_from: "(step ^^ n) s t \<Longrightarrow> inv s \<Longrightarrow> n + budget t \<le> budget s"
proof (induction n arbitrary: t)
  case (Suc n)
  then obtain u where u: "(step ^^ n) s u" "step u t" by auto
  with Suc.IH [OF u(1) Suc.prems(2)] step_budget [OF u(2) run_inv_from [OF u(1) Suc.prems(2)]]
  show ?case by simp
qed simp

text \<open>So from any such state some run comes to a state with no step left.\<close>

lemma run_to_end:
  "inv s \<Longrightarrow> \<exists>n t. (step ^^ n) s t \<and> (\<nexists>u. step t u)"
proof (induction "budget s" arbitrary: s rule: less_induct)
  case less
  show ?case
  proof (cases "\<exists>u. step s u")
    case False
    then show ?thesis by (intro exI [of _ 0] exI [of _ s]) auto
  next
    case True
    then obtain u where u: "step s u" by blast
    from less.hyps [OF step_budget [OF u less.prems] step_inv [OF u less.prems]] obtain n t where
      "(step ^^ n) u t" "\<nexists>v. step t v" by blast
    have "(step ^^ Suc n) s t" by (rule relpowp_Suc_I2 [where P = step and y = u]) fact+
    with \<open>\<nexists>v. step t v\<close> show ?thesis by blast
  qed
qed

end

locale simulation = step_system step start inv
  for step :: "'s \<Rightarrow> 's \<Rightarrow> bool" and start :: 's and inv :: "'s \<Rightarrow> bool" +
  fixes astep :: "'a \<Rightarrow> 'a \<Rightarrow> bool" and abs_state :: "'s \<Rightarrow> 'a"
  assumes simulates: "step s t \<Longrightarrow> inv s \<Longrightarrow> astep\<^sup>=\<^sup>= (abs_state s) (abs_state t)"
begin

lemma simulated: "step\<^sup>*\<^sup>* start s \<Longrightarrow> astep\<^sup>*\<^sup>* (abs_state start) (abs_state s)"
proof (induction rule: rtranclp_induct)
  case (step s t)
  from simulates [OF step.hyps(2) reachable_inv [OF step.hyps(1)]] step.IH show ?case
    by (auto intro: rtranclp.rtrancl_into_rtrancl)
qed simp

lemma simulated_step:
  "step\<^sup>*\<^sup>* start s \<Longrightarrow> step s t \<Longrightarrow> abs_state t = abs_state s \<or> astep (abs_state s) (abs_state t)"
  using simulates [OF _ reachable_inv] by fastforce

end

end
