(* ===== verification/Netaddr.thy ===== *)
theory Netaddr
  imports Strconv
begin

text \<open>
  \<open>net.SplitHostPort\<close>, which \<open>net.Listen\<close> reads an address with, and the addresses \<open>host:port\<close> that the
  servers build by formatting.
\<close>

datatype addr_error = MissingPort | TooManyColons | MissingBracket | UnexpectedBracket

fun index_of :: "char \<Rightarrow> string \<Rightarrow> nat option" where
  "index_of c [] = None"
| "index_of c (d # s) = (if c = d then Some 0 else map_option Suc (index_of c s))"

fun last_index_of :: "char \<Rightarrow> string \<Rightarrow> nat option" where
  "last_index_of c [] = None"
| "last_index_of c (d # s) =
     (case last_index_of c s of Some i \<Rightarrow> Some (Suc i) | None \<Rightarrow> if c = d then Some 0 else None)"

definition split_checked :: "string \<Rightarrow> nat \<Rightarrow> string \<Rightarrow> nat \<Rightarrow> nat \<Rightarrow> addr_error + string \<times> string" where
  "split_checked hostport i host j k =
     (if CHR ''['' \<in> set (drop j hostport) \<or> CHR '']'' \<in> set (drop k hostport) then Inl UnexpectedBracket
      else Inr (host, drop (i + 1) hostport))"

definition SplitHostPort :: "string \<Rightarrow> addr_error + string \<times> string" where
  "SplitHostPort hostport =
     (case last_index_of CHR '':'' hostport of
        None \<Rightarrow> Inl MissingPort
      | Some i \<Rightarrow>
          if hd hostport = CHR ''['' then
            (case index_of CHR '']'' hostport of
               None \<Rightarrow> Inl MissingBracket
             | Some end_idx \<Rightarrow>
                 if end_idx + 1 = length hostport then Inl MissingPort
                 else if end_idx + 1 = i then
                   split_checked hostport i (drop 1 (take end_idx hostport)) 1 (end_idx + 1)
                 else if hostport ! (end_idx + 1) = CHR '':'' then Inl TooManyColons
                 else Inl MissingPort)
          else if CHR '':'' \<in> set (take i hostport) then Inl TooManyColons
          else split_checked hostport i (take i hostport) 0 0)"

lemma last_index_of_none: "c \<notin> set s \<Longrightarrow> last_index_of c s = None"
  by (induction s) auto

lemma last_index_of_append: "c \<notin> set t \<Longrightarrow> last_index_of c (s @ c # t) = Some (length s)"
  by (induction s) (auto simp: last_index_of_none)

text \<open>An address formatted from a host and a port.\<close>

definition host_port :: "string \<Rightarrow> int \<Rightarrow> string" where
  "host_port host port = host @ '':'' @ show_int port"

lemma show_int_plain:
  "CHR '':'' \<notin> set (show_int x)" "CHR ''['' \<notin> set (show_int x)" "CHR '']'' \<notin> set (show_int x)"
proof -
  have "c \<in> set (show_int x) \<Longrightarrow> c = CHR ''-'' \<or> is_digit c" for c
    using list_all_show_nat by (auto simp: show_int_def list_all_iff split: if_splits)
  then show "CHR '':'' \<notin> set (show_int x)" "CHR ''['' \<notin> set (show_int x)" "CHR '']'' \<notin> set (show_int x)"
    by (force simp: is_digit_def)+
qed

text \<open>A host without colons and brackets splits off again; one with a colon and no bracket is refused.\<close>

lemma SplitHostPort_host_port:
  assumes "CHR '':'' \<notin> set host" "CHR ''['' \<notin> set host" "CHR '']'' \<notin> set host"
  shows "SplitHostPort (host_port host port) = Inr (host, show_int port)"
proof -
  have "hd (host @ CHR '':'' # show_int port) \<noteq> CHR ''[''" using assms(2) by (cases host) auto
  then show ?thesis
    using assms last_index_of_append [OF show_int_plain(1), of host port]
    by (simp add: SplitHostPort_def host_port_def split_checked_def show_int_plain)
qed

lemma SplitHostPort_colons:
  assumes "CHR '':'' \<in> set host" "hd host \<noteq> CHR ''[''"
  shows "SplitHostPort (host_port host port) = Inl TooManyColons"
proof -
  have "hd (host @ CHR '':'' # show_int port) \<noteq> CHR ''[''" using assms by (cases host) auto
  then show ?thesis
    using assms last_index_of_append [OF show_int_plain(1), of host port]
    by (simp add: SplitHostPort_def host_port_def)
qed

text \<open>A bracketed host keeps its colons and loses its brackets.\<close>

lemma index_of_append: "c \<notin> set s \<Longrightarrow> index_of c (s @ c # t) = Some (length s)"
  by (induction s) auto

lemma SplitHostPort_bracketed:
  assumes "CHR ''['' \<notin> set ip" "CHR '']'' \<notin> set ip"
  shows "SplitHostPort (host_port (CHR ''['' # ip @ '']'') port) = Inr (ip, show_int port)"
proof -
  have "last_index_of CHR '':'' (host_port (CHR ''['' # ip @ '']'') port) = Some (length ip + 2)"
    using last_index_of_append [OF show_int_plain(1), of "CHR ''['' # ip @ '']''" port] by (simp add: host_port_def)
  moreover have "index_of CHR '']'' (host_port (CHR ''['' # ip @ '']'') port) = Some (length ip + 1)"
    using index_of_append [of "CHR '']''" "CHR ''['' # ip" "CHR '':'' # show_int port"] assms(2)
    by (simp add: host_port_def)
  ultimately show ?thesis
    using assms
    by (simp add: SplitHostPort_def host_port_def split_checked_def show_int_plain)
qed

end
