(* ===== verification/Echo_Server.thy ===== *)
theory Echo_Server
  imports Echo_Grpc Cert_Authority Transitions Netaddr
begin

text \<open>
  \<open>pkg/echo/echo.go\<close>: the echo server. The file system, the host and the crypto libraries are explicit:
  a failing call is an answer of the environment. The mux is a table of patterns with a handler each, a function from
  a request to a response; the two goroutines of \<open>serve\<close> are a step relation.
\<close>

section \<open>The server and its defaults\<close>

type_synonym ServerMode = nat

definition ServerModeHTTP :: ServerMode where "ServerModeHTTP = 0"
definition ServerModeGRPC :: ServerMode where "ServerModeGRPC = 1"
definition ServerModeBoth :: ServerMode where "ServerModeBoth = 2"

definition ServerModeOptions :: "(ServerMode \<times> string list) list" where
  "ServerModeOptions =
     [(ServerModeHTTP, [[], ''http'']), (ServerModeGRPC, [''grpc'']), (ServerModeBoth, [''grpc+http'', ''both''])]"

text \<open>
  A value that \<open>pflag\<close> can print and set: \<open>Set\<close> returns its error, if any, and the value. The enum flag is the
  library's: \<open>enumflag.New\<close> from a type name, the names of the values and whether case is ignored.
\<close>

record 'v flag_Value =
  fv_String :: "'v \<Rightarrow> string"
  fv_Type :: string
  fv_Set :: "string \<Rightarrow> 'v \<Rightarrow> string option \<times> 'v"

type_synonym enumflag = "string \<Rightarrow> (ServerMode \<times> string list) list \<Rightarrow> bool \<Rightarrow> ServerMode flag_Value"

definition ServerModeVar :: "enumflag \<Rightarrow> string \<Rightarrow> ServerMode flag_Value" where
  "ServerModeVar enumflag_New name = enumflag_New name ServerModeOptions True"

text \<open>
  Documented: a name of the mapping, in any case, sets its value; any other text is an error and changes nothing.
  Case is only spelled out for ASCII text.
\<close>

definition names_value :: "(ServerMode \<times> string list) list \<Rightarrow> string \<Rightarrow> ServerMode option" where
  "names_value opts v =
     map_of (concat (map (\<lambda>(m, names). map (\<lambda>n. (map to_lower n, m)) names) opts)) (map to_lower v)"

definition enumflag_ok :: "enumflag \<Rightarrow> bool" where
  "enumflag_ok enumflag_New \<longleftrightarrow>
     (\<forall>name opts v m. list_all (\<lambda>c. byte c < 0x80) v \<longrightarrow>
        distinct (concat (map (\<lambda>(m, names). map (map to_lower) names) opts)) \<longrightarrow>
        (case names_value opts v of
           Some m' \<Rightarrow> fv_Set (enumflag_New name opts True) v m = (None, m')
         | None \<Rightarrow> (\<exists>e. fv_Set (enumflag_New name opts True) v m = (Some e, m))))"

lemma mode_names:
  "distinct (concat (map (\<lambda>(m, names). map (map to_lower) names) ServerModeOptions))"
  "names_value ServerModeOptions v =
     (if map to_lower v \<in> {[], ''http''} then Some ServerModeHTTP
      else if map to_lower v = ''grpc'' then Some ServerModeGRPC
      else if map to_lower v \<in> {''grpc+http'', ''both''} then Some ServerModeBoth else None)"
  by (auto simp: names_value_def ServerModeOptions_def to_lower_def is_upper_def)

record 'x EchoServer =
  sv_Hostname :: string
  sv_ListenHost :: string
  sv_ListenPort :: int
  sv_Mode :: ServerMode
  sv_PodName :: string
  sv_PodNamespace :: string
  sv_PodNode :: string
  sv_TLSAutogen :: bool
  sv_TLSCertPath :: string
  sv_TLSKeyPath :: string
  sv_Extensions :: "'x ExtensionFunc list"

text \<open>What the host answers: an error is the text that \<open>%v\<close> prints.\<close>

record host =
  ho_Hostname :: "string + string"
  ho_ReadFile :: "string \<Rightarrow> string + string"
  ho_LookupEnv :: "string \<Rightarrow> string option"

definition getEnvOrDefault :: "host \<Rightarrow> string \<Rightarrow> string \<Rightarrow> string" where
  "getEnvOrDefault h envName defaultValue =
     (case ho_LookupEnv h envName of Some env \<Rightarrow> env | None \<Rightarrow> defaultValue)"

definition error_text :: "string \<Rightarrow> string" where
  "error_text e = ''(error: '' @ e @ '')''"

definition NewServer :: "host \<Rightarrow> 'x EchoServer" where
  "NewServer h =
     (let hostname = (case ho_Hostname h of Inl e \<Rightarrow> error_text e | Inr n \<Rightarrow> n);
          ns = (case ho_ReadFile h ''/var/run/secrets/kubernetes.io/serviceaccount/namespace'' of
                  Inl e \<Rightarrow> error_text e | Inr b \<Rightarrow> b)
      in \<lparr>sv_Hostname = hostname, sv_ListenHost = [], sv_ListenPort = 8080, sv_Mode = ServerModeBoth,
          sv_PodName = getEnvOrDefault h ''POD_NAME'' ''($POD_NAME unset)'', sv_PodNamespace = ns,
          sv_PodNode = getEnvOrDefault h ''NODE_NAME'' ''($NODE_NAME unset)'', sv_TLSAutogen = False,
          sv_TLSCertPath = [], sv_TLSKeyPath = [], sv_Extensions = []\<rparr>)"

definition InstallExtension :: "'x EchoServer \<Rightarrow> 'x ExtensionFunc \<Rightarrow> 'x EchoServer" where
  "InstallExtension s fn = s\<lparr>sv_Extensions := sv_Extensions s @ [fn]\<rparr>"

section \<open>TLS flags and generated certificates\<close>

datatype tls_error = AutogenCombined | HalfSpecified

definition validateTLSFlags :: "'x EchoServer \<Rightarrow> tls_error option" where
  "validateTLSFlags s =
     (if sv_TLSAutogen s \<and> sv_TLSCertPath s \<noteq> [] \<and> sv_TLSKeyPath s \<noteq> [] then Some AutogenCombined
      else if (sv_TLSCertPath s \<noteq> []) \<noteq> (sv_TLSKeyPath s \<noteq> []) then Some HalfSpecified
      else None)"

text \<open>Files carry their content and the mode they were created with.\<close>

record fs =
  fs_dirs :: "string list"
  fs_files :: "string \<rightharpoonup> bytes \<times> nat"

text \<open>A write that fails may leave a file behind.\<close>

record 'x tls_env =
  te_MkdirTemp :: "'x + string"
  te_WriteFile :: "string \<Rightarrow> ('x \<times> bytes option) option"
  te_RemoveAll :: "'x option"

definition path_Join :: "string \<Rightarrow> string \<Rightarrow> string" where
  "path_Join dir name = dir @ ''/'' @ name"

definition os_WriteFile :: "'x tls_env \<Rightarrow> string \<Rightarrow> bytes \<Rightarrow> nat \<Rightarrow> fs \<Rightarrow> 'x option \<times> fs" where
  "os_WriteFile env path content mode fs =
     (case te_WriteFile env path of
        None \<Rightarrow> (None, fs\<lparr>fs_files := (fs_files fs)(path \<mapsto> (content, mode))\<rparr>)
      | Some (e, None) \<Rightarrow> (Some e, fs)
      | Some (e, Some part) \<Rightarrow> (Some e, fs\<lparr>fs_files := (fs_files fs)(path \<mapsto> (part, mode))\<rparr>))"

definition remove_all :: "string \<Rightarrow> fs \<Rightarrow> fs" where
  "remove_all dir fs =
     fs\<lparr>fs_dirs := removeAll dir (fs_dirs fs),
        fs_files := (\<lambda>p. if prefix (dir @ ''/'') p then None else fs_files fs p)\<rparr>"

definition tls_cleanup :: "'x tls_env \<Rightarrow> string \<Rightarrow> fs \<Rightarrow> fs" where
  "tls_cleanup env tlsDir fs = (case te_RemoveAll env of None \<Rightarrow> remove_all tlsDir fs | Some e \<Rightarrow> fs)"

datatype 'x autogen_error =
    MkdirTempFailed 'x | GenerateCACert "'x ca_error" | GenerateServerCert "'x ca_error"
  | WritingCACert 'x | WritingCAKey 'x | WritingServerCert 'x | WritingServerKey 'x

text \<open>The cleanup function that the code returns is determined by the directory, which stands for it.\<close>

definition setupTLSAutogen ::
  "'x crypto \<Rightarrow> 'x tls_env \<Rightarrow> 'x EchoServer \<Rightarrow> fs \<Rightarrow> ('x autogen_error, string) checked \<times> 'x EchoServer \<times> fs" where
  "setupTLSAutogen cy env s fs =
     (case te_MkdirTemp env of
        Inl e \<Rightarrow> (Err (MkdirTempFailed e), s, fs)
      | Inr tlsDir \<Rightarrow>
          let fs = fs\<lparr>fs_dirs := tlsDir # fs_dirs fs\<rparr>;
              fail = (\<lambda>e fs. (Err e, s, tls_cleanup env tlsDir fs)) in
          (case generateCACert cy of
             Panic \<Rightarrow> (Panic, s, fs)
           | Err e \<Rightarrow> fail (GenerateCACert e) fs
           | Ok caCert \<Rightarrow>
               (case generateServerCert cy caCert of
                  Panic \<Rightarrow> (Panic, s, fs)
                | Err e \<Rightarrow> fail (GenerateServerCert e) fs
                | Ok servCert \<Rightarrow>
                    (case os_WriteFile env (path_Join tlsDir ''ca.crt'') (CertPEM caCert) 420 fs of
                       (Some e, fs) \<Rightarrow> fail (WritingCACert e) fs
                     | (None, fs) \<Rightarrow>
                         (case os_WriteFile env (path_Join tlsDir ''ca.key'') (PrivatePEM caCert) 384 fs of
                            (Some e, fs) \<Rightarrow> fail (WritingCAKey e) fs
                          | (None, fs) \<Rightarrow>
                              let servCertFile = path_Join tlsDir ''server.crt'' in
                              (case os_WriteFile env servCertFile (CertPEM servCert) 420 fs of
                                 (Some e, fs) \<Rightarrow> fail (WritingServerCert e) fs
                               | (None, fs) \<Rightarrow>
                                   let servKeyFile = path_Join tlsDir ''server.key'' in
                                   (case os_WriteFile env servKeyFile (PrivatePEM servCert) 384 fs of
                                      (Some e, fs) \<Rightarrow> fail (WritingServerKey e) fs
                                    | (None, fs) \<Rightarrow>
                                        (Ok tlsDir,
                                         s\<lparr>sv_TLSCertPath := servCertFile, sv_TLSKeyPath := servKeyFile\<rparr>,
                                         fs))))))))"

section \<open>Handlers\<close>

datatype body = TextBody string | JSONBody json

text \<open>\<open>GRPC ctx r\<close> is \<open>gs.ServeHTTP\<close> called with the request \<open>r\<close> under the context \<open>ctx\<close>.\<close>

datatype response = Plain nat body | GRPC context_chain http_request

definition getResultFromRequest :: "process \<Rightarrow> 'x EchoServer \<Rightarrow> http_request \<Rightarrow> EchoResult" where
  "getResultFromRequest p s r =
     \<lparr>re_Kubernetes = \<lparr>kr_Hostname = sv_Hostname s, kr_PodName = sv_PodName s,
        kr_PodNamespace = sv_PodNamespace s, kr_PodNode = sv_PodNode s\<rparr>,
      re_Request = GetRequestResult r, re_Runtime = GetRuntimeResult p,
      re_Extensions = GetResult (sv_Extensions s) r\<rparr>"

record map_visits =
  mv_headers :: "(string \<times> string list) order"
  mv_info :: "(string \<times> string list) order"

definition echoHandler :: "process \<Rightarrow> map_visits \<Rightarrow> 'x EchoServer \<Rightarrow> http_request \<Rightarrow> response" where
  "echoHandler p mv s r =
     (let res = getResultFromRequest p s r in
      if suffix ''.json'' (ru_Path (qr_ParsedURL (re_Request res))) \<or>
         sublist ''application/json'' (Header_Get (hr_Header r) ''Accept'')
      then Plain 200 (JSONBody (json_of_echo_result res))
      else Plain 200 (TextBody (WriteTo (mv_headers mv) (mv_info mv) res)))"

definition healthzHandler :: "http_request \<Rightarrow> response" where
  "healthzHandler r = Plain 200 (TextBody (''OK'' @ [CHR 0x0A]))"

definition http_NotFound :: "http_request \<Rightarrow> response" where
  "http_NotFound r = Plain 404 (TextBody (''404 page not found'' @ [CHR 0x0A]))"

definition grpcHandler :: "process \<Rightarrow> 'x EchoServer \<Rightarrow> context_chain \<Rightarrow> http_request \<Rightarrow> response" where
  "grpcHandler p s ctx r = GRPC (WithResult ctx (getResultFromRequest p s r)) r"

definition bothHandler ::
  "process \<Rightarrow> map_visits \<Rightarrow> 'x EchoServer \<Rightarrow> context_chain \<Rightarrow> http_request \<Rightarrow> response" where
  "bothHandler p mv s ctx r =
     (if \<not> prefix ''application/grpc'' (Header_Get (hr_Header r) ''Content-Type'') then echoHandler p mv s r
      else grpcHandler p s ctx r)"

section \<open>The mux\<close>

text \<open>
  A mux is the list of its patterns with their handlers. \<open>HandleFunc\<close> adds one; it panics when the pattern is
  there already, which \<open>server_mux_patterns\<close> excludes. A pattern that ends in a slash matches every path it is a
  prefix of, any other pattern only itself, and the longest matching pattern wins. The context \<open>ctx\<close> is the one of
  the request that is served.
\<close>

type_synonym http_handler = "http_request \<Rightarrow> response"

type_synonym serve_mux = "(string \<times> http_handler) list"

definition HandleFunc :: "string \<Rightarrow> http_handler \<Rightarrow> serve_mux \<Rightarrow> serve_mux" where
  "HandleFunc pattern h mux = mux @ [(pattern, h)]"

definition pattern_matches :: "string \<Rightarrow> string \<Rightarrow> bool" where
  "pattern_matches pat path \<longleftrightarrow> (if suffix ''/'' pat then prefix pat path else pat = path)"

definition better_match ::
  "string \<Rightarrow> (string \<times> http_handler) option \<Rightarrow> string \<times> http_handler \<Rightarrow> (string \<times> http_handler) option" where
  "better_match path best ph =
     (if pattern_matches (fst ph) path \<and> (case best of None \<Rightarrow> True | Some b \<Rightarrow> length (fst b) < length (fst ph))
      then Some ph else best)"

definition mux_match :: "serve_mux \<Rightarrow> string \<Rightarrow> (string \<times> http_handler) option" where
  "mux_match mux path = foldl (better_match path) None mux"

definition installHTTPHandler :: "process \<Rightarrow> map_visits \<Rightarrow> 'x EchoServer \<Rightarrow> serve_mux \<Rightarrow> serve_mux" where
  "installHTTPHandler p mv s mux = HandleFunc ''/'' (echoHandler p mv s) mux"

definition installGRPCHandler :: "process \<Rightarrow> 'x EchoServer \<Rightarrow> context_chain \<Rightarrow> serve_mux \<Rightarrow> serve_mux" where
  "installGRPCHandler p s ctx mux = HandleFunc ''/'' (grpcHandler p s ctx) mux"

definition installBothHandler ::
  "process \<Rightarrow> map_visits \<Rightarrow> 'x EchoServer \<Rightarrow> context_chain \<Rightarrow> serve_mux \<Rightarrow> serve_mux" where
  "installBothHandler p mv s ctx mux = HandleFunc ''/'' (bothHandler p mv s ctx) mux"

definition server_mux :: "process \<Rightarrow> map_visits \<Rightarrow> 'x EchoServer \<Rightarrow> context_chain \<Rightarrow> serve_mux" where
  "server_mux p mv s ctx =
     (let mux = HandleFunc ''/favicon.ico'' http_NotFound [];
          mux = HandleFunc ''/healthz'' healthzHandler mux
      in if sv_Mode s = ServerModeHTTP then installHTTPHandler p mv s mux
         else if sv_Mode s = ServerModeGRPC then installGRPCHandler p s ctx mux
         else if sv_Mode s = ServerModeBoth then installBothHandler p mv s ctx mux
         else mux)"

text \<open>
  \<open>ServeMux\<close> itself answers a request whose path is not clean with a redirect, and some malformed ones with an
  error; \<open>mux_own\<close> says which requests it answers and how.
\<close>

definition serve_request ::
  "(http_request \<Rightarrow> response option) \<Rightarrow> process \<Rightarrow> map_visits \<Rightarrow> 'x EchoServer \<Rightarrow> context_chain \<Rightarrow>
   http_request \<Rightarrow> response" where
  "serve_request mux_own p mv s ctx r =
     (case mux_own r of
        Some answer \<Rightarrow> answer
      | None \<Rightarrow>
          (case mux_match (server_mux p mv s ctx) (case hr_URL r of Some u \<Rightarrow> u_Path u | None \<Rightarrow> []) of
             Some (pat, h) \<Rightarrow> h r
           | None \<Rightarrow> http_NotFound r))"

text \<open>What the mux does in the end.\<close>

lemma server_mux_patterns:
  "map fst (server_mux p mv s ctx) =
     ''/favicon.ico'' # ''/healthz'' # (if sv_Mode s \<in> {ServerModeHTTP, ServerModeGRPC, ServerModeBoth} then [''/''] else [])"
  by (auto simp: server_mux_def HandleFunc_def installHTTPHandler_def installGRPCHandler_def installBothHandler_def
      Let_def ServerModeHTTP_def ServerModeGRPC_def ServerModeBoth_def)

lemma pattern_matches_simps:
  "pattern_matches ''/favicon.ico'' path \<longleftrightarrow> path = ''/favicon.ico''"
  "pattern_matches ''/healthz'' path \<longleftrightarrow> path = ''/healthz''"
  "pattern_matches ''/'' path \<longleftrightarrow> prefix ''/'' path"
  by (auto simp: pattern_matches_def suffix_def)

definition root_handler :: "process \<Rightarrow> map_visits \<Rightarrow> 'x EchoServer \<Rightarrow> context_chain \<Rightarrow> http_handler" where
  "root_handler p mv s ctx =
     (if sv_Mode s = ServerModeHTTP then echoHandler p mv s
      else if sv_Mode s = ServerModeGRPC then grpcHandler p s ctx
      else if sv_Mode s = ServerModeBoth then bothHandler p mv s ctx
      else http_NotFound)"

lemma serve_request_eq:
  assumes "hr_URL r = Some u" "prefix ''/'' (u_Path u)"
  shows "serve_request mux_own p mv s ctx r =
     (case mux_own r of
        Some answer \<Rightarrow> answer
      | None \<Rightarrow>
          if u_Path u = ''/favicon.ico'' then http_NotFound r
          else if u_Path u = ''/healthz'' then healthzHandler r
          else root_handler p mv s ctx r)"
  using assms
  by (auto simp: serve_request_def mux_match_def better_match_def pattern_matches_simps server_mux_def HandleFunc_def
      installHTTPHandler_def installGRPCHandler_def installBothHandler_def root_handler_def split: option.splits)

section \<open>The HTTP server\<close>

text \<open>The protocols that are switched on; without TLS HTTP/2 needs the third.\<close>

record http_Protocols =
  pr_HTTP1 :: bool
  pr_HTTP2 :: bool
  pr_UnencryptedHTTP2 :: bool

record http_Server =
  hs_Addr :: string
  hs_Handler :: "context_chain \<Rightarrow> serve_mux"
  hs_Protocols :: http_Protocols
  hs_BaseContext :: context_chain

text \<open>The address \<open>Run\<close> listens on, and the server it passes to \<open>serve\<close> under the context \<open>ctx\<close>.\<close>

definition server_addr :: "'x EchoServer \<Rightarrow> string" where
  "server_addr s = sv_ListenHost s @ '':'' @ show_int (sv_ListenPort s)"

definition http_server :: "process \<Rightarrow> map_visits \<Rightarrow> 'x EchoServer \<Rightarrow> context_chain \<Rightarrow> http_Server" where
  "http_server p mv s ctx =
     \<lparr>hs_Addr = server_addr s, hs_Handler = server_mux p mv s,
      hs_Protocols = \<lparr>pr_HTTP1 = True, pr_HTTP2 = True, pr_UnencryptedHTTP2 = True\<rparr>,
      hs_BaseContext = ctx\<rparr>"

definition speaks_HTTP2 :: "http_Server \<Rightarrow> bool \<Rightarrow> bool" where
  "speaks_HTTP2 srv tls \<longleftrightarrow> (if tls then pr_HTTP2 else pr_UnencryptedHTTP2) (hs_Protocols srv)"

text \<open>
  \<open>newGRPCServer\<close> registers the service, reflection and the health service, and sets a serving status under the
  full names of the two methods: the calls it makes. \<open>RegisterEchoerServer\<close> registers \<open>Echoer_ServiceDesc\<close>.
\<close>

datatype grpc_setup = RegisterEchoer | RegisterReflection | SetServing string | RegisterHealth

definition newGRPCServer :: "grpc_setup list" where
  "newGRPCServer =
     [RegisterEchoer, RegisterReflection, SetServing Echoer_Echo_FullMethodName,
      SetServing Echoer_Status_FullMethodName, RegisterHealth]"

section \<open>serve\<close>

datatype waiter = Waiting | ShuttingDown | WaiterDone

datatype listener = Starting | Serving | ListenerDone

text \<open>Both goroutines go through their phases in the order in which they are listed.\<close>

fun waiter_rank :: "waiter \<Rightarrow> nat" where
  "waiter_rank Waiting = 0"
| "waiter_rank ShuttingDown = 1"
| "waiter_rank WaiterDone = 2"

fun listener_rank :: "listener \<Rightarrow> nat" where
  "listener_rank Starting = 0"
| "listener_rank Serving = 1"
| "listener_rank ListenerDone = 2"

lemma waiter_rank_inject: "waiter_rank x = waiter_rank y \<longleftrightarrow> x = y"
  by (cases x; cases y) simp_all

lemma listener_rank_inject: "listener_rank x = listener_rank y \<longleftrightarrow> x = y"
  by (cases x; cases y) simp_all

instantiation waiter :: linorder
begin

definition less_eq_waiter :: "waiter \<Rightarrow> waiter \<Rightarrow> bool" where
  "less_eq_waiter x y \<longleftrightarrow> waiter_rank x \<le> waiter_rank y"

definition less_waiter :: "waiter \<Rightarrow> waiter \<Rightarrow> bool" where
  "less_waiter x y \<longleftrightarrow> waiter_rank x < waiter_rank y"

instance by standard (auto simp: less_eq_waiter_def less_waiter_def simp flip: waiter_rank_inject)

end

instantiation listener :: linorder
begin

definition less_eq_listener :: "listener \<Rightarrow> listener \<Rightarrow> bool" where
  "less_eq_listener x y \<longleftrightarrow> listener_rank x \<le> listener_rank y"

definition less_listener :: "listener \<Rightarrow> listener \<Rightarrow> bool" where
  "less_listener x y \<longleftrightarrow> listener_rank x < listener_rank y"

instance by standard (auto simp: less_eq_listener_def less_listener_def simp flip: listener_rank_inject)

end

record serve_state =
  ss_ctx_done :: bool
  ss_waiter :: waiter
  ss_listener :: listener
  ss_shutdown :: bool
  ss_listening :: bool
  ss_accepted :: bool
  ss_conns :: nat

definition serve_start :: serve_state where
  "serve_start = \<lparr>ss_ctx_done = False, ss_waiter = Waiting, ss_listener = Starting, ss_shutdown = False,
     ss_listening = False, ss_accepted = False, ss_conns = 0\<rparr>"

text \<open>
  The signal, the two goroutines and the connections of \<open>net/http\<close>. \<open>Shutdown\<close> marks the server and closes its
  listener at once; then it waits until the accept loop has ended and until no connection is left, without a
  limit, because its context is \<open>context.Background()\<close>. \<open>ListenAndServe\<close> gives up when the server is marked or
  when it cannot listen, load its certificate or accept. The accept loop hands a connection that it took
  (\<open>ss_accepted\<close>) to a goroutine of its own before it looks at the mark; \<open>ss_conns\<close> counts the connections that
  are open. \<open>conn_closed\<close> is the end of one: its last request is answered, it was idle and \<open>Shutdown\<close> closed
  it, or the client left. When that happens is up to the clients. An error of either goroutine is only logged.
\<close>

inductive serve_step :: "serve_state \<Rightarrow> serve_state \<Rightarrow> bool" where
  signal: "\<not> ss_ctx_done st \<Longrightarrow> serve_step st (st\<lparr>ss_ctx_done := True\<rparr>)"
| shutdown: "ss_waiter st = Waiting \<Longrightarrow> ss_ctx_done st \<Longrightarrow>
    serve_step st (st\<lparr>ss_waiter := ShuttingDown, ss_shutdown := True, ss_listening := False\<rparr>)"
| drained: "ss_waiter st = ShuttingDown \<Longrightarrow> ss_listener st \<noteq> Serving \<Longrightarrow> ss_conns st = 0 \<Longrightarrow>
    serve_step st (st\<lparr>ss_waiter := WaiterDone\<rparr>)"
| listen_ok: "ss_listener st = Starting \<Longrightarrow> \<not> ss_shutdown st \<Longrightarrow>
    serve_step st (st\<lparr>ss_listener := Serving, ss_listening := True\<rparr>)"
| listen_failed: "ss_listener st = Starting \<Longrightarrow> serve_step st (st\<lparr>ss_listener := ListenerDone\<rparr>)"
| accepted: "ss_listener st = Serving \<Longrightarrow> ss_listening st \<Longrightarrow> \<not> ss_accepted st \<Longrightarrow>
    serve_step st (st\<lparr>ss_accepted := True\<rparr>)"
| conn_started: "ss_accepted st \<Longrightarrow>
    serve_step st (st\<lparr>ss_accepted := False, ss_conns := ss_conns st + 1\<rparr>)"
| conn_closed: "0 < ss_conns st \<Longrightarrow> serve_step st (st\<lparr>ss_conns := ss_conns st - 1\<rparr>)"
| closed: "ss_listener st = Serving \<Longrightarrow> ss_shutdown st \<Longrightarrow> \<not> ss_accepted st \<Longrightarrow>
    serve_step st (st\<lparr>ss_listener := ListenerDone\<rparr>)"
| accept_failed: "ss_listener st = Serving \<Longrightarrow> \<not> ss_shutdown st \<Longrightarrow> \<not> ss_accepted st \<Longrightarrow>
    serve_step st (st\<lparr>ss_listener := ListenerDone, ss_listening := False\<rparr>)"

text \<open>The second goroutine serves TLS when both paths are set.\<close>

definition serve_uses_tls :: "'x EchoServer \<Rightarrow> bool" where
  "serve_uses_tls s \<longleftrightarrow> sv_TLSKeyPath s \<noteq> [] \<and> sv_TLSCertPath s \<noteq> []"

definition serve_returned :: "serve_state \<Rightarrow> bool" where
  "serve_returned st \<longleftrightarrow> ss_waiter st = WaiterDone \<and> ss_listener st = ListenerDone"

section \<open>Run\<close>

datatype 'x server_error = TLSFlags tls_error | Autogen "'x autogen_error"

datatype 'x server_return = NilReturn | ServerError "'x server_error" | ServerPanic

text \<open>
  \<open>Run\<close> with what it serves: the server and the file system as \<open>serve\<close> sees them, when it gets there, and
  both as they are when \<open>Run\<close> has returned.
\<close>

definition Server_Run ::
  "'x crypto \<Rightarrow> 'x tls_env \<Rightarrow> 'x EchoServer \<Rightarrow> fs \<Rightarrow>
   'x server_return \<times> ('x EchoServer \<times> fs) option \<times> 'x EchoServer \<times> fs" where
  "Server_Run cy env s fs =
     (case validateTLSFlags s of
        Some e \<Rightarrow> (ServerError (TLSFlags e), None, s, fs)
      | None \<Rightarrow>
          if sv_TLSAutogen s then
            (case setupTLSAutogen cy env s fs of
               (Err e, s, fs) \<Rightarrow> (ServerError (Autogen e), None, s, fs)
             | (Panic, s, fs) \<Rightarrow> (ServerPanic, None, s, fs)
             | (Ok tlsDir, s, fs) \<Rightarrow> (NilReturn, Some (s, fs), s, tls_cleanup env tlsDir fs))
          else (NilReturn, Some (s, fs), s, fs))"

section \<open>The temporary directory\<close>

definition fresh_dir :: "string \<Rightarrow> fs \<Rightarrow> bool" where
  "fresh_dir dir fs \<longleftrightarrow> dir \<notin> set (fs_dirs fs) \<and> (\<forall>p. prefix (dir @ ''/'') p \<longrightarrow> fs_files fs p = None)"

text \<open>\<open>fs'\<close> is \<open>fs\<close> with the directory and whatever it holds.\<close>

definition extends :: "string \<Rightarrow> fs \<Rightarrow> fs \<Rightarrow> bool" where
  "extends dir fs fs' \<longleftrightarrow> fs_dirs fs' = dir # fs_dirs fs \<and>
     (\<forall>p. \<not> prefix (dir @ ''/'') p \<longrightarrow> fs_files fs' p = fs_files fs p)"

lemma extends_mkdir: "extends dir fs (fs\<lparr>fs_dirs := dir # fs_dirs fs\<rparr>)"
  by (simp add: extends_def)

lemma prefix_Join [simp]: "prefix (dir @ ''/'') (path_Join dir name)"
  by (simp add: path_Join_def prefix_def)

lemma extends_WriteFile:
  assumes "extends dir fs fs1" "os_WriteFile env (path_Join dir name) content mode fs1 = (res, fs2)"
  shows "extends dir fs fs2"
proof -
  have "\<not> prefix (dir @ ''/'') p \<Longrightarrow> p \<noteq> path_Join dir name" for p by auto
  with assms show ?thesis
    by (auto simp: extends_def os_WriteFile_def split: option.splits prod.splits)
qed

lemma WriteFile_ok:
  "os_WriteFile env path content mode fs = (None, fs') \<Longrightarrow> fs_files fs' = (fs_files fs)(path \<mapsto> (content, mode))"
  by (auto simp: os_WriteFile_def split: option.splits prod.splits)

lemma remove_all_extends:
  fixes fs fs' :: fs
  assumes "fresh_dir dir fs" "extends dir fs fs'"
  shows "remove_all dir fs' = fs"
  using assms by (intro fs.equality) (auto simp: remove_all_def fresh_dir_def extends_def removeAll_id)

lemma cleanup_extends:
  fixes fs fs' :: fs
  assumes "te_RemoveAll env = None" "fresh_dir dir fs" "extends dir fs fs'"
  shows "tls_cleanup env dir fs' = fs"
  using assms by (simp add: tls_cleanup_def remove_all_extends)

text \<open>The four writes, once both certificates exist.\<close>

lemma setup_writes:
  fixes fs fs' :: fs
  assumes "te_RemoveAll env = None" "fresh_dir d fs" "te_MkdirTemp env = Inr d"
    and ca: "generateCACert cy = Ok ca" and pair: "generateServerCert cy ca = Ok pair"
    and res: "setupTLSAutogen cy env s fs = (res, s', fs')"
  shows "(\<exists>e. res = Err e) \<and> s' = s \<and> fs' = fs \<or>
    res = Ok d \<and> extends d fs fs' \<and>
    s' = s\<lparr>sv_TLSCertPath := path_Join d ''server.crt'', sv_TLSKeyPath := path_Join d ''server.key''\<rparr> \<and>
    fs_files fs' (path_Join d ''server.crt'') = Some (CertPEM pair, 420) \<and>
    fs_files fs' (path_Join d ''server.key'') = Some (PrivatePEM pair, 384)"
proof -
  let ?fs0 = "fs\<lparr>fs_dirs := d # fs_dirs fs\<rparr>"
  obtain r1 fs1 where w1: "os_WriteFile env (path_Join d ''ca.crt'') (CertPEM ca) 420 ?fs0 = (r1, fs1)"
    by (cases "os_WriteFile env (path_Join d ''ca.crt'') (CertPEM ca) 420 ?fs0")
  obtain r2 fs2 where w2: "os_WriteFile env (path_Join d ''ca.key'') (PrivatePEM ca) 384 fs1 = (r2, fs2)"
    by (cases "os_WriteFile env (path_Join d ''ca.key'') (PrivatePEM ca) 384 fs1")
  obtain r3 fs3 where w3: "os_WriteFile env (path_Join d ''server.crt'') (CertPEM pair) 420 fs2 = (r3, fs3)"
    by (cases "os_WriteFile env (path_Join d ''server.crt'') (CertPEM pair) 420 fs2")
  obtain r4 fs4 where w4: "os_WriteFile env (path_Join d ''server.key'') (PrivatePEM pair) 384 fs3 = (r4, fs4)"
    by (cases "os_WriteFile env (path_Join d ''server.key'') (PrivatePEM pair) 384 fs3")
  note x1 = extends_WriteFile [OF extends_mkdir w1]
  note x2 = extends_WriteFile [OF x1 w2]
  note x3 = extends_WriteFile [OF x2 w3]
  note x4 = extends_WriteFile [OF x3 w4]
  note clean = cleanup_extends [OF assms(1,2) x1] cleanup_extends [OF assms(1,2) x2]
    cleanup_extends [OF assms(1,2) x3] cleanup_extends [OF assms(1,2) x4]
  note su = res [unfolded setupTLSAutogen_def Let_def assms(3), simplified, unfolded ca, simplified,
      unfolded pair, simplified, unfolded w1, simplified]
  show ?thesis
  proof (cases "r1 = None \<and> r2 = None \<and> r3 = None \<and> r4 = None")
    case True
    then have "fs_files fs4 (path_Join d ''server.crt'') = Some (CertPEM pair, 420)"
      "fs_files fs4 (path_Join d ''server.key'') = Some (PrivatePEM pair, 384)"
      using w3 w4 by (auto dest!: WriteFile_ok simp: path_Join_def)
    then show ?thesis using True su w2 w3 w4 x4 by simp
  next
    case False
    then show ?thesis using su w2 w3 w4 clean by (auto split: option.splits)
  qed
qed

text \<open>The two ways out of the setup.\<close>

lemma setup_cases:
  fixes fs fs' :: fs
  assumes "crypto_ok cy" "te_RemoveAll env = None" "\<forall>d. te_MkdirTemp env = Inr d \<longrightarrow> fresh_dir d fs"
    and "setupTLSAutogen cy env s fs = (res, s', fs')"
  obtains (failed) e where "res = Err e" "s' = s" "fs' = fs"
  | (made) d ca pair where "res = Ok d" "fresh_dir d fs" "extends d fs fs'"
      "generateCACert cy = Ok ca" "generateServerCert cy ca = Ok pair"
      "s' = s\<lparr>sv_TLSCertPath := path_Join d ''server.crt'', sv_TLSKeyPath := path_Join d ''server.key''\<rparr>"
      "fs_files fs' (path_Join d ''server.crt'') = Some (CertPEM pair, 420)"
      "fs_files fs' (path_Join d ''server.key'') = Some (PrivatePEM pair, 384)"
proof (cases "te_MkdirTemp env")
  case (Inl e)
  then show thesis using assms(4) by (intro failed) (auto simp: setupTLSAutogen_def)
next
  case (Inr d)
  have fr: "fresh_dir d fs" using assms(3) Inr by simp
  note clean = cleanup_extends [OF assms(2) fr extends_mkdir]
  note su = assms(4) [unfolded setupTLSAutogen_def Let_def Inr, simplified]
  show thesis
  proof (cases "generateCACert cy")
    case Panic
    then show thesis using generateCACert_no_panic by metis
  next
    case (Err e)
    then show thesis using su clean by (intro failed) auto
  next
    case ca: (Ok ca)
    show thesis
    proof (cases "generateServerCert cy ca")
      case Panic
      then show thesis using generateServerCert_no_panic [OF assms(1) ca] by simp
    next
      case (Err e)
      then show thesis using su ca clean by (intro failed) auto
    next
      case (Ok pair)
      from setup_writes [OF assms(2) fr Inr ca this assms(4)] fr ca this show thesis
        using failed made by blast
    qed
  qed
qed

section \<open>The two goroutines\<close>

text \<open>
  What holds in every reachable state, and how many steps are left once the server is marked: no connection
  is accepted any more, but the one in hand still becomes one that has to end.
\<close>

definition serve_inv :: "serve_state \<Rightarrow> bool" where
  "serve_inv st \<longleftrightarrow>
     (ss_waiter st \<noteq> Waiting \<longrightarrow> ss_ctx_done st) \<and> (ss_shutdown st \<longleftrightarrow> ss_waiter st \<noteq> Waiting) \<and>
     (ss_listening st \<longrightarrow> ss_listener st = Serving \<and> \<not> ss_shutdown st) \<and>
     (ss_accepted st \<longrightarrow> ss_listener st = Serving) \<and>
     (ss_waiter st = WaiterDone \<longrightarrow> ss_listener st \<noteq> Serving \<and> ss_conns st = 0)"

definition draining_inv :: "serve_state \<Rightarrow> bool" where
  "draining_inv st \<longleftrightarrow> serve_inv st \<and> ss_shutdown st"

definition drain_budget :: "serve_state \<Rightarrow> nat" where
  "drain_budget st =
     (2 - waiter_rank (ss_waiter st)) + (2 - listener_rank (ss_listener st)) +
     (if ss_accepted st then 2 else 0) + ss_conns st"

definition drain_start :: serve_state where
  "drain_start = \<lparr>ss_ctx_done = True, ss_waiter = ShuttingDown, ss_listener = Serving, ss_shutdown = True,
     ss_listening = False, ss_accepted = False, ss_conns = 0\<rparr>"

lemma serve_step_inv: "serve_step st st' \<Longrightarrow> serve_inv st \<Longrightarrow> serve_inv st'"
  by (induction rule: serve_step.induct) (auto simp: serve_inv_def)

lemma draining_step:
  "serve_step st st' \<Longrightarrow> draining_inv st \<Longrightarrow> ss_shutdown st' \<and> drain_budget st' < drain_budget st"
  by (induction rule: serve_step.induct) (auto simp: drain_budget_def draining_inv_def serve_inv_def)

lemma draining_inv_step: "serve_step st st' \<Longrightarrow> draining_inv st \<Longrightarrow> draining_inv st'"
  using draining_step serve_step_inv by (simp add: draining_inv_def)

lemma start_invs: "serve_inv serve_start" "draining_inv drain_start"
  by (simp_all add: draining_inv_def serve_inv_def serve_start_def drain_start_def)

interpretation serving: step_system serve_step serve_start serve_inv
  by unfold_locales (simp_all add: start_invs serve_step_inv)

interpretation draining: budgeted_system serve_step drain_start draining_inv drain_budget
  by unfold_locales (simp_all add: start_invs draining_inv_step draining_step)

lemma serve_step_forward: "serve_step st st' \<Longrightarrow> ss_waiter st \<le> ss_waiter st' \<and> ss_listener st \<le> ss_listener st'"
  by (induction rule: serve_step.induct) (auto simp: less_eq_waiter_def less_eq_listener_def)

lemma serve_forward:
  "(serve_step ^^ m) st st' \<Longrightarrow> ss_waiter st \<le> ss_waiter st' \<and> ss_listener st \<le> ss_listener st'"
proof (induction m arbitrary: st')
  case (Suc m)
  then show ?case by (auto dest!: Suc.IH serve_step_forward)
qed simp

lemma serve_progress:
  assumes "serve_inv st" "\<not> serve_returned st"
  shows "\<exists>st'. serve_step st st'"
proof (cases "ss_ctx_done st \<and> \<not> ss_accepted st \<and> ss_conns st = 0")
  case False
  then show ?thesis using serve_step.signal serve_step.conn_started serve_step.conn_closed by blast
next
  case True
  show ?thesis
  proof (cases "ss_listener st")
    case Starting
    then show ?thesis using serve_step.listen_failed by blast
  next
    case Serving
    then show ?thesis using True serve_step.closed serve_step.accept_failed by blast
  next
    case ListenerDone
    then have "ss_waiter st = Waiting \<or> ss_waiter st = ShuttingDown"
      using assms(2) by (cases "ss_waiter st") (auto simp: serve_returned_def)
    moreover have "ss_listener st \<noteq> Serving" using ListenerDone by simp
    ultimately show ?thesis using True serve_step.shutdown serve_step.drained by blast
  qed
qed

inductive_simps serve_step_idle: "serve_step st st'"

lemma serve_returned_final:
  assumes "serve_inv st"
  shows "serve_returned st \<longleftrightarrow> (\<nexists>st'. serve_step st st')"
proof
  assume "serve_returned st"
  with assms show "\<nexists>st'. serve_step st st'"
    by (subst serve_step_idle) (auto simp: serve_inv_def serve_returned_def)
qed (use serve_progress [OF assms] in blast)

lemma serve_returned_state:
  "serve_inv st \<Longrightarrow> serve_returned st \<longrightarrow>
     ss_ctx_done st \<and> \<not> ss_listening st \<and> \<not> ss_accepted st \<and> ss_conns st = 0"
  by (auto simp: serve_inv_def serve_returned_def)

lemma waiting_for_conns:
  assumes "serve_inv st"
  shows "ss_shutdown st \<and> ss_listener st = ListenerDone \<and> 0 < ss_conns st \<longrightarrow>
    (\<forall>st'. serve_step st st' \<longleftrightarrow> st' = st\<lparr>ss_conns := ss_conns st - 1\<rparr>)"
proof (intro impI allI)
  fix st'
  assume "ss_shutdown st \<and> ss_listener st = ListenerDone \<and> 0 < ss_conns st"
  with assms have "ss_ctx_done st" "ss_waiter st \<noteq> Waiting" "\<not> ss_accepted st" "0 < ss_conns st"
      "ss_listener st = ListenerDone" by (auto simp: serve_inv_def)
  then show "serve_step st st' \<longleftrightarrow> st' = st\<lparr>ss_conns := ss_conns st - 1\<rparr>"
    by (subst serve_step_idle) simp
qed

lemma waiting_for_signal:
  assumes "serve_inv st"
  shows "ss_listener st = ListenerDone \<and> \<not> ss_ctx_done st \<longrightarrow>
    (\<forall>st'. serve_step st st' \<longleftrightarrow>
      st' = st\<lparr>ss_ctx_done := True\<rparr> \<or> 0 < ss_conns st \<and> st' = st\<lparr>ss_conns := ss_conns st - 1\<rparr>)"
proof (intro impI allI)
  fix st'
  assume "ss_listener st = ListenerDone \<and> \<not> ss_ctx_done st"
  with assms have "\<not> ss_ctx_done st" "ss_waiter st = Waiting" "\<not> ss_accepted st" "ss_listener st = ListenerDone"
    by (auto simp: serve_inv_def)
  then show "serve_step st st' \<longleftrightarrow>
      st' = st\<lparr>ss_ctx_done := True\<rparr> \<or> 0 < ss_conns st \<and> st' = st\<lparr>ss_conns := ss_conns st - 1\<rparr>"
    by (subst serve_step_idle) auto
qed

text \<open>Once the server is marked, every run is short, and every run that cannot go on has returned.\<close>

lemma draining_ends:
  assumes "serve_inv st" "ss_shutdown st"
  shows "\<forall>m st'. (serve_step ^^ m) st st' \<longrightarrow> m \<le> ss_conns st + 5"
    "\<exists>m st'. (serve_step ^^ m) st st' \<and> serve_returned st'"
proof -
  have inv: "draining_inv st" using assms by (simp add: draining_inv_def)
  have "ss_waiter st \<noteq> Waiting" using assms by (simp add: serve_inv_def)
  then have w: "1 \<le> waiter_rank (ss_waiter st)" by (cases "ss_waiter st") simp_all
  have "ss_accepted st \<longrightarrow> ss_listener st = Serving" using assms by (simp add: serve_inv_def)
  with w have b: "drain_budget st \<le> ss_conns st + 5" by (auto simp: drain_budget_def)
  show "\<forall>m st'. (serve_step ^^ m) st st' \<longrightarrow> m \<le> ss_conns st + 5"
    using draining.run_budget_from [OF _ inv] b by (meson add_leE le_trans)
  from draining.run_to_end [OF inv] obtain m st' where r: "(serve_step ^^ m) st st'" "\<nexists>u. serve_step st' u"
    by blast
  with serving.run_inv_from [OF r(1) assms(1)] show "\<exists>m st'. (serve_step ^^ m) st st' \<and> serve_returned st'"
    using serve_returned_final by blast
qed

section \<open>Properties\<close>

text \<open>
  C10: \<open>Run\<close> leaves no key material behind. When the temporary directory is new and can be removed, the files
  are the same after \<open>Run\<close> as before it on every path, errors included; an error changes nothing of
  the server either and serves nothing; it serves TLS exactly when a certificate was asked for; and while a
  generated certificate is served, the two paths of the server name a pair that loads: the certificate and the key
  that \<open>generateServerCert\<close> made, the key readable by its owner only.
\<close>

theorem server_run_leaves_nothing:
  fixes fs fs' :: fs
  assumes "crypto_ok cy" "te_RemoveAll env = None" "\<forall>d. te_MkdirTemp env = Inr d \<longrightarrow> fresh_dir d fs"
    and "Server_Run cy env s fs = (ret, served, s', fs')"
  shows "ret \<noteq> ServerPanic \<and> fs' = fs \<and> (ret \<noteq> NilReturn \<longrightarrow> s' = s \<and> served = None) \<and>
    (\<forall>s1 fs1. served = Some (s1, fs1) \<longrightarrow>
      (serve_uses_tls s1 \<longleftrightarrow> sv_TLSAutogen s \<or> sv_TLSCertPath s \<noteq> [])) \<and>
    (\<forall>s1 fs1. served = Some (s1, fs1) \<longrightarrow> sv_TLSAutogen s \<longrightarrow>
      (\<exists>ca pair tc. generateCACert cy = Ok ca \<and> generateServerCert cy ca = Ok pair \<and>
        X509KeyPair cy pair = Inr tc \<and>
        fs_files fs1 (sv_TLSCertPath s1) = Some (CertPEM pair, 420) \<and>
        fs_files fs1 (sv_TLSKeyPath s1) = Some (PrivatePEM pair, 384)))"
proof (cases "validateTLSFlags s = None \<and> sv_TLSAutogen s")
  case False
  then show ?thesis
    using assms(4)
    by (auto simp: Server_Run_def serve_uses_tls_def validateTLSFlags_def split: option.splits if_splits)
next
  case True
  obtain res s1 fs1 where su: "setupTLSAutogen cy env s fs = (res, s1, fs1)"
    by (cases "setupTLSAutogen cy env s fs")
  from assms(1-3) su show ?thesis
  proof (cases rule: setup_cases)
    case (failed e)
    then show ?thesis using assms(4) True su by (auto simp: Server_Run_def)
  next
    case (made d ca pair)
    then show ?thesis
      using assms(4) True su cleanup_extends [OF assms(2) made(2,3)] generateServerCert_loads [OF assms(1) made(4,5)]
      by (auto simp: Server_Run_def serve_uses_tls_def path_Join_def)
  qed
qed

text \<open>
  C18: \<open>serve\<close> under every interleaving of the signal, its two goroutines and its connections. It has returned
  exactly when nothing can happen any more; then the signal has come, the listener is closed and no connection is
  open. No goroutine goes back to an earlier phase. Once the server is marked, every run has at most five steps
  more than there are open connections, and some run returns. But the end depends on the clients: while a
  connection stays open after the accept loop has ended, its end is the only thing that can happen, so one
  request that never ends keeps \<open>serve\<close> from returning. Before the signal it never returns either: a server
  that could not listen, or whose accept failed, only waits for the signal and for its connections.
\<close>

theorem serve_lifecycle:
  assumes "(serve_step ^^ n) serve_start st"
  shows "(serve_returned st \<longleftrightarrow> (\<nexists>st'. serve_step st st')) \<and>
    (serve_returned st \<longrightarrow> ss_ctx_done st \<and> \<not> ss_listening st \<and> \<not> ss_accepted st \<and> ss_conns st = 0) \<and>
    (\<forall>m st'. (serve_step ^^ m) st st' \<longrightarrow> ss_waiter st \<le> ss_waiter st' \<and> ss_listener st \<le> ss_listener st') \<and>
    (ss_shutdown st \<longrightarrow>
      (\<forall>m st'. (serve_step ^^ m) st st' \<longrightarrow> m \<le> ss_conns st + 5) \<and>
      (\<exists>m st'. (serve_step ^^ m) st st' \<and> serve_returned st')) \<and>
    (ss_shutdown st \<and> ss_listener st = ListenerDone \<and> 0 < ss_conns st \<longrightarrow>
      (\<forall>st'. serve_step st st' \<longleftrightarrow> st' = st\<lparr>ss_conns := ss_conns st - 1\<rparr>)) \<and>
    (ss_listener st = ListenerDone \<and> \<not> ss_ctx_done st \<longrightarrow>
      (\<forall>st'. serve_step st st' \<longleftrightarrow>
        st' = st\<lparr>ss_ctx_done := True\<rparr> \<or> 0 < ss_conns st \<and> st' = st\<lparr>ss_conns := ss_conns st - 1\<rparr>))"
proof -
  have inv: "serve_inv st" by (rule serving.run_inv [OF assms])
  show ?thesis
    using serve_returned_final [OF inv] serve_returned_state [OF inv] serve_forward draining_ends [OF inv]
      waiting_for_conns [OF inv] waiting_for_signal [OF inv]
    by (intro conjI) blast+
qed

text \<open>A host with a working temporary directory, and the states of one failed listen.\<close>

definition example_tls_env :: "unit tls_env" where
  "example_tls_env = \<lparr>te_MkdirTemp = Inr ''/tmp/tls'', te_WriteFile = (\<lambda>_. None), te_RemoveAll = None\<rparr>"

definition example_host :: host where
  "example_host = \<lparr>ho_Hostname = Inr ''node'', ho_ReadFile = (\<lambda>_. Inl ''no such file''), ho_LookupEnv = (\<lambda>_. None)\<rparr>"

definition example_fs :: fs where
  "example_fs = \<lparr>fs_dirs = [''/tmp''], fs_files = [''/etc/hosts'' \<mapsto> (''localhost'', 420)]\<rparr>"

definition example_server :: "unit EchoServer" where
  "example_server = (NewServer example_host)\<lparr>sv_TLSAutogen := True\<rparr>"

lemma example_fresh: "\<forall>d. te_MkdirTemp example_tls_env = Inr d \<longrightarrow> fresh_dir d example_fs"
  by (auto simp: example_tls_env_def example_fs_def fresh_dir_def)

theorem server_run_leaves_nothing_witness:
  "snd (snd (snd (Server_Run example_crypto example_tls_env example_server example_fs))) = example_fs"
proof -
  obtain ret served s' fs' where r:
    "Server_Run example_crypto example_tls_env example_server example_fs = (ret, served, s', fs')"
    by (cases "Server_Run example_crypto example_tls_env example_server example_fs")
  have "te_RemoveAll example_tls_env = None" by (simp add: example_tls_env_def)
  from server_run_leaves_nothing [OF example_crypto_ok this example_fresh r] show ?thesis using r by simp
qed

text \<open>A server whose one connection is open when the signal comes.\<close>

definition busy_state :: serve_state where
  "busy_state = \<lparr>ss_ctx_done = True, ss_waiter = ShuttingDown, ss_listener = ListenerDone, ss_shutdown = True,
     ss_listening = False, ss_accepted = False, ss_conns = 1\<rparr>"

lemma busy_reachable: "(serve_step ^^ 6) serve_start busy_state"
proof -
  define a where "a = serve_start\<lparr>ss_listener := Serving, ss_listening := True\<rparr>"
  define b where "b = a\<lparr>ss_accepted := True\<rparr>"
  define c where "c = b\<lparr>ss_accepted := False, ss_conns := ss_conns b + 1\<rparr>"
  define d where "d = c\<lparr>ss_ctx_done := True\<rparr>"
  define e where "e = d\<lparr>ss_waiter := ShuttingDown, ss_shutdown := True, ss_listening := False\<rparr>"
  note defs = serve_start_def a_def b_def c_def d_def e_def
  have "serve_step serve_start a" unfolding a_def by (rule serve_step.listen_ok) (simp_all add: defs)
  moreover have "serve_step a b" unfolding b_def by (rule serve_step.accepted) (simp_all add: defs)
  moreover have "serve_step b c" unfolding c_def by (rule serve_step.conn_started) (simp add: defs)
  moreover have "serve_step c d" unfolding d_def by (rule serve_step.signal) (simp add: defs)
  moreover have "serve_step d e" unfolding e_def by (rule serve_step.shutdown) (simp_all add: defs)
  moreover have "serve_step e (e\<lparr>ss_listener := ListenerDone\<rparr>)"
    by (rule serve_step.closed) (simp_all add: defs)
  moreover have "e\<lparr>ss_listener := ListenerDone\<rparr> = busy_state" by (simp add: busy_state_def defs)
  ultimately have "(serve_step ^^ Suc (Suc (Suc (Suc (Suc (Suc 0)))))) serve_start busy_state"
    using relpowp_Suc_I relpowp_0_I by metis
  then show ?thesis by (simp only: numeral_eq_Suc pred_numeral_simps BitM.simps)
qed

theorem serve_lifecycle_witness:
  "(\<forall>st'. serve_step busy_state st' \<longleftrightarrow> st' = busy_state\<lparr>ss_conns := 0\<rparr>) \<and> \<not> serve_returned busy_state \<and>
   (\<exists>m st'. (serve_step ^^ m) busy_state st' \<and> serve_returned st')"
proof -
  have b: "ss_shutdown busy_state \<and> ss_listener busy_state = ListenerDone \<and> 0 < ss_conns busy_state"
    "ss_conns busy_state = 1"
    by (simp_all add: busy_state_def)
  from serve_lifecycle [OF busy_reachable] b show ?thesis by (metis diff_self_eq_0)
qed

text \<open>
  C36: The TLS flags are accepted exactly when the two paths are given together and not along with the
  generated certificate. A run that generated its certificate leaves the paths in the server, so running
  the same server again is refused.
\<close>

theorem tls_flags_once:
  fixes s :: "'x EchoServer" and fs fs' fs2 :: fs
  assumes "crypto_ok cy" "te_RemoveAll env = None" "\<forall>d. te_MkdirTemp env = Inr d \<longrightarrow> fresh_dir d fs"
  shows "(validateTLSFlags s = None \<longleftrightarrow>
      (sv_TLSCertPath s = [] \<longleftrightarrow> sv_TLSKeyPath s = []) \<and> \<not> (sv_TLSAutogen s \<and> sv_TLSCertPath s \<noteq> [])) \<and>
    (sv_TLSAutogen s \<and> Server_Run cy env s fs = (NilReturn, served, s', fs') \<longrightarrow>
      Server_Run cy env2 s' fs2 = (ServerError (TLSFlags AutogenCombined), None, s', fs2))"
proof (intro conjI impI)
  assume r: "sv_TLSAutogen s \<and> Server_Run cy env s fs = (NilReturn, served, s', fs')"
  obtain res s1 fs1 where su: "setupTLSAutogen cy env s fs = (res, s1, fs1)"
    by (cases "setupTLSAutogen cy env s fs")
  from assms su show "Server_Run cy env2 s' fs2 = (ServerError (TLSFlags AutogenCombined), None, s', fs2)"
  proof (cases rule: setup_cases)
    case (failed e)
    then show ?thesis using r su by (auto simp: Server_Run_def split: option.splits)
  next
    case (made d ca pair)
    then have "s' = s1" using r su by (auto simp: Server_Run_def split: option.splits)
    then show ?thesis using made r by (simp add: Server_Run_def validateTLSFlags_def path_Join_def)
  qed
qed (auto simp: validateTLSFlags_def)

theorem tls_flags_once_witness:
  "validateTLSFlags (example_server\<lparr>sv_TLSCertPath := ''c'', sv_TLSKeyPath := ''k''\<rparr>) \<noteq> None"
  using tls_flags_once [OF example_crypto_ok _ example_fresh, THEN conjunct1,
      of "example_server\<lparr>sv_TLSCertPath := ''c'', sv_TLSKeyPath := ''k''\<rparr>"]
  by (simp add: example_tls_env_def example_server_def)

text \<open>A request with an absolute path that is not one of the two fixed ones.\<close>

definition ordinary :: "http_request \<Rightarrow> bool" where
  "ordinary r \<longleftrightarrow> (\<exists>u. hr_URL r = Some u \<and> prefix ''/'' (u_Path u) \<and> u_Path u \<noteq> ''/favicon.ico'' \<and> u_Path u \<noteq> ''/healthz'')"

definition asks_grpc :: "http_request \<Rightarrow> bool" where
  "asks_grpc r \<longleftrightarrow> prefix ''application/grpc'' (Header_Get (hr_Header r) ''Content-Type'')"

lemma route_grpc:
  assumes "mux_own r = None" "ordinary r"
    and "sv_Mode s = ServerModeGRPC \<or> sv_Mode s = ServerModeBoth \<and> asks_grpc r"
  shows "serve_request mux_own p mv s ctx r = GRPC (WithResult ctx (getResultFromRequest p s r)) r"
  using assms
  by (auto simp: serve_request_eq root_handler_def ordinary_def grpcHandler_def bothHandler_def asks_grpc_def
      ServerModeHTTP_def ServerModeGRPC_def ServerModeBoth_def)

lemma FromContext_WithResult [simp]: "FromContext (WithResult ctx res) = Some res"
  by (simp add: FromContext_def WithResult_def context_Value_def)

text \<open>
  C22: Where a request goes. Off the two fixed paths, HTTP mode and, in the combined mode, every request
  whose content type does not start with \<open>application/grpc\<close> gets a 200 with the echo of the request, as JSON exactly
  when the path ends in \<open>.json\<close> or JSON is accepted; everything else goes to the gRPC service, under a context
  from which the service reads that same echo.
\<close>

theorem echo_routing:
  assumes "mux_own r = None" "ordinary r" "sv_Mode s \<in> {ServerModeHTTP, ServerModeGRPC, ServerModeBoth}"
  shows "if sv_Mode s = ServerModeGRPC \<or> sv_Mode s = ServerModeBoth \<and> asks_grpc r
    then \<exists>ctx'. serve_request mux_own p mv s ctx r = GRPC ctx' r \<and>
      FromContext ctx' = Some (getResultFromRequest p s r)
    else serve_request mux_own p mv s ctx r = Plain 200
      (if suffix ''.json'' (u_Path (the (hr_URL r))) \<or>
          sublist ''application/json'' (Header_Get (hr_Header r) ''Accept'')
       then JSONBody (json_of_echo_result (getResultFromRequest p s r))
       else TextBody (WriteTo (mv_headers mv) (mv_info mv) (getResultFromRequest p s r)))"
proof (cases "sv_Mode s = ServerModeGRPC \<or> sv_Mode s = ServerModeBoth \<and> asks_grpc r")
  case True
  with route_grpc [of mux_own, OF assms(1,2) True, of p mv ctx] show ?thesis by simp
next
  case False
  then have "serve_request mux_own p mv s ctx r = echoHandler p mv s r"
    using assms
    by (auto simp: serve_request_eq root_handler_def ordinary_def bothHandler_def asks_grpc_def
        ServerModeHTTP_def ServerModeGRPC_def ServerModeBoth_def)
  moreover have "ru_Path (qr_ParsedURL (re_Request (getResultFromRequest p s r))) = u_Path (the (hr_URL r))"
    using assms(2) by (auto simp: ordinary_def getResultFromRequest_def GetRequestResult_def)
  ultimately show ?thesis using False by (simp add: echoHandler_def Let_def)
qed

definition example_request :: "string \<Rightarrow> string \<Rightarrow> http_request" where
  "example_request path ctype =
     \<lparr>hr_Proto = ''HTTP/2.0'', hr_TLS = Some 0x0304, hr_RemoteAddr = ''10.0.0.9:4711'', hr_Method = ''POST'',
      hr_RequestURI = path, hr_Header = Some [(''Content-Type'', [ctype])],
      hr_URL = Some \<lparr>u_Scheme = [], u_Host = [], u_Path = path, u_RawPath = [], u_RawQuery = []\<rparr>\<rparr>"

lemma example_request_grpc:
  "ordinary (example_request ''/pkg.echo.v1.Echoer/Echo'' ''application/grpc+proto'')"
  "asks_grpc (example_request ''/pkg.echo.v1.Echoer/Echo'' ''application/grpc+proto'')"
  by (simp add: ordinary_def example_request_def) (simp add: asks_grpc_def example_request_def, code_simp)

theorem echo_routing_witness:
  "\<forall>p mv. \<exists>ctx'. serve_request (\<lambda>_. None) p mv (NewServer example_host :: unit EchoServer) []
      (example_request ''/pkg.echo.v1.Echoer/Echo'' ''application/grpc+proto'') =
    GRPC ctx' (example_request ''/pkg.echo.v1.Echoer/Echo'' ''application/grpc+proto'')"
proof (intro allI)
  fix p mv
  let ?s = "NewServer example_host :: unit EchoServer"
  have "sv_Mode ?s = ServerModeBoth" by (simp add: NewServer_def Let_def)
  with echo_routing [of "\<lambda>_. None", OF refl example_request_grpc(1), of ?s p mv "[]"] example_request_grpc(2)
  show "\<exists>ctx'. serve_request (\<lambda>_. None) p mv ?s []
      (example_request ''/pkg.echo.v1.Echoer/Echo'' ''application/grpc+proto'') =
    GRPC ctx' (example_request ''/pkg.echo.v1.Echoer/Echo'' ''application/grpc+proto'')"
    by auto
qed

text \<open>
  C23: From the flag to the route. \<open>--mode\<close> accepts exactly the five names, in any case, the empty one included, and
  any other text changes nothing; after it was accepted the mux has three patterns, none twice, and an ordinary
  request reaches gRPC for \<open>grpc\<close>, gets the HTTP echo for \<open>http\<close> and the empty name, and for \<open>both\<close> and \<open>grpc+http\<close> goes by
  its content type. HTTP/2, which gRPC needs, is spoken in every mode, with and without TLS.
\<close>

theorem mode_flag_routes:
  assumes "enumflag_ok enumflag_New" "list_all (\<lambda>c. byte c < 0x80) v"
    and "fv_Set (ServerModeVar enumflag_New name) v (sv_Mode s0) = (err, mode)"
    and "s = s0\<lparr>sv_Mode := mode\<rparr>" "mux_own r = None" "ordinary r"
  shows "(err = None \<longleftrightarrow> map to_lower v \<in> {[], ''http'', ''grpc'', ''grpc+http'', ''both''}) \<and>
    (err \<noteq> None \<longrightarrow> s = s0) \<and>
    (err = None \<longrightarrow>
      map fst (server_mux p mv s ctx) = [''/favicon.ico'', ''/healthz'', ''/''] \<and>
      serve_request mux_own p mv s ctx r =
        (if map to_lower v = ''grpc'' \<or> map to_lower v \<in> {''grpc+http'', ''both''} \<and> asks_grpc r
         then GRPC (WithResult ctx (getResultFromRequest p s r)) r else echoHandler p mv s r)) \<and>
    speaks_HTTP2 (http_server p mv s ctx) tls"
proof -
  have set: "case names_value ServerModeOptions v of
      Some m \<Rightarrow> fv_Set (ServerModeVar enumflag_New name) v (sv_Mode s0) = (None, m)
    | None \<Rightarrow> (\<exists>e. fv_Set (ServerModeVar enumflag_New name) v (sv_Mode s0) = (Some e, sv_Mode s0))"
    using assms(1,2) mode_names(1) unfolding enumflag_ok_def ServerModeVar_def by blast
  have route: "serve_request mux_own p mv s ctx r = root_handler p mv s ctx r"
    using assms(5,6) by (auto simp: ordinary_def serve_request_eq)
  have h2: "speaks_HTTP2 (http_server p mv s ctx) tls" by (simp add: speaks_HTTP2_def http_server_def)
  show ?thesis
  proof (cases "names_value ServerModeOptions v")
    case None
    then show ?thesis
      using set assms(3,4) h2 by (auto simp: mode_names(2) split: if_splits)
  next
    case (Some m)
    then have m: "err = None" "mode = m" using set assms(3) by simp_all
    show ?thesis
      using Some h2 route m
      by (auto simp: server_mux_patterns assms(4) root_handler_def mode_names(2) bothHandler_def grpcHandler_def
          asks_grpc_def ServerModeHTTP_def ServerModeGRPC_def ServerModeBoth_def split: if_splits)
  qed
qed

definition example_enumflag :: enumflag where
  "example_enumflag typ opts nocase =
     \<lparr>fv_String = (\<lambda>m. case map_of opts m of Some (n # _) \<Rightarrow> n | _ \<Rightarrow> []), fv_Type = typ,
      fv_Set = (\<lambda>v m. case names_value opts v of Some m' \<Rightarrow> (None, m') | None \<Rightarrow> (Some ''unknown'', m))\<rparr>"

lemma example_enumflag_ok: "enumflag_ok example_enumflag"
  by (simp add: enumflag_ok_def example_enumflag_def split: option.split)

theorem mode_flag_routes_witness:
  "\<forall>p mv. serve_request (\<lambda>_. None) p mv ((NewServer example_host :: unit EchoServer)\<lparr>sv_Mode := ServerModeHTTP\<rparr>) []
      (example_request ''/pkg.echo.v1.Echoer/Echo'' ''application/grpc+proto'') =
    echoHandler p mv ((NewServer example_host :: unit EchoServer)\<lparr>sv_Mode := ServerModeHTTP\<rparr>)
      (example_request ''/pkg.echo.v1.Echoer/Echo'' ''application/grpc+proto'')"
proof (intro allI)
  fix p mv
  let ?s = "NewServer example_host :: unit EchoServer"
  have low: "map to_lower ''HTTP'' = ''http''" by code_simp
  have "fv_Set (ServerModeVar example_enumflag ''mode'') ''HTTP'' (sv_Mode ?s) = (None, ServerModeHTTP)"
    using low by (simp add: ServerModeVar_def example_enumflag_def mode_names(2) del: list.map)
  moreover have "list_all (\<lambda>c. byte c < 0x80) ''HTTP''" by code_simp
  ultimately show "serve_request (\<lambda>_. None) p mv (?s\<lparr>sv_Mode := ServerModeHTTP\<rparr>) []
      (example_request ''/pkg.echo.v1.Echoer/Echo'' ''application/grpc+proto'') =
    echoHandler p mv (?s\<lparr>sv_Mode := ServerModeHTTP\<rparr>)
      (example_request ''/pkg.echo.v1.Echoer/Echo'' ''application/grpc+proto'')"
    using mode_flag_routes [OF example_enumflag_ok _ _ refl refl example_request_grpc(1), of "''HTTP''" "''mode''" ?s None
        ServerModeHTTP p mv "[]"] low by (simp del: list.map)
qed

text \<open>
  The names of the gRPC side agree, with one exception: the two names the client stubs call are the
  full names of the methods of the registered service, in its order, each found with the handler of its own message
  types, and the health service has a status under exactly these names; so it has none under the name of the
  service, which is the name the health protocol asks for.
\<close>

theorem grpc_names_agree:
  "map (full_method Echoer_ServiceDesc) (map fst (sd_Methods Echoer_ServiceDesc)) =
     [Echoer_Echo_FullMethodName, Echoer_Status_FullMethodName] \<and>
   find_handler Echoer_ServiceDesc Echoer_Echo_FullMethodName = Some (EchoHandler Echoer_Echo_Handler) \<and>
   find_handler Echoer_ServiceDesc Echoer_Status_FullMethodName = Some (StatusHandler Echoer_Status_Handler) \<and>
   {n. SetServing n \<in> set newGRPCServer} =
     set (map (full_method Echoer_ServiceDesc) (map fst (sd_Methods Echoer_ServiceDesc))) \<and>
   SetServing (sd_ServiceName Echoer_ServiceDesc) \<notin> set newGRPCServer"
  unfolding full_methods_Echoer find_handler_Echoer
  by (auto simp: newGRPCServer_def Echoer_ServiceDesc_def Echoer_Echo_FullMethodName_def
      Echoer_Status_FullMethodName_def)

end
