(* ===== verification/Bench_Echo.thy ===== *)
theory Bench_Echo
  imports Run Echo_Server
begin

text \<open>
  The two ends together: a request that \<open>bench\<close> builds, routed by the echo server to its gRPC service,
  answered by \<open>Echo\<close> and recorded by the worker. The gRPC library only carries the request with a
  content type of its own and hands the handler the context it was called under.
\<close>

section \<open>The reply\<close>

lemma Echo_under_result:
  "Echo p ord t1 t2 (WithResult ctx (getResultFromRequest p s r)) req =
    Some rsp \<Longrightarrow>
    rs_Kubernetes rsp = Some \<lparr>ki_Hostname = sv_Hostname s, ki_PodName = sv_PodName s,
      ki_PodNamespace = sv_PodNamespace s, ki_PodNode = sv_PodNode s\<rparr> \<and>
    rs_ServerDurationNs rsp = time_Sub t2 t1 \<and> rs_Shape rsp = rq_Shape req \<and> rs_Query rsp = rq_Query req \<and>
    rs_Payload rsp = echoRequestPayload (rq_Payload req) \<and>
    rs_Runtime rsp = Some (echo_runtime p) \<and>
    rs_Request rsp \<noteq> None \<and>
    ri_Header (the (rs_Request rsp)) = buildKeyMultivalue ord (hr_Header r)"
  by (auto simp: Echo_def getResultFromRequest_def GetRequestResult_def Let_def)

lemma call_result_reply:
  assumes "rp_err rp = None" "rp_rsp rp = Some rsp" "rs_Kubernetes rsp = Some k"
  shows "r_PodName (call_result a b rp) = ki_PodName k" "r_PodHostname (call_result a b rp) = ki_Hostname k"
    "r_ServerDurationNs (call_result a b rp) = rs_ServerDurationNs rsp"
    "r_TotalDuration (call_result a b rp) = time_Sub b a" "r_Err (call_result a b rp) = None"
  using assms by (simp_all add: call_result_def Let_def split: option.split)

lemma BuildEchoRequest_shape: "BuildEchoRequest shape sizes = Some req \<Longrightarrow> rq_Shape req = shape"
  by (auto simp: BuildEchoRequest_def Let_def split: if_splits option.splits)

text \<open>
  The payload that a reply to a request of a shape has to carry: text of the letter x, zero bytes and zero
  numbers, as many as the sizes say, and four bytes for every dimension.
\<close>

definition expected_payload :: "PayloadShape \<Rightarrow> PayloadSizes \<Rightarrow> EchoResponse_Payload option" where
  "expected_payload shape z =
     (let text = replicate (nat (StringLen z)) (CHR ''x'');
          zeros = (\<lambda>n. replicate (nat n) (CHR 0x00)) in
      if shape = PAYLOAD_SHAPE_STRING then Some (EchoResponse_StringPayload text)
      else if shape = PAYLOAD_SHAPE_BYTES then Some (EchoResponse_BytesPayload (zeros (BytesSize z)))
      else if shape = PAYLOAD_SHAPE_EMBEDDING_FLOAT then
        Some (EchoResponse_EmbeddingFloat (Some \<lparr>ef_Values = replicate (nat (EmbeddingDim z)) 0\<rparr>))
      else if shape = PAYLOAD_SHAPE_EMBEDDING_BYTES then
        Some (EchoResponse_EmbeddingBytes (zeros (wrap64 (4 * EmbeddingDim z))))
      else if shape = PAYLOAD_SHAPE_MIXED then
        Some (EchoResponse_Mixed (Some
          \<lparr>mp_Id = 0, mp_Name = text, mp_Count = 0, mp_Ratio = 0, mp_Enabled = False, mp_Tags = [], mp_Numbers = [],
           mp_Attrs = [], mp_Blob = zeros (BytesSize z), mp_Extra = None\<rparr>))
      else None)"

lemma built_payload_expected:
  "BuildEchoRequest shape z = Some req \<Longrightarrow> echoRequestPayload (rq_Payload req) = expected_payload shape z"
  by (auto simp: BuildEchoRequest_def expected_payload_def echoRequestPayload_def repeat_x_def make_slice_def Let_def
      mult.commute split: if_splits option.splits)

lemma echo_runtime_fields:
  "rt_MainVersion (echo_runtime p) = rn_MainVersion (GetRuntimeResult p)"
  "rt_MainModule (echo_runtime p) = rn_MainModule (GetRuntimeResult p)"
  "rt_MainPath (echo_runtime p) = rn_MainPath (GetRuntimeResult p)"
  "rt_GoVersion (echo_runtime p) = rn_GoVersion (GetRuntimeResult p)"
  by (simp_all add: echo_runtime_def GetRuntimeResult_def Let_def echo_version_step_eq split: option.split)

section \<open>What a run records\<close>

text \<open>A recorded result is a failure to get a connection, or what one reply of the environment left.\<close>

definition recorded :: "'e run_env \<Rightarrow> 'e werr Result \<Rightarrow> bool" where
  "recorded env r \<longleftrightarrow> (\<exists>now e. r = error_result now e) \<or> (\<exists>k cl t a b. r = call_result a b (env_echo env k cl t))"

lemma recorded_intros [intro]:
  "recorded env (error_result now e)" "recorded env (call_result a b (env_echo env k cl t))"
  unfolding recorded_def by blast+

lemma recorded_doCall:
  "doCall_receive env k cl start rs w = ((dropped, rs'), w') \<Longrightarrow> \<forall>r\<in>set rs. recorded env r \<Longrightarrow> \<forall>r\<in>set rs'. recorded env r"
  by (auto simp: doCall_receive_def time_Now_def ctx_Err_def Let_def split: option.splits if_splits)

lemma recorded_fail:
  "fail_result env what e rs w = (rs', w') \<Longrightarrow> \<forall>r\<in>set rs. recorded env r \<Longrightarrow> \<forall>r\<in>set rs'. recorded env r"
  by (auto simp: fail_result_def time_Now_def)

lemma recorded_step:
  assumes "worker_step P rel env wk w = (wk', w')" "\<forall>r\<in>set (wk_results wk). recorded env r"
  shows "\<forall>r\<in>set (wk_results wk'). recorded env r"
proof (cases "wk_pc wk")
  case (InCall s k r cl start)
  then show ?thesis using assms recorded_doCall by (fastforce simp: worker_step_def split: prod.splits)
next
  case AtStart
  then show ?thesis
    using assms recorded_fail by (fastforce simp: worker_step_def split: prod.splits sum.splits)
next
  case (AtAcquire s)
  then show ?thesis
    using assms recorded_fail by (fastforce simp: worker_step_def split: prod.splits sum.splits bool.splits)
next
  case (AtCall s c r)
  then show ?thesis using assms by (auto simp: worker_step_def split: option.splits)
qed (use assms in \<open>auto simp: worker_step_def split: prod.splits\<close>)

lemma recorded_exec:
  assumes "\<forall>wk\<in>set ws. \<forall>r\<in>set (wk_results wk). recorded env r" "exec P rel env sched (ws, w) = (ws', w')"
  shows "\<forall>wk\<in>set ws'. \<forall>r\<in>set (wk_results wk). recorded env r"
  using assms
proof (induction sched arbitrary: ws w)
  case Nil
  then show ?case by (simp add: exec_def)
next
  case (Cons i sched)
  obtain ws1 w1 where st: "sys_step P rel env i (ws, w) = (ws1, w1)" by (cases "sys_step P rel env i (ws, w)")
  have "\<forall>wk\<in>set ws1. \<forall>r\<in>set (wk_results wk). recorded env r"
  proof (cases "length ws \<le> i \<or> list_ex (\<lambda>wk. is_panicked (wk_pc wk)) ws")
    case True
    then show ?thesis using st Cons.prems(1) by (simp add: sys_step_def)
  next
    case False
    obtain wk w2 where x: "worker_step P rel env (ws ! i) w = (wk, w2)" by (cases "worker_step P rel env (ws ! i) w")
    then have "ws1 = ws[i := wk]" using st False by (simp add: sys_step_def)
    moreover have "\<forall>r\<in>set (wk_results wk). recorded env r"
      using False Cons.prems(1) by (intro recorded_step [OF x]) auto
    ultimately show ?thesis using Cons.prems(1) by (auto dest!: set_update_subset_insert [THEN subsetD])
  qed
  with Cons.IH [of ws1 w1] Cons.prems(2) st show ?case by (simp add: exec_def)
qed

lemma run_records:
  fixes env :: "'e run_env"
  assumes "config_run g env ords ordh sched c w = (Returned (Inr s), w')"
  obtains results where "\<forall>r\<in>set results. recorded env r"
    "s = aggregate (env_status env) ords results (elapsed results) (cf_ConnModel c)"
proof -
  have None: "Validate c = None" using assms by (cases "Validate c") (auto simp: config_run_def)
  then obtain sel where sel: "NewPayloadSelector (cf_Payload c) = Some sel" using Validate_selector by blast
  obtain res w1 where np: "newConnPool (cf_ConnModel c) (bench_dial_of g c) w = (res, w1)"
    by (cases "newConnPool (cf_ConnModel c) (bench_dial_of g c) w")
  obtain p where p: "res = Inr p" using assms None np by (cases res) (auto simp: config_run_def)
  have al: "alloc_ok 8 (cf_Concurrency c)" using assms None np p by (auto simp: config_run_def split: if_splits)
  from config_run_pieces [OF assms None np [unfolded p] sel al] obtain ws w2 where
    x: "exec (iface g p) (call_release g) env sched (start_workers c ordh sel, w1) = (ws, w2)"
      "s = aggregate (env_status env) ords (collect_results ws) (elapsed (collect_results ws)) (cf_ConnModel c)"
    by (metis outcome.distinct(1,3) outcome.inject sum.inject(2))
  have "\<forall>wk\<in>set ws. \<forall>r\<in>set (wk_results wk). recorded env r"
    by (rule recorded_exec [OF _ x(1)]) (simp add: start_workers_def Let_def)
  then show thesis using x(2) by (intro that [of "collect_results ws"]) (auto simp: collect_results_def)
qed

text \<open>
  What the two ends rely on from gRPC: a call that succeeds was an HTTP request with the method's name as its path
  and a gRPC content type, which the mux did not answer itself; the server routed it to its gRPC service; the
  handler registered for the path got the request that was sent, under the context of the route and without an
  interceptor, and what it returned without an error is the reply.
\<close>

definition routed ::
  "(http_request \<Rightarrow> response option) \<Rightarrow> process \<Rightarrow> map_visits \<Rightarrow> 'x EchoServer \<Rightarrow> string \<Rightarrow> context_chain \<Rightarrow> bool" where
  "routed mux_own p mv s path ctx' \<longleftrightarrow> (\<exists>r u ctx r'. hr_URL r = Some u \<and> u_Path u = path \<and> asks_grpc r \<and>
     mux_own r = None \<and> serve_request mux_own p mv s ctx r = GRPC ctx' r')"

definition grpc_transport ::
  "(http_request \<Rightarrow> response option) \<Rightarrow> (nat \<Rightarrow> string \<Rightarrow> 'e) \<Rightarrow> process \<Rightarrow> map_visits \<Rightarrow> 'x EchoServer \<Rightarrow>
   ('c, 'e) echoerClient \<Rightarrow> bool" where
  "grpc_transport mux_own se p mv s cc \<longleftrightarrow>
     (\<forall>c path req out out'. Invoke_Echo cc c path req out = (out', None) \<longrightarrow>
       (\<exists>ctx' h ord t1 t2. routed mux_own p mv s path ctx' \<and>
          find_handler Echoer_ServiceDesc path = Some (EchoHandler h) \<and>
          h (v1_Server se p ord t1 t2) ctx' (\<lambda>_. (req, None)) None = Some (Some out', None))) \<and>
     (\<forall>c path req out out'. Invoke_Status cc c path req out = (out', None) \<longrightarrow>
       (\<exists>ctx' h ord t1 t2. routed mux_own p mv s path ctx' \<and>
          find_handler Echoer_ServiceDesc path = Some (StatusHandler h) \<and>
          h (v1_Server se p ord t1 t2) ctx' (\<lambda>_. (req, None)) None = Some (Some out', None)))"

text \<open>A route to the service is one of the modes with gRPC, and hands over the result of the request.\<close>

lemma routed_service:
  assumes "routed mux_own p mv s path ctx'" "prefix ''/'' path" "path \<noteq> ''/favicon.ico''" "path \<noteq> ''/healthz''"
  obtains ctx r where "ctx' = WithResult ctx (getResultFromRequest p s r)" "u_Path (the (hr_URL r)) = path"
    "sv_Mode s = ServerModeGRPC \<or> sv_Mode s = ServerModeBoth"
proof -
  from assms(1) obtain r u ctx r' where r: "hr_URL r = Some u" "u_Path u = path" "asks_grpc r" "mux_own r = None"
    "serve_request mux_own p mv s ctx r = GRPC ctx' r'" by (auto simp: routed_def)
  have ord: "ordinary r" using r(1,2) assms(2-4) by (simp add: ordinary_def)
  show thesis
  proof (cases "sv_Mode s = ServerModeGRPC \<or> sv_Mode s = ServerModeBoth")
    case True
    with route_grpc [of mux_own, OF r(4) ord, of s p mv ctx] r show thesis by (intro that) auto
  next
    case False
    then have "serve_request mux_own p mv s ctx r \<noteq> GRPC ctx' r'"
      using r(1,2,4) assms(2-4)
      by (auto simp: serve_request_eq [OF r(1)] root_handler_def Let_def echoHandler_def http_NotFound_def)
    with r(5) show thesis by simp
  qed
qed

text \<open>A successful call of either stub was answered by the handler of its method.\<close>

lemma transport_Echo:
  assumes "grpc_transport mux_own se p mv s cc" "client_Echo cc c req = (Some rsp, None)"
  obtains ctx' ord t1 t2 where "routed mux_own p mv s Echoer_Echo_FullMethodName ctx'"
    "Echoer_Echo_Handler (v1_Server se p ord t1 t2) ctx' (\<lambda>_. (req, None)) None = Some (Some rsp, None)"
proof -
  note law = assms(1) [unfolded grpc_transport_def, THEN conjunct1, rule_format, OF assms(2) [unfolded client_success]]
  then obtain ctx' h ord t1 t2 where x: "routed mux_own p mv s Echoer_Echo_FullMethodName ctx'"
    "EchoHandler h = EchoHandler Echoer_Echo_Handler"
    "h (v1_Server se p ord t1 t2) ctx' (\<lambda>_. (req, None)) None = Some (Some rsp, None)"
    unfolding find_handler_Echoer option.inject by (elim exE conjE) (rule that, assumption, rule sym, assumption+)
  then show thesis using that by simp
qed

lemma transport_Status:
  assumes "grpc_transport mux_own se p mv s cc" "client_Status cc c req = (Some rsp, None)"
  obtains ctx' ord t1 t2 where "routed mux_own p mv s Echoer_Status_FullMethodName ctx'"
    "Echoer_Status_Handler (v1_Server se p ord t1 t2) ctx' (\<lambda>_. (req, None)) None = Some (Some rsp, None)"
proof -
  note law = assms(1) [unfolded grpc_transport_def, THEN conjunct2, rule_format, OF assms(2) [unfolded client_success]]
  then obtain ctx' h ord t1 t2 where x: "routed mux_own p mv s Echoer_Status_FullMethodName ctx'"
    "StatusHandler h = StatusHandler Echoer_Status_Handler"
    "h (v1_Server se p ord t1 t2) ctx' (\<lambda>_. (req, None)) None = Some (Some rsp, None)"
    unfolding find_handler_Echoer option.inject by (elim exE conjE) (rule that, assumption, rule sym, assumption+)
  then show thesis using that by simp
qed

lemma client_Echo_served:
  assumes "grpc_transport mux_own se p mv s cc" "client_Echo cc c req = (Some rsp, None)"
  obtains ord t1 t2 ctx r where "Echo p ord t1 t2 (WithResult ctx (getResultFromRequest p s r)) req = Some rsp"
    "u_Path (the (hr_URL r)) = Echoer_Echo_FullMethodName" "sv_Mode s = ServerModeGRPC \<or> sv_Mode s = ServerModeBoth"
proof -
  from transport_Echo [OF assms] obtain ctx' ord t1 t2 where x: "routed mux_own p mv s Echoer_Echo_FullMethodName ctx'"
    "Echoer_Echo_Handler (v1_Server se p ord t1 t2) ctx' (\<lambda>_. (req, None)) None = Some (Some rsp, None)" .
  then have "Echo p ord t1 t2 ctx' req = Some rsp" by (auto simp: handlers_plain)
  moreover obtain ctx r where "ctx' = WithResult ctx (getResultFromRequest p s r)"
    "u_Path (the (hr_URL r)) = Echoer_Echo_FullMethodName" "sv_Mode s = ServerModeGRPC \<or> sv_Mode s = ServerModeBoth"
    using routed_service [OF x(1)] by (auto simp: Echoer_Echo_FullMethodName_def)
  ultimately show thesis by (intro that) auto
qed

text \<open>The calls of a run go through client stubs on connections to one server.\<close>

definition calls_through ::
  "'e run_env \<Rightarrow> (conn \<Rightarrow> nat \<Rightarrow> (call, 'e) echoerClient) \<Rightarrow> bool" where
  "calls_through env cc \<longleftrightarrow>
     (\<forall>k cl t. (rp_rsp (env_echo env k cl t), rp_err (env_echo env k cl t)) = client_Echo (cc k t) cl (cl_request cl))"

definition answered_by :: "'e run_env \<Rightarrow> process \<Rightarrow> 'x EchoServer \<Rightarrow> bool" where
  "answered_by env p s \<longleftrightarrow> (\<forall>k cl t. rp_err (env_echo env k cl t) = None \<longrightarrow>
     (\<exists>ord t1 t2 ctx r rsp. Echo p ord t1 t2 (WithResult ctx (getResultFromRequest p s r)) (cl_request cl) = Some rsp \<and>
        rp_rsp (env_echo env k cl t) = Some rsp))"

lemma calls_answered:
  assumes "calls_through env cc" "\<forall>k t. grpc_transport mux_own se p mv s (cc k t)"
  shows "answered_by env p s"
  unfolding answered_by_def
proof (intro allI impI)
  fix k :: conn and cl :: call and t :: nat
  assume err: "rp_err (env_echo env k cl t) = None"
  have call: "client_Echo (cc k t) cl (cl_request cl) = (rp_rsp (env_echo env k cl t), None)"
    using assms(1) err unfolding calls_through_def by metis
  then obtain rsp where rsp: "rp_rsp (env_echo env k cl t) = Some rsp"
    by (cases "rp_rsp (env_echo env k cl t)") (auto simp: client_Echo_def split: prod.splits if_splits)
  from client_Echo_served [OF assms(2) [rule_format] call [unfolded rsp]] rsp
  show "\<exists>ord t1 t2 ctx r rsp. Echo p ord t1 t2 (WithResult ctx (getResultFromRequest p s r)) (cl_request cl) = Some rsp \<and>
      rp_rsp (env_echo env k cl t) = Some rsp" by metis
qed

lemma answered_key:
  assumes "answered_by env p s" "sv_PodName s \<noteq> []" "recorded env r" "\<not> failed r"
  shows "backendKey r = (sv_PodName s, ''pod_name'')"
proof -
  from assms(3,4) obtain k cl t a b where r: "r = call_result a b (env_echo env k cl t)"
    by (auto simp: recorded_def failed_def error_result_def)
  have err: "rp_err (env_echo env k cl t) = None"
    using assms(4) unfolding r failed_def by (cases "rp_err (env_echo env k cl t)") (auto simp: call_result_def Let_def)
  with assms(1) obtain ord t1 t2 ctx q rsp where
    e: "Echo p ord t1 t2 (WithResult ctx (getResultFromRequest p s q)) (cl_request cl) = Some rsp"
      "rp_rsp (env_echo env k cl t) = Some rsp" unfolding answered_by_def by blast
  note c = call_result_reply [OF err e(2) Echo_under_result [OF e(1), THEN conjunct1]]
  show ?thesis unfolding backendKey_def r using c(1) assms(2) by simp
qed

text \<open>When all successful results have one key, one row of the backend table has successes.\<close>

lemma one_successful_key:
  assumes "fair ord" "\<And>r. r \<in> set results \<Longrightarrow> \<not> failed r \<Longrightarrow> key_of r = k"
  defines "bs \<equiv> computeBackends ord results (int (length results))"
  shows "\<forall>b\<in>set bs. be_ErrorCount b < be_Count b \<longrightarrow> be_Key b = k"
    "length (filter (\<lambda>b. be_ErrorCount b < be_Count b) bs) \<le> 1"
    "filter failed results = [] \<Longrightarrow> results \<noteq> [] \<Longrightarrow>
      \<exists>b. bs = [b] \<and> be_Key b = k \<and> be_Count b = int (length results)"
proof -
  show row: "\<forall>b\<in>set bs. be_ErrorCount b < be_Count b \<longrightarrow> be_Key b = k"
  proof (intro ballI impI)
    fix b assume b: "b \<in> set bs" "be_ErrorCount b < be_Count b"
    then obtain l where l: "b = backend_row results (int (length results)) l"
      unfolding bs_def set_computeBackends [OF assms(1)] by blast
    have "\<exists>r\<in>set (results_of l results). \<not> failed r"
    proof (rule ccontr)
      assume "\<not> ?thesis"
      then have "filter failed (results_of l results) = results_of l results" by (simp add: filter_id_conv)
      then show False using b(2) unfolding l by simp
    qed
    then show "be_Key b = k" using assms(2) l by (auto simp: results_of_def)
  qed
  let ?good = "filter (\<lambda>b. be_ErrorCount b < be_Count b) bs"
  have dist: "distinct (map be_Key ?good)"
    unfolding bs_def by (rule distinct_map_filter, rule distinct_backend_keys [OF assms(1)])
  have "set (map be_Key ?good) \<subseteq> {k}" using row by auto
  then have "card (set (map be_Key ?good)) \<le> 1" using card_mono [of "{k}"] by fastforce
  then show "length ?good \<le> 1" by (simp only: distinct_card [OF dist] length_map)
  assume none: "filter failed results = []" "results \<noteq> []"
  then have all: "\<forall>r\<in>set results. key_of r = k" using assms(2) by (simp add: filter_empty_conv)
  then have "key_of ` set results = {k}" using none(2) by (simp add: image_constant_conv cong: image_cong)
  with all have "bs = [backend_row results (int (length results)) k]" "results_of k results = results"
    by (simp_all add: bs_def computeBackends_eq [OF assms(1)] results_of_def filter_id_conv)
  then show "\<exists>b. bs = [b] \<and> be_Key b = k \<and> be_Count b = int (length results)" by simp
qed

section \<open>Properties\<close>

text \<open>
  C4: What \<open>bench\<close> sends comes back, and what it records is what the server knows: a request built for a shape
  and routed to the gRPC service is answered with the same shape and query, with the payload in the same case of the
  oneof, of the configured sizes and otherwise zero (no payload for an unknown shape), with every header of the HTTP
  request once and the same runtime details as the HTTP echo shows; the worker records the server's pod name and
  host name, and the time between the handler's two clock readings, which is no longer than the call when the call spans it.
\<close>

theorem bench_meets_echo:
  assumes "mux_own r = None" "ordinary r"
    and "sv_Mode s = ServerModeGRPC \<or> sv_Mode s = ServerModeBoth \<and> asks_grpc r"
    and "BuildEchoRequest shape sizes = Some req" "fair ord"
    and "serve_request mux_own p mv s ctx r = GRPC ctx' r'"
    and "Echo p ord t1 t2 ctx' req = Some rsp" "rp_err rp = None" "rp_rsp rp = Some rsp"
    and "a \<le> t1" "t2 \<le> b"
  shows "rs_Shape rsp = shape \<and> rs_Query rsp = rq_Query req \<and>
    mirrors (rq_Payload req) (rs_Payload rsp) \<and> rs_Payload rsp = expected_payload shape sizes \<and>
    mset (map (\<lambda>kv. (kmv_Key kv, kmv_Values kv)) (ri_Header (the (rs_Request rsp)))) = mset (entries (hr_Header r)) \<and>
    rt_MainVersion (the (rs_Runtime rsp)) = rn_MainVersion (GetRuntimeResult p) \<and>
    r_PodName (call_result a b rp) = sv_PodName s \<and> r_PodHostname (call_result a b rp) = sv_Hostname s \<and>
    r_ServerDurationNs (call_result a b rp) = time_Sub t2 t1 \<and>
    r_ServerDurationNs (call_result a b rp) \<le> r_TotalDuration (call_result a b rp)"
proof -
  have "ctx' = WithResult ctx (getResultFromRequest p s r)"
    using route_grpc [of mux_own, OF assms(1-3), of p mv ctx] assms(6) by simp
  with assms(7) have echo: "Echo p ord t1 t2 (WithResult ctx (getResultFromRequest p s r)) req = Some rsp" by simp
  note e = Echo_under_result [OF echo]
  note c = call_result_reply [OF assms(8,9) e [THEN conjunct1]]
  have "time_Sub t2 t1 \<le> time_Sub b a" using assms(10,11) by (simp add: time_Sub_def)
  with e c BuildEchoRequest_shape [OF assms(4)] built_payload_expected [OF assms(4)]
    echoRequestPayload_mirrors [of "rq_Payload req"]
    buildKeyMultivalue_entries [OF assms(5), of "hr_Header r"]
  show ?thesis by (simp add: echo_runtime_fields)
qed

definition example_process :: process where
  "example_process = \<lparr>ps_Version = ''go1.26'', ps_GOARCH = ''amd64'', ps_GOOS = ''linux'', ps_NumCPU = 4,
     ps_NumGoroutine = 9, ps_BuildInfo = None\<rparr>"

abbreviation example_grpc_request :: http_request where
  "example_grpc_request \<equiv> example_request ''/pkg.echo.v1.Echoer/Echo'' ''application/grpc+proto''"

theorem bench_meets_echo_witness:
  "\<exists>rsp :: EchoResponse. rs_Shape rsp = PAYLOAD_SHAPE_STRING \<and>
     rs_Payload rsp = Some (EchoResponse_StringPayload ''xx'')"
proof -
  let ?s = "NewServer example_host :: unit EchoServer"
  let ?req = "\<lparr>rq_Query = [], rq_Shape = PAYLOAD_SHAPE_STRING, rq_Payload = Some (EchoRequest_StringPayload ''xx'')\<rparr>"
  let ?ctx = "WithResult [] (getResultFromRequest example_process ?s example_grpc_request)"
  let ?mv = "\<lparr>mv_headers = rev, mv_info = rev\<rparr>"
  obtain rsp where rsp: "Echo example_process rev 3 5 ?ctx ?req = Some rsp"
    by (simp add: Echo_def Let_def)
  let ?rp = "\<lparr>rp_rsp = Some rsp, rp_err = None :: unit option, rp_peer = None, rp_hdr = (\<lambda>_. []), rp_stats = []\<rparr>"
  have mode: "sv_Mode ?s = ServerModeGRPC \<or> sv_Mode ?s = ServerModeBoth \<and> asks_grpc example_grpc_request"
    using example_request_grpc(2) by (simp add: NewServer_def Let_def)
  have req: "BuildEchoRequest PAYLOAD_SHAPE_STRING \<lparr>EmbeddingDim = 0, BytesSize = 0, StringLen = 2\<rparr> = Some ?req"
    by (simp add: BuildEchoRequest_def repeat_x_def make_slice_def alloc_ok_def maxAlloc_def numeral_2_eq_2)
  have "fair rev" by (simp add: fair_def)
  from bench_meets_echo [of "\<lambda>_. None", OF refl example_request_grpc(1) mode req this
      route_grpc [of "\<lambda>_. None", OF refl example_request_grpc(1) mode, of example_process ?mv "[]"]
      rsp, of ?rp 1 9]
  show ?thesis by (auto simp: expected_payload_def Let_def numeral_2_eq_2)
qed

text \<open>
  C35: The fallback of \<open>backendKey\<close> never happens with this server: \<open>New\<close> names a server that has no
  \<open>POD_NAME\<close> in its environment by a placeholder, so the bench takes the placeholder for a pod, whatever the
  host name and the peer are, and calls to different such hosts fall into one row of the backend table.
\<close>

theorem unset_pod_name_is_a_backend:
  assumes "mux_own r = None" "ordinary r"
    and "sv_Mode s = ServerModeGRPC \<or> sv_Mode s = ServerModeBoth \<and> asks_grpc r"
    and "sv_PodName s = sv_PodName (NewServer h :: 'x EchoServer)" "ho_LookupEnv h ''POD_NAME'' = None"
    and "serve_request mux_own p mv s ctx r = GRPC ctx' r'"
    and "Echo p ord t1 t2 ctx' req = Some rsp" "rp_err rp = None" "rp_rsp rp = Some rsp"
  shows "backendKey (call_result a b rp) = (''($POD_NAME unset)'', ''pod_name'')"
proof -
  have "ctx' = WithResult ctx (getResultFromRequest p s r)"
    using route_grpc [of mux_own, OF assms(1-3), of p mv ctx] assms(6) by simp
  with assms(7) have echo: "Echo p ord t1 t2 (WithResult ctx (getResultFromRequest p s r)) req = Some rsp" by simp
  note c = call_result_reply [OF assms(8,9) Echo_under_result [OF echo, THEN conjunct1]]
  show ?thesis
    unfolding backendKey_def using c(1) assms(4,5) by (simp add: NewServer_def Let_def getEnvOrDefault_def)
qed

theorem unset_pod_name_is_a_backend_witness:
  "\<exists>rsp :: EchoResponse. backendKey (call_result 1 9
       \<lparr>rp_rsp = Some rsp, rp_err = None :: unit option, rp_peer = Some ''10.0.0.1:8080'', rp_hdr = (\<lambda>_. []), rp_stats = []\<rparr>) =
     (''($POD_NAME unset)'', ''pod_name'') \<and>
     ki_Hostname (the (rs_Kubernetes rsp)) = ''node''"
proof -
  let ?s = "NewServer example_host :: unit EchoServer"
  let ?req = "\<lparr>rq_Query = [], rq_Shape = PAYLOAD_SHAPE_STRING, rq_Payload = None\<rparr>"
  let ?ctx = "WithResult [] (getResultFromRequest example_process ?s example_grpc_request)"
  let ?mv = "\<lparr>mv_headers = rev, mv_info = rev\<rparr>"
  obtain rsp where rsp: "Echo example_process rev 3 5 ?ctx ?req = Some rsp"
    by (simp add: Echo_def Let_def)
  let ?rp = "\<lparr>rp_rsp = Some rsp, rp_err = None :: unit option, rp_peer = Some ''10.0.0.1:8080'', rp_hdr = (\<lambda>_. []), rp_stats = []\<rparr>"
  have mode: "sv_Mode ?s = ServerModeGRPC \<or> sv_Mode ?s = ServerModeBoth \<and> asks_grpc example_grpc_request"
    using example_request_grpc(2) by (simp add: NewServer_def Let_def)
  have "ho_LookupEnv example_host ''POD_NAME'' = None" by (simp add: example_host_def)
  from unset_pod_name_is_a_backend [of "\<lambda>_. None", OF refl example_request_grpc(1) mode refl this
      route_grpc [of "\<lambda>_. None", OF refl example_request_grpc(1) mode, of example_process ?mv "[]"]
      rsp, of ?rp 1 9] Echo_under_result [OF rsp]
  show ?thesis by (intro exI [of _ rsp]) (simp add: NewServer_def example_host_def Let_def)
qed

text \<open>
  C5: A whole run against one server: whatever the interleaving, if every successful call was answered by that
  server, then only the row of its pod name has successful calls, so at most one row does; and a run
  without errors has exactly one row, which counts every request.
\<close>

theorem run_against_one_server:
  fixes env :: "'e run_env" and s :: "'x EchoServer"
  assumes "config_run g env ords ordh sched c w = (Returned (Inr sm), w')"
    and "calls_through env cc" "\<forall>k t. grpc_transport mux_own se p mv s (cc k t)"
    and "sv_PodName s \<noteq> []" "fair (ord_backends ords)"
  shows "(\<forall>b\<in>set (s_Backends sm). be_ErrorCount b < be_Count b \<longrightarrow> be_Key b = sv_PodName s) \<and>
    length (filter (\<lambda>b. be_ErrorCount b < be_Count b) (s_Backends sm)) \<le> 1 \<and>
    (s_ErrorCount sm = 0 \<and> 0 < s_Count sm \<longrightarrow>
      (\<exists>b. s_Backends sm = [b] \<and> be_Key b = sv_PodName s \<and> be_Count b = s_Count sm))"
proof -
  from run_records [OF assms(1)] obtain results where
    rec: "\<forall>r\<in>set results. recorded env r" and
    sm: "sm = aggregate (env_status env) ords results (elapsed results) (cf_ConnModel c)" .
  have key: "key_of r = sv_PodName s" if "r \<in> set results" "\<not> failed r" for r
    using answered_key [OF calls_answered [OF assms(2,3)] assms(4)] rec that by simp
  have bs: "s_Backends sm = computeBackends (ord_backends ords) results (int (length results))"
    "s_ErrorCount sm = int (length (filter failed results))" "s_Count sm = int (length results)"
    unfolding sm aggregate_eq Let_def by simp_all
  show ?thesis unfolding bs using one_successful_key [OF assms(5) key] by simp
qed

text \<open>
  A connection that hands every call straight to the handlers of the example server, and a time of five ticks in
  which the run uses it.
\<close>

abbreviation example_context :: "string \<Rightarrow> context_chain" where
  "example_context path \<equiv> WithResult [] (getResultFromRequest example_process (NewServer example_host :: unit EchoServer)
     (example_request path ''application/grpc+proto''))"

definition loopback :: "(call, nat) echoerClient" where
  "loopback =
     \<lparr>Invoke_Echo = (\<lambda>_ path req out.
        if path = Echoer_Echo_FullMethodName
        then (the (Echo example_process rev 3 5 (example_context path) req), None) else (out, Some 12)),
      Invoke_Status = (\<lambda>_ path req out.
        if path = Echoer_Status_FullMethodName
        then (StatusResponse, case Status req of OkStatus \<Rightarrow> None | GrpcError code m \<Rightarrow> Some code)
        else (out, Some 12))\<rparr>"

definition meeting_env :: "nat run_env" where
  "meeting_env = example_env\<lparr>env_echo := \<lambda>_ cl _. (case client_Echo loopback cl (cl_request cl) of (rsp, err) \<Rightarrow>
       \<lparr>rp_rsp = rsp, rp_err = err, rp_peer = Some ''10.0.0.1:8080'', rp_hdr = (\<lambda>_. []), rp_stats = []\<rparr>)\<rparr>"

abbreviation example_visits :: map_visits where
  "example_visits \<equiv> \<lparr>mv_headers = rev, mv_info = rev\<rparr>"

lemma example_routed:
  assumes "path = Echoer_Echo_FullMethodName \<or> path = Echoer_Status_FullMethodName"
  shows "routed (\<lambda>_. None) example_process example_visits (NewServer example_host :: unit EchoServer) path (example_context path)"
proof -
  let ?r = "example_request path ''application/grpc+proto''"
  have r: "hr_URL ?r = Some \<lparr>u_Scheme = [], u_Host = [], u_Path = path, u_RawPath = [], u_RawQuery = []\<rparr>" "asks_grpc ?r"
    using example_request_grpc(2) by (simp_all add: example_request_def asks_grpc_def)
  have ord: "ordinary ?r"
    using assms r(1) by (auto simp: ordinary_def Echoer_Echo_FullMethodName_def Echoer_Status_FullMethodName_def)
  have "sv_Mode (NewServer example_host :: unit EchoServer) = ServerModeBoth" by (simp add: NewServer_def Let_def)
  with route_grpc [of "\<lambda>_. None", OF refl ord, of "NewServer example_host :: unit EchoServer" example_process example_visits "[]"] r
  show ?thesis unfolding routed_def by (intro exI conjI) (auto simp: example_request_def)
qed

lemma loopback_transport:
  "grpc_transport (\<lambda>_. None) (\<lambda>code _. code) example_process example_visits
     (NewServer example_host :: unit EchoServer) loopback"
  unfolding grpc_transport_def
proof (intro conjI allI impI)
  fix c :: call and path req out out'
  assume "Invoke_Echo loopback c path req out = (out', None)"
  then have p: "path = Echoer_Echo_FullMethodName"
    "out' = the (Echo example_process rev 3 5 (example_context path) req)" by (auto simp: loopback_def split: if_splits)
  then have "Echo example_process rev 3 5 (example_context path) req = Some out'" by (simp add: Echo_def Let_def)
  with p(1) show "\<exists>ctx' h ord t1 t2. routed (\<lambda>_. None) example_process example_visits
        (NewServer example_host :: unit EchoServer) path ctx' \<and>
      find_handler Echoer_ServiceDesc path = Some (EchoHandler h) \<and>
      h (v1_Server (\<lambda>code _. code) example_process ord t1 t2) ctx' (\<lambda>_. (req, None)) None = Some (Some out', None)"
    by (intro exI [of _ "example_context path"] exI [of _ Echoer_Echo_Handler] exI [of _ rev] exI [of _ 3] exI [of _ 5])
      (simp add: example_routed handlers_plain)
next
  fix c :: call and path req out out'
  assume "Invoke_Status loopback c path req out = (out', None)"
  then have p: "path = Echoer_Status_FullMethodName" "out' = StatusResponse" "Status req = OkStatus"
    by (auto simp: loopback_def split: if_splits grpc_answer.splits)
  then show "\<exists>ctx' h ord t1 t2. routed (\<lambda>_. None) example_process example_visits
        (NewServer example_host :: unit EchoServer) path ctx' \<and>
      find_handler Echoer_ServiceDesc path = Some (StatusHandler h) \<and>
      h (v1_Server (\<lambda>code _. code) example_process ord t1 t2) ctx' (\<lambda>_. (req, None)) None = Some (Some out', None)"
    by (intro exI [of _ "example_context path"] exI [of _ Echoer_Status_Handler] exI [of _ rev] exI [of _ 3] exI [of _ 5])
      (simp add: example_routed handlers_plain)
qed

theorem run_against_one_server_witness:
  "\<exists>s w'. config_run quiet_lib meeting_env example_orders rev (replicate 60 0) (New :: nat Config) world0 =
      (Returned (Inr s), w') \<and>
    (s_ErrorCount s = 0 \<and> 0 < s_Count s \<longrightarrow> map be_Key (s_Backends s) = [''($POD_NAME unset)''])"
proof -
  let ?s = "NewServer example_host :: unit EchoServer"
  have "run_safe meeting_env (New :: nat Config)" "\<forall>t\<ge>5. env_ctx_done meeting_env t"
    using example_env_safe by (simp_all add: meeting_env_def quiet_env(1))
  then obtain s w' where run: "config_run quiet_lib meeting_env example_orders rev (replicate 60 0) (New :: nat Config) world0 =
      (Returned (Inr s), w')" by (rule quiet_run)
  have through: "calls_through meeting_env (\<lambda>_ _. loopback)"
    by (simp add: calls_through_def meeting_env_def split: prod.split)
  have pod: "sv_PodName ?s = ''($POD_NAME unset)''"
    by (simp add: NewServer_def Let_def getEnvOrDefault_def example_host_def)
  have "fair (ord_backends example_orders)" by (simp add: example_orders_def fair_def)
  from run_against_one_server [OF run through _ _ this, of "\<lambda>_. None" "\<lambda>code _. code" example_process example_visits ?s]
    loopback_transport pod run
  show ?thesis by auto
qed

text \<open>
  C6: A client call that succeeds has reached the service. Through the stubs, a reply to \<open>Echo\<close> is what the handler
  answered to exactly the request sent, from the HTTP request that carried the method's name as its path,
  on a server in a mode with gRPC; a successful \<open>Status\<close> means that no error was forced, so a
  forced code never looks like success.
\<close>

theorem client_reaches_server:
  fixes s :: "'x EchoServer" and cc :: "('c, 'e) echoerClient"
  assumes "grpc_transport mux_own se p mv s cc"
  shows "(client_Echo cc c req = (Some rsp, None) \<longrightarrow>
      (\<exists>ord t1 t2 ctx r. Echo p ord t1 t2 (WithResult ctx (getResultFromRequest p s r)) req = Some rsp \<and>
        u_Path (the (hr_URL r)) = Echoer_Echo_FullMethodName \<and> rs_Shape rsp = rq_Shape req \<and>
        rs_Payload rsp = echoRequestPayload (rq_Payload req) \<and> mirrors (rq_Payload req) (rs_Payload rsp) \<and>
        rs_Kubernetes rsp = Some \<lparr>ki_Hostname = sv_Hostname s, ki_PodName = sv_PodName s,
          ki_PodNamespace = sv_PodNamespace s, ki_PodNode = sv_PodNode s\<rparr>)) \<and>
    (client_Status cc c sreq = (Some srsp, None) \<longrightarrow> sr_ForceGrpcStatus sreq = 0) \<and>
    (snd (client_Echo cc c req) = None \<or> snd (client_Status cc c sreq) = None \<longrightarrow>
      sv_Mode s = ServerModeGRPC \<or> sv_Mode s = ServerModeBoth)"
proof -
  have status: "sr_ForceGrpcStatus sreq = 0 \<and> (sv_Mode s = ServerModeGRPC \<or> sv_Mode s = ServerModeBoth)"
    if st: "client_Status cc c sreq = (Some srsp, None)" for srsp
  proof -
    from transport_Status [OF assms st] obtain ctx' ord t1 t2 where
      x: "routed mux_own p mv s Echoer_Status_FullMethodName ctx'"
      "Echoer_Status_Handler (v1_Server se p ord t1 t2) ctx' (\<lambda>_. (sreq, None)) None = Some (Some srsp, None)" .
    have "unat (sr_ForceGrpcStatus sreq) = 0"
      using x(2) by (auto simp: handlers_plain Status_def Let_def split: if_splits)
    then show ?thesis
      using routed_service [OF x(1)] by (auto simp: Echoer_Status_FullMethodName_def unat_eq_zero)
  qed
  have echo: "\<exists>ord t1 t2 ctx r. Echo p ord t1 t2 (WithResult ctx (getResultFromRequest p s r)) req = Some rsp \<and>
      u_Path (the (hr_URL r)) = Echoer_Echo_FullMethodName" "sv_Mode s = ServerModeGRPC \<or> sv_Mode s = ServerModeBoth"
    if "client_Echo cc c req = (Some rsp, None)" for rsp
    using client_Echo_served [OF assms that] by metis+
  have some: "\<exists>x. client_Echo cc c req = (Some x, None)" if "snd (client_Echo cc c req) = None"
    using that by (auto simp: client_Echo_def split: prod.splits if_splits)
  have some': "\<exists>x. client_Status cc c sreq = (Some x, None)" if "snd (client_Status cc c sreq) = None"
    using that by (auto simp: client_Status_def split: prod.splits if_splits)
  show ?thesis
  proof (intro conjI impI)
    assume "client_Echo cc c req = (Some rsp, None)"
    from echo(1) [OF this] Echo_under_result echoRequestPayload_mirrors
    show "\<exists>ord t1 t2 ctx r. Echo p ord t1 t2 (WithResult ctx (getResultFromRequest p s r)) req = Some rsp \<and>
        u_Path (the (hr_URL r)) = Echoer_Echo_FullMethodName \<and> rs_Shape rsp = rq_Shape req \<and>
        rs_Payload rsp = echoRequestPayload (rq_Payload req) \<and> mirrors (rq_Payload req) (rs_Payload rsp) \<and>
        rs_Kubernetes rsp = Some \<lparr>ki_Hostname = sv_Hostname s, ki_PodName = sv_PodName s,
          ki_PodNamespace = sv_PodNamespace s, ki_PodNode = sv_PodNode s\<rparr>" by metis
  next
    assume "client_Status cc c sreq = (Some srsp, None)"
    then show "sr_ForceGrpcStatus sreq = 0" using status by blast
  next
    assume "snd (client_Echo cc c req) = None \<or> snd (client_Status cc c sreq) = None"
    then show "sv_Mode s = ServerModeGRPC \<or> sv_Mode s = ServerModeBoth" using echo(2) status some some' by blast
  qed
qed

theorem client_reaches_server_witness:
  "\<exists>rsp. client_Echo loopback \<lparr>cl_metadata = [], cl_compressor = ''gzip'',
       cl_request = \<lparr>rq_Query = ''q'', rq_Shape = PAYLOAD_SHAPE_STRING, rq_Payload = None\<rparr>\<rparr>
       \<lparr>rq_Query = ''q'', rq_Shape = PAYLOAD_SHAPE_STRING, rq_Payload = None\<rparr> = (Some rsp, None) \<and>
     ki_PodName (the (rs_Kubernetes rsp)) = ''($POD_NAME unset)''"
proof -
  let ?req = "\<lparr>rq_Query = ''q'', rq_Shape = PAYLOAD_SHAPE_STRING, rq_Payload = None\<rparr>"
  let ?cl = "\<lparr>cl_metadata = [], cl_compressor = ''gzip'', cl_request = ?req\<rparr>"
  obtain rsp where rsp: "client_Echo loopback ?cl ?req = (Some rsp, None)"
    by (simp add: client_Echo_def loopback_def)
  from client_reaches_server [OF loopback_transport, of ?cl ?req rsp, THEN conjunct1, rule_format, OF rsp]
  have "rs_Kubernetes rsp = Some \<lparr>ki_Hostname = ''node'', ki_PodName = ''($POD_NAME unset)'',
      ki_PodNamespace = sv_PodNamespace (NewServer example_host :: unit EchoServer),
      ki_PodNode = sv_PodNode (NewServer example_host :: unit EchoServer)\<rparr>"
    by (auto simp: NewServer_def Let_def getEnvOrDefault_def example_host_def)
  with rsp show ?thesis by auto
qed

end
