(* ===== verification/Jwt.thy ===== *)
theory Jwt
  imports Echo_Result
begin

text \<open>
  \<open>pkg/echo/extensions/jwt.go\<close>: the extension that reports the JSON web token of a header. The verifier of
  the OIDC library is a parameter: made from the configuration, it answers a token with an error text or
  with its claims. The two times of a token come as the text \<open>time.RFC3339Nano\<close> prints.
\<close>

section \<open>The code\<close>

record JWTConfig =
  jw_HeaderName :: string
  jw_JWKSURL :: string
  jw_IssuerURL :: string
  jw_Audience :: string
  jw_SigningAlgorithms :: "string list"

record IDToken =
  it_Subject :: string
  it_Issuer :: string
  it_Audience :: "string list"
  it_IssuedAt :: string
  it_Expiry :: string
  it_Nonce :: string
  it_AccessTokenHash :: string

text \<open>\<open>oidc.NewVerifier(issuer, oidc.NewRemoteKeySet(url), {ClientID, SupportedSigningAlgs})\<close>.\<close>

type_synonym oidc = "string \<Rightarrow> string \<Rightarrow> string \<Rightarrow> string list \<Rightarrow> string \<Rightarrow> string + IDToken"

datatype jwt_error = ErrMisconfigured

definition jwt_info :: "string + IDToken \<Rightarrow> (string \<times> string list) list" where
  "jwt_info v =
     (case v of
        Inl err \<Rightarrow> [(''error'', [err])]
      | Inr idt \<Rightarrow>
          [(''subject'', [it_Subject idt]), (''issuer'', [it_Issuer idt]), (''audience'', it_Audience idt),
           (''issued_at'', [it_IssuedAt idt]), (''expires_at'', [it_Expiry idt]), (''nonce'', [it_Nonce idt]),
           (''access_token_hash'', [it_AccessTokenHash idt])])"

definition jwt_extension :: "(string \<Rightarrow> string + IDToken) \<Rightarrow> JWTConfig \<Rightarrow> 'x ExtensionFunc" where
  "jwt_extension verify jc r =
     (let token = Header_Get (hr_Header r) (jw_HeaderName jc) in
      if token = [] then Inr []
      else Inr [\<lparr>er_Name = ''jwt:'' @ jw_HeaderName jc, er_Info = Some (jwt_info (verify token))\<rparr>])"

definition JWT :: "oidc \<Rightarrow> JWTConfig \<Rightarrow> jwt_error + 'x ExtensionFunc" where
  "JWT newVerifier jc =
     (if jw_HeaderName jc = [] \<or> jw_JWKSURL jc = [] \<or> jw_Audience jc = [] then Inl ErrMisconfigured
      else Inr (jwt_extension
        (newVerifier (jw_IssuerURL jc) (jw_JWKSURL jc) (jw_Audience jc) (jw_SigningAlgorithms jc)) jc))"

section \<open>Lemmas\<close>

lemma distinct_jwt_info: "distinct (map fst (jwt_info v))"
  by (simp add: jwt_info_def split: sum.split)

text \<open>The table of a token, key by key.\<close>

lemma jwt_info_claims:
  "map_of (jwt_info v) =
     (case v of
        Inl err \<Rightarrow> [''error'' \<mapsto> [err]]
      | Inr t \<Rightarrow> [''subject'' \<mapsto> [it_Subject t], ''issuer'' \<mapsto> [it_Issuer t], ''audience'' \<mapsto> it_Audience t,
          ''issued_at'' \<mapsto> [it_IssuedAt t], ''expires_at'' \<mapsto> [it_Expiry t], ''nonce'' \<mapsto> [it_Nonce t],
          ''access_token_hash'' \<mapsto> [it_AccessTokenHash t]])"
  by (auto simp: jwt_info_def fun_eq_iff split: sum.split)

lemma jwt_extension_total: "\<exists>res. jwt_extension verify jc r = Inr res"
  by (simp add: jwt_extension_def Let_def)

end
