(* ===== verification/Dns.thy ===== *)
theory Dns
  imports Http
begin

text \<open>
  \<open>pkg/dns\<close>: the query record with its two flag types (\<open>flags.go\<close>), the default server and the message that
  \<open>Run\<close> sends (\<open>dns.go\<close>). The DNS library, \<open>net.ParseIP\<close> and the case table of non-ASCII runes are parameters.
\<close>

section \<open>flags.go\<close>

type_synonym QueryClass = string
type_synonym QueryType = string

definition QueryClassMap :: "string \<rightharpoonup> nat" where
  "QueryClassMap = map_of [(''IN'', 1)]"

definition QueryTypeMap :: "string \<rightharpoonup> nat" where
  "QueryTypeMap = map_of [(''A'', 1), (''CNAME'', 5), (''MX'', 15), (''NS'', 2), (''SRV'', 33), (''TXT'', 16)]"

datatype flag_error = InvalidQueryClass | InvalidQueryType

text \<open>\<open>Set\<close> returns its error, if any, and the receiver; a missing key of a map reads as zero.\<close>

definition QueryClass_String :: "QueryClass \<Rightarrow> string" where "QueryClass_String e = e"

definition QueryClass_Set :: "QueryClass \<Rightarrow> string \<Rightarrow> flag_error option \<times> QueryClass" where
  "QueryClass_Set e v = (if QueryClassMap v = None then (Some InvalidQueryClass, e) else (None, v))"

definition QueryClass_Type :: "QueryClass \<Rightarrow> string" where "QueryClass_Type e = ''QueryClass''"

definition DNSClass :: "QueryClass \<Rightarrow> nat" where
  "DNSClass e = (case QueryClassMap e of None \<Rightarrow> 0 | Some n \<Rightarrow> n)"

text \<open>\<open>strings.ToUpper\<close>: bytes when the string is ASCII, otherwise rune by rune.\<close>

definition rune_upper :: "(rune \<Rightarrow> rune) \<Rightarrow> rune \<Rightarrow> rune" where
  "rune_upper table r = (if r < 0x80 then (if 97 \<le> r \<and> r \<le> 122 then r - 32 else r) else table r)"

definition ToUpper :: "(rune \<Rightarrow> rune) \<Rightarrow> string \<Rightarrow> string" where
  "ToUpper table s =
     (if list_all (\<lambda>c. byte c < 0x80) s then map to_upper s
      else string_of_runes (map (rune_upper table) (runes s)))"

definition QueryType_String :: "QueryType \<Rightarrow> string" where "QueryType_String e = e"

definition QueryType_Set :: "(rune \<Rightarrow> rune) \<Rightarrow> QueryType \<Rightarrow> string \<Rightarrow> flag_error option \<times> QueryType" where
  "QueryType_Set table e v =
     (let v = ToUpper table v in
      if QueryTypeMap v = None then (Some InvalidQueryType, e) else (None, v))"

definition QueryType_Type :: "QueryType \<Rightarrow> string" where "QueryType_Type e = ''QueryType''"

definition DNSType :: "QueryType \<Rightarrow> nat" where
  "DNSType e = (case QueryTypeMap e of None \<Rightarrow> 0 | Some n \<Rightarrow> n)"

section \<open>dns.go\<close>

record Query =
  qu_ServerAddress :: string
  qu_Recurse :: bool
  qu_QueryName :: string
  qu_QueryType :: QueryType
  qu_QueryClass :: QueryClass

text \<open>
  \<open>net.ParseIP\<close> answers with sixteen bytes or nil; \<open>To4\<close> is not nil on the addresses that embed an IPv4
  address. \<open>servers\<close> is what \<open>/etc/resolv.conf\<close> lists, when it can be read.
\<close>

definition is_ip4 :: "nat list \<Rightarrow> bool" where
  "is_ip4 ip \<longleftrightarrow> length ip = 16 \<and> take 12 ip = replicate 10 0 @ [255, 255]"

definition defaultServerAddress ::
  "(string \<Rightarrow> nat list option) \<Rightarrow> (nat list \<Rightarrow> string) \<Rightarrow> string list option \<Rightarrow> string" where
  "defaultServerAddress ParseIP ip_String servers =
     (case servers of
        Some (server # _) \<Rightarrow>
          (case ParseIP server of
             None \<Rightarrow> ''127.0.0.1:53''
           | Some ip \<Rightarrow>
               if is_ip4 ip then server @ '':53''
               else if length ip = 16 then ''['' @ ip_String ip @ '']:53''
               else ''127.0.0.1:53'')
      | _ \<Rightarrow> ''127.0.0.1:53'')"

definition New_query :: "string \<Rightarrow> Query" where
  "New_query defaultServer =
     \<lparr>qu_ServerAddress = defaultServer, qu_Recurse = True, qu_QueryName = [], qu_QueryType = ''A'',
      qu_QueryClass = ''IN''\<rparr>"

record dns_Question =
  dq_Name :: string
  dq_Qtype :: nat
  dq_Qclass :: nat

record dns_Msg =
  dm_Id :: nat
  dm_RecursionDesired :: bool
  dm_Question :: "dns_Question list"

definition query_message :: "nat \<Rightarrow> Query \<Rightarrow> dns_Msg" where
  "query_message mid q =
     \<lparr>dm_Id = mid, dm_RecursionDesired = qu_Recurse q,
      dm_Question = [\<lparr>dq_Name = qu_QueryName q, dq_Qtype = DNSType (qu_QueryType q),
        dq_Qclass = DNSClass (qu_QueryClass q)\<rparr>]\<rparr>"

text \<open>\<open>Exchange\<close> answers with an error, or with what \<open>%+v\<close> prints of the reply and of the round trip.\<close>

definition Query_Run :: "(dns_Msg \<Rightarrow> string \<Rightarrow> 'x + string \<times> string) \<Rightarrow> nat \<Rightarrow> Query \<Rightarrow> 'x option \<times> string" where
  "Query_Run exchange mid q =
     (case exchange (query_message mid q) (qu_ServerAddress q) of
        Inl e \<Rightarrow> (Some e, [])
      | Inr (reply, rtt) \<Rightarrow> (None, reply @ [CHR 0x0A] @ '';; rtt: '' @ rtt @ [CHR 0x0A]))"

section \<open>Lemmas\<close>

lemma QueryTypeMap_dom: "QueryTypeMap v \<noteq> None \<longleftrightarrow> v \<in> {''A'', ''CNAME'', ''MX'', ''NS'', ''SRV'', ''TXT''}"
  by (simp add: QueryTypeMap_def)

lemma DNSType_pos: "QueryTypeMap v \<noteq> None \<Longrightarrow> 0 < DNSType v"
  by (auto simp: DNSType_def QueryTypeMap_def split: if_splits)

lemma ToUpper_known:
  assumes "QueryTypeMap v \<noteq> None"
  shows "ToUpper table v = v"
  using assms unfolding QueryTypeMap_dom by (elim insertE) (simp_all add: ToUpper_def to_upper_def is_lower_def)

section \<open>Properties\<close>

text \<open>
  The query type that reaches the wire: \<open>Set\<close> accepts a value exactly when its upper case is one of the six
  types, ignoring the case of ASCII letters; it then stores a value that asks for that record type, never for
  type zero, and that \<open>Set\<close> accepts unchanged; otherwise the flag keeps its value.
\<close>

theorem query_type_flag:
  assumes "QueryType_Set table e v = (err, e')"
  shows "(err = None \<longleftrightarrow> ToUpper table v \<in> {''A'', ''CNAME'', ''MX'', ''NS'', ''SRV'', ''TXT''}) \<and>
    (err \<noteq> None \<longrightarrow> e' = e) \<and>
    (err = None \<longrightarrow> e' = ToUpper table v \<and> 0 < DNSType e' \<and> QueryType_Set table e2 (QueryType_String e') = (None, e')) \<and>
    (list_all (\<lambda>c. byte c < 0x80) v \<longrightarrow> ToUpper table v = map to_upper v)"
proof -
  have "QueryType_Set table e2 e' = (None, e')" if "err = None"
    using assms that ToUpper_known [of e' table] by (auto simp: QueryType_Set_def Let_def split: if_splits)
  then show ?thesis
    using assms DNSType_pos [of e'] QueryTypeMap_dom [of "ToUpper table v"]
    by (auto simp: QueryType_Set_def Let_def QueryType_String_def ToUpper_def split: if_splits)
qed

theorem query_type_flag_witness:
  "QueryType_Set (\<lambda>r. r) ''A'' ''mX'' = (None, ''MX'') \<and> 0 < DNSType ''MX''"
proof -
  have s: "QueryType_Set (\<lambda>r. r) ''A'' ''mX'' = (None, ''MX'')" by code_simp
  show ?thesis
    by (rule conjI [OF s query_type_flag [OF s, THEN conjunct2, THEN conjunct2, THEN conjunct1, rule_format, OF refl,
          THEN conjunct2, THEN conjunct1]])
qed

end
