(* ===== verification/Listen.thy ===== *)
theory Listen
  imports Strconv Transitions "HOL-Library.Multiset"
begin

text \<open>
  \<open>pkg/listen/listen.go\<close>: the listener as a step relation. Its threads are the accept loop of \<open>Run\<close>, the
  goroutine that closes the listener when the context is done, and one handler per accepted connection. A
  peer is what it does to its handler: whether the deadline can be set, the chunks it sends, how reading
  ends.
\<close>

section \<open>The code\<close>

record ListenServer =
  ln_Host :: string
  ln_Port :: int
  ln_Network :: string

definition New_listen :: ListenServer where
  "New_listen = \<lparr>ln_Host = ''127.0.0.1'', ln_Port = 0, ln_Network = ''tcp''\<rparr>"

definition listen_addr :: "ListenServer \<Rightarrow> string" where
  "listen_addr s = ln_Host s @ '':'' @ show_int (ln_Port s)"

record 'x peer =
  pe_SetDeadline :: "'x option"
  pe_chunks :: "string list"
  pe_read_error :: "'x option"

text \<open>\<open>handle\<close>: the deadline, the copy into the buffer, the log line, and the deferred \<open>Close\<close>.\<close>

datatype handler_pc = AtDeadline | AtCopy | HandlerDone

record 'x handler =
  hd_peer :: "'x peer"
  hd_pc :: handler_pc
  hd_closes :: nat
  hd_received :: "string option"

definition handler_close :: "'x handler \<Rightarrow> 'x handler" where
  "handler_close h = h\<lparr>hd_closes := hd_closes h + 1, hd_pc := HandlerDone\<rparr>"

definition handle_step :: "'x handler \<Rightarrow> 'x handler" where
  "handle_step h =
     (case hd_pc h of
        AtDeadline \<Rightarrow>
          (case pe_SetDeadline (hd_peer h) of Some e \<Rightarrow> handler_close h | None \<Rightarrow> h\<lparr>hd_pc := AtCopy\<rparr>)
      | AtCopy \<Rightarrow>
          (case pe_read_error (hd_peer h) of
             Some e \<Rightarrow> handler_close h
           | None \<Rightarrow> handler_close (h\<lparr>hd_received := Some (concat (pe_chunks (hd_peer h)))\<rparr>))
      | HandlerDone \<Rightarrow> h)"

definition start_handler :: "'x peer \<Rightarrow> 'x handler" where
  "start_handler p = \<lparr>hd_peer = p, hd_pc = AtDeadline, hd_closes = 0, hd_received = None\<rparr>"

datatype closer = NoCloser | CloserWaiting | CloserDone

datatype 'x run_pc = AtListen | AtAccept | RunReturned "'x option"

record 'x listen_state =
  li_ctx_done :: bool
  li_closer :: closer
  li_open :: bool
  li_listener :: bool
  li_run :: "'x run_pc"
  li_stopped :: bool
  li_handlers :: "'x handler list"

definition listen_start :: "'x listen_state" where
  "listen_start = \<lparr>li_ctx_done = False, li_closer = NoCloser, li_open = False, li_listener = False,
     li_run = AtListen, li_stopped = False, li_handlers = []\<rparr>"

text \<open>
  \<open>li_listener\<close> is the field \<open>s.listener\<close>, which \<open>Addr\<close> reads; \<open>li_open\<close> is the socket. An accept error other than
  \<open>net.ErrClosed\<close> is logged and the loop goes on.
\<close>

inductive listen_step :: "'x listen_state \<Rightarrow> 'x listen_state \<Rightarrow> bool" where
  bind_failed: "li_run st = AtListen \<Longrightarrow> listen_step st (st\<lparr>li_run := RunReturned (Some e)\<rparr>)"
| bound: "li_run st = AtListen \<Longrightarrow>
    listen_step st (st\<lparr>li_run := AtAccept, li_open := True, li_listener := True, li_closer := CloserWaiting\<rparr>)"
| cancelled: "\<not> li_ctx_done st \<Longrightarrow> listen_step st (st\<lparr>li_ctx_done := True\<rparr>)"
| closer_closes: "li_closer st = CloserWaiting \<Longrightarrow> li_ctx_done st \<Longrightarrow>
    listen_step st (st\<lparr>li_closer := CloserDone, li_open := False\<rparr>)"
| closer_stops: "li_closer st = CloserWaiting \<Longrightarrow> li_stopped st \<Longrightarrow>
    listen_step st (st\<lparr>li_closer := CloserDone\<rparr>)"
| accepted: "li_run st = AtAccept \<Longrightarrow> li_open st \<Longrightarrow>
    listen_step st (st\<lparr>li_handlers := li_handlers st @ [start_handler p]\<rparr>)"
| accept_failed: "li_run st = AtAccept \<Longrightarrow> li_open st \<Longrightarrow> listen_step st st"
| accept_closed: "li_run st = AtAccept \<Longrightarrow> \<not> li_open st \<Longrightarrow>
    listen_step st (st\<lparr>li_run := RunReturned None, li_listener := False, li_stopped := True\<rparr>)"
| handler: "i < length (li_handlers st) \<Longrightarrow>
    listen_step st (st\<lparr>li_handlers := (li_handlers st)[i := handle_step (li_handlers st ! i)]\<rparr>)"

definition Addr_set :: "'x listen_state \<Rightarrow> bool" where
  "Addr_set st = li_listener st"

section \<open>The invariant\<close>

text \<open>A handler has closed its connection exactly if it is done, and then knows the whole payload or an error.\<close>

definition handler_ok :: "'x handler \<Rightarrow> bool" where
  "handler_ok h \<longleftrightarrow>
     hd_closes h = (if hd_pc h = HandlerDone then 1 else 0) \<and>
     (hd_pc h = AtCopy \<longrightarrow> pe_SetDeadline (hd_peer h) = None) \<and>
     hd_received h =
       (if hd_pc h = HandlerDone \<and> pe_SetDeadline (hd_peer h) = None \<and> pe_read_error (hd_peer h) = None
        then Some (concat (pe_chunks (hd_peer h))) else None)"

lemma handler_ok_start: "handler_ok (start_handler p)"
  by (simp add: handler_ok_def start_handler_def)

lemma handler_ok_step: "handler_ok h \<Longrightarrow> handler_ok (handle_step h)"
  by (cases "hd_pc h") (auto simp: handler_ok_def handle_step_def handler_close_def split: option.splits)

definition listen_inv :: "'x listen_state \<Rightarrow> bool" where
  "listen_inv st \<longleftrightarrow>
     (li_listener st \<longleftrightarrow> li_run st = AtAccept) \<and>
     (li_open st \<longleftrightarrow> li_run st = AtAccept \<and> li_closer st = CloserWaiting) \<and>
     (li_closer st = NoCloser \<longleftrightarrow> li_run st = AtListen \<or> (\<exists>e. li_run st = RunReturned (Some e))) \<and>
     (li_closer st = CloserDone \<longrightarrow> li_ctx_done st) \<and>
     (li_run st = RunReturned None \<longrightarrow> li_closer st = CloserDone) \<and>
     (li_stopped st \<longleftrightarrow> li_run st = RunReturned None) \<and>
     (li_closer st = NoCloser \<longrightarrow> li_handlers st = []) \<and>
     list_all handler_ok (li_handlers st)"

lemma listen_inv_start: "listen_inv listen_start"
  by (simp add: listen_inv_def listen_start_def)

lemma list_all_update: "list_all P xs \<Longrightarrow> P y \<Longrightarrow> list_all P (xs[i := y])"
  by (auto simp: list_all_iff dest!: set_update_subset_insert [THEN subsetD])

lemma listen_step_inv: "listen_step st st' \<Longrightarrow> listen_inv st \<Longrightarrow> listen_inv st'"
proof (induction rule: listen_step.induct)
  case (handler i st)
  then have "handler_ok (li_handlers st ! i)" by (simp add: listen_inv_def list_all_length)
  with handler show ?case by (auto simp: listen_inv_def intro: list_all_update handler_ok_step)
next
  case (accept_closed st)
  then show ?case by (cases "li_closer st") (auto simp: listen_inv_def)
qed (auto simp: listen_inv_def handler_ok_start)


section \<open>What the listener promises\<close>

text \<open>
  The abstract listener, an inbox: peers arrive only while it is up, and each is settled in one step, with
  its whole payload in the log or, if it fails, with nothing. Peers may settle in any order, also after the
  inbox went down.
\<close>

datatype phase = Down | Up | Stopped

record 'x inbox =
  ib_phase :: phase
  ib_pending :: "'x peer multiset"
  ib_log :: "string multiset"

definition peer_fails :: "'x peer \<Rightarrow> bool" where
  "peer_fails p \<longleftrightarrow> pe_SetDeadline p \<noteq> None \<or> pe_read_error p \<noteq> None"

inductive inbox_step :: "'x inbox \<Rightarrow> 'x inbox \<Rightarrow> bool" where
  comes_up: "ib_phase ib = Down \<Longrightarrow> inbox_step ib (ib\<lparr>ib_phase := Up\<rparr>)"
| never_up: "ib_phase ib = Down \<Longrightarrow> inbox_step ib (ib\<lparr>ib_phase := Stopped\<rparr>)"
| stops: "ib_phase ib = Up \<Longrightarrow> inbox_step ib (ib\<lparr>ib_phase := Stopped\<rparr>)"
| arrives: "ib_phase ib = Up \<Longrightarrow> inbox_step ib (ib\<lparr>ib_pending := add_mset p (ib_pending ib)\<rparr>)"
| delivered: "p \<in># ib_pending ib \<Longrightarrow> \<not> peer_fails p \<Longrightarrow>
    inbox_step ib (ib\<lparr>ib_pending := ib_pending ib - {#p#}, ib_log := add_mset (concat (pe_chunks p)) (ib_log ib)\<rparr>)"
| failed: "p \<in># ib_pending ib \<Longrightarrow> peer_fails p \<Longrightarrow>
    inbox_step ib (ib\<lparr>ib_pending := ib_pending ib - {#p#}\<rparr>)"

text \<open>A handler is pending until it is done, and logs what it received.\<close>

definition pending_of :: "'x handler \<Rightarrow> 'x peer multiset" where
  "pending_of h = (if hd_pc h = HandlerDone then {#} else {#hd_peer h#})"

definition log_of :: "'x handler \<Rightarrow> string multiset" where
  "log_of h = (case hd_received h of None \<Rightarrow> {#} | Some s \<Rightarrow> {#s#})"

definition inbox_of :: "'x listen_state \<Rightarrow> 'x inbox" where
  "inbox_of st =
     \<lparr>ib_phase = (case li_run st of AtListen \<Rightarrow> Down | AtAccept \<Rightarrow> Up | RunReturned _ \<Rightarrow> Stopped),
      ib_pending = sum_list (map pending_of (li_handlers st)),
      ib_log = sum_list (map log_of (li_handlers st))\<rparr>"

lemma sum_list_update_mset:
  fixes f :: "'a \<Rightarrow> 'b multiset"
  assumes "i < length xs"
  shows "sum_list (map f (xs[i := y])) = sum_list (map f xs) - f (xs ! i) + f y"
    and "f (xs ! i) \<subseteq># sum_list (map f xs)"
proof -
  have xs: "xs = take i xs @ xs ! i # drop (Suc i) xs" using assms by (rule id_take_nth_drop)
  have ys: "xs[i := y] = take i xs @ y # drop (Suc i) xs" using assms by (rule upd_conv_take_nth_drop)
  have s: "sum_list (map f xs) = sum_list (map f (take i xs)) + (f (xs ! i) + sum_list (map f (drop (Suc i) xs)))"
    by (subst xs) simp
  show "sum_list (map f (xs[i := y])) = sum_list (map f xs) - f (xs ! i) + f y"
    unfolding s ys by (simp add: union_ac)
  show "f (xs ! i) \<subseteq># sum_list (map f xs)" unfolding s by simp
qed

text \<open>One step of a handler is no step of the inbox, or it settles the peer.\<close>

lemma handler_step_cases:
  assumes "handler_ok h"
  obtains (stays) "pending_of (handle_step h) = pending_of h" "log_of (handle_step h) = log_of h"
  | (delivers) "pending_of h = {#hd_peer h#}" "pending_of (handle_step h) = {#}" "log_of h = {#}"
      "log_of (handle_step h) = {#concat (pe_chunks (hd_peer h))#}" "\<not> peer_fails (hd_peer h)"
  | (fails) "pending_of h = {#hd_peer h#}" "pending_of (handle_step h) = {#}" "log_of h = {#}"
      "log_of (handle_step h) = {#}" "peer_fails (hd_peer h)"
proof (cases "hd_pc h")
  case AtDeadline
  then show thesis
    using assms stays fails
    by (cases "pe_SetDeadline (hd_peer h)")
      (auto simp: handle_step_def handler_ok_def handler_close_def pending_of_def log_of_def peer_fails_def)
next
  case AtCopy
  then show thesis
    using assms delivers fails
    by (cases "pe_read_error (hd_peer h)")
      (auto simp: handle_step_def handler_ok_def handler_close_def pending_of_def log_of_def peer_fails_def)
next
  case HandlerDone
  then show thesis using stays by (simp add: handle_step_def)
qed

lemma inbox_simulation_handler:
  assumes "listen_inv st" "i < length (li_handlers st)"
  shows "inbox_step\<^sup>=\<^sup>= (inbox_of st)
    (inbox_of (st\<lparr>li_handlers := (li_handlers st)[i := handle_step (li_handlers st ! i)]\<rparr>))"
proof -
  let ?h = "li_handlers st ! i"
  have ok: "handler_ok ?h" using assms by (simp add: listen_inv_def list_all_length)
  note upd = sum_list_update_mset(1) [OF assms(2)]
  note sub = sum_list_update_mset(2) [OF assms(2), of pending_of] sum_list_update_mset(2) [OF assms(2), of log_of]
  show ?thesis
  proof (cases rule: handler_step_cases [OF ok])
    case 1
    then show ?thesis using sub by (simp add: inbox_of_def upd)
  next
    case 2
    then have p: "hd_peer ?h \<in># ib_pending (inbox_of st)" using sub(1) by (simp add: inbox_of_def)
    from inbox_step.delivered [OF p] 2 show ?thesis by (simp add: inbox_of_def upd)
  next
    case 3
    then have p: "hd_peer ?h \<in># ib_pending (inbox_of st)" using sub(1) by (simp add: inbox_of_def)
    from inbox_step.failed [OF p] 3 show ?thesis by (simp add: inbox_of_def upd)
  qed
qed

lemma inbox_simulation:
  assumes "listen_step st st'" "listen_inv st"
  shows "inbox_step\<^sup>=\<^sup>= (inbox_of st) (inbox_of st')"
  using assms
proof (induction rule: listen_step.induct)
  case (bind_failed st e)
  then show ?case using inbox_step.never_up [of "inbox_of st"] by (simp add: inbox_of_def)
next
  case (bound st)
  then show ?case using inbox_step.comes_up [of "inbox_of st"] by (simp add: inbox_of_def)
next
  case (accepted st p)
  then show ?case
    using inbox_step.arrives [of "inbox_of st" p]
    by (simp add: inbox_of_def pending_of_def log_of_def start_handler_def)
next
  case (accept_closed st)
  then show ?case using inbox_step.stops [of "inbox_of st"] by (simp add: inbox_of_def)
next
  case (handler i st)
  then show ?case by (intro inbox_simulation_handler)
qed (simp_all add: inbox_of_def)

lemma inbox_of_start: "inbox_of listen_start = \<lparr>ib_phase = Down, ib_pending = {#}, ib_log = {#}\<rparr>"
  by (simp add: inbox_of_def listen_start_def)

interpretation listener: simulation listen_step listen_start listen_inv inbox_step inbox_of
  by unfold_locales (auto intro: listen_inv_start listen_step_inv inbox_simulation [THEN sup2E])

section \<open>Properties\<close>

text \<open>
  C19: The listener under every interleaving of its threads: \<open>Addr\<close> is set exactly while \<open>Run\<close> accepts, \<open>Run\<close>
  returns nil only when the context is done and its socket is closed, and an error only when it could not
  listen, with nothing accepted; every accepted connection is closed at most once, and once its handler is
  done exactly once, after the whole payload was received or an error stopped it. When the context is done
  while \<open>Run\<close> accepts, it can return within two steps, whatever the handlers do.
\<close>

theorem listen_lifecycle:
  assumes "listen_step\<^sup>*\<^sup>* listen_start st"
  shows "(Addr_set st \<longleftrightarrow> li_run st = AtAccept) \<and>
    (li_run st = RunReturned None \<longrightarrow> li_ctx_done st \<and> \<not> li_open st) \<and>
    (\<forall>e. li_run st = RunReturned (Some e) \<longrightarrow> li_handlers st = [] \<and> \<not> li_open st) \<and>
    (\<forall>h\<in>set (li_handlers st). hd_closes h \<le> 1 \<and>
      (hd_pc h = HandlerDone \<longrightarrow> hd_closes h = 1 \<and>
        (hd_received h = Some (concat (pe_chunks (hd_peer h))) \<or>
         hd_received h = None \<and> (pe_SetDeadline (hd_peer h) \<noteq> None \<or> pe_read_error (hd_peer h) \<noteq> None)))) \<and>
    (li_run st = AtAccept \<and> li_ctx_done st \<longrightarrow>
      (\<exists>st' st''. (st' = st \<or> listen_step st st') \<and> listen_step st' st'' \<and> li_run st'' = RunReturned None))"
proof -
  have inv: "listen_inv st" by (rule listener.reachable_inv [OF assms])
  have hs: "handler_ok h" if "h \<in> set (li_handlers st)" for h
    using inv that by (simp add: listen_inv_def list_all_iff)
  have "\<exists>st' st''. (st' = st \<or> listen_step st st') \<and> listen_step st' st'' \<and> li_run st'' = RunReturned None"
    if run: "li_run st = AtAccept" and ctx: "li_ctx_done st"
  proof (cases "li_open st")
    case True
    then have "li_closer st = CloserWaiting" using inv by (simp add: listen_inv_def)
    from listen_step.closer_closes [OF this ctx]
    have "listen_step st (st\<lparr>li_closer := CloserDone, li_open := False\<rparr>)" .
    moreover have "listen_step (st\<lparr>li_closer := CloserDone, li_open := False\<rparr>)
        (st\<lparr>li_closer := CloserDone, li_open := False\<rparr>\<lparr>li_run := RunReturned None, li_listener := False, li_stopped := True\<rparr>)"
      using run by (intro listen_step.accept_closed) simp_all
    ultimately show ?thesis by fastforce
  next
    case False
    from listen_step.accept_closed [OF run False] show ?thesis by fastforce
  qed
  moreover have "\<forall>h\<in>set (li_handlers st). hd_closes h \<le> 1 \<and>
      (hd_pc h = HandlerDone \<longrightarrow> hd_closes h = 1 \<and>
        (hd_received h = Some (concat (pe_chunks (hd_peer h))) \<or>
         hd_received h = None \<and> (pe_SetDeadline (hd_peer h) \<noteq> None \<or> pe_read_error (hd_peer h) \<noteq> None)))"
    using hs by (auto simp: handler_ok_def)
  ultimately show ?thesis
    using inv by (auto simp: listen_inv_def Addr_set_def)
qed

theorem listen_lifecycle_witness:
  "Addr_set ((listen_start :: unit listen_state)
     \<lparr>li_run := AtAccept, li_open := True, li_listener := True, li_closer := CloserWaiting\<rparr>)"
proof -
  have "listen_step\<^sup>*\<^sup>* (listen_start :: unit listen_state) (listen_start
     \<lparr>li_run := AtAccept, li_open := True, li_listener := True, li_closer := CloserWaiting\<rparr>)"
    by (intro r_into_rtranclp listen_step.bound) (simp add: listen_start_def)
  from listen_lifecycle [OF this] show ?thesis by simp
qed

text \<open>
  C11: The listener refines the inbox: every step of its threads is one atomic step of the inbox or none, so every
  reachable state stands for a reachable inbox. A payload therefore enters the log whole, once, and only from a
  peer that was accepted while \<open>Run\<close> accepted.
\<close>

theorem listen_refines_inbox:
  assumes "listen_step\<^sup>*\<^sup>* listen_start st"
  shows "inbox_step\<^sup>*\<^sup>* \<lparr>ib_phase = Down, ib_pending = {#}, ib_log = {#}\<rparr> (inbox_of st) \<and>
    (\<forall>st'. listen_step st st' \<longrightarrow> inbox_of st' = inbox_of st \<or> inbox_step (inbox_of st) (inbox_of st'))"
  using listener.simulated [OF assms] listener.simulated_step [OF assms]
  by (auto simp: inbox_of_start)

theorem listen_refines_inbox_witness:
  "inbox_step\<^sup>*\<^sup>* \<lparr>ib_phase = Down, ib_pending = {#}, ib_log = {#}\<rparr>
     \<lparr>ib_phase = Up, ib_pending = {#} :: unit peer multiset, ib_log = {#}\<rparr>"
proof -
  have "listen_step\<^sup>*\<^sup>* (listen_start :: unit listen_state) (listen_start
     \<lparr>li_run := AtAccept, li_open := True, li_listener := True, li_closer := CloserWaiting\<rparr>)"
    by (intro r_into_rtranclp listen_step.bound) (simp add: listen_start_def)
  from listen_refines_inbox [OF this, THEN conjunct1] show ?thesis by (simp add: inbox_of_def listen_start_def)
qed

end
