(* ===== verification/Send.thy ===== *)
theory Send
  imports Listen
begin

text \<open>
  \<open>pkg/send/send.go\<close>: one payload from a reader to a dialed connection. What the network does is the
  environment; the trace lists what happens to the connection. At the end the payload meets the handler of
  \<open>pkg/listen\<close>.
\<close>

section \<open>The code\<close>

record SendClient =
  sd_Network :: string
  sd_Address :: string
  sd_Reader :: "string option"

definition New_send :: SendClient where
  "New_send = \<lparr>sd_Network = ''tcp'', sd_Address = ''127.0.0.1:8080'', sd_Reader = None\<rparr>"

datatype send_event = Dialed | Wrote string | ConnClosed

datatype 'x send_error = DialFailed string string 'x | SendFailed string string 'x

text \<open>
  A reader is the bytes it holds. \<open>io.Copy\<close> answers with an error, or none, and the number of bytes that
  reached the connection.
\<close>

record 'x send_env =
  se_Dial :: "string \<Rightarrow> string \<Rightarrow> 'x option"
  se_Stdin :: string
  se_Copy :: "string \<Rightarrow> 'x option \<times> nat"

definition Send_Run :: "'x send_env \<Rightarrow> SendClient \<Rightarrow> 'x send_error option \<times> send_event list" where
  "Send_Run env c =
     (case se_Dial env (sd_Network c) (sd_Address c) of
        Some e \<Rightarrow> (Some (DialFailed (sd_Network c) (sd_Address c) e), [])
      | None \<Rightarrow>
          let r = (case sd_Reader c of None \<Rightarrow> se_Stdin env | Some r \<Rightarrow> r) in
          (case se_Copy env r of
             (Some e, n) \<Rightarrow>
               (Some (SendFailed (sd_Network c) (sd_Address c) e), [Dialed, Wrote (take n r), ConnClosed])
           | (None, n) \<Rightarrow> (None, [Dialed, Wrote (take n r), ConnClosed])))"

text \<open>\<open>io.Copy\<close> reports no error only when it reached the end of the reader.\<close>

definition copy_complete :: "'x send_env \<Rightarrow> bool" where
  "copy_complete env \<longleftrightarrow> (\<forall>s n. se_Copy env s = (None, n) \<longrightarrow> length s \<le> n)"

section \<open>Properties\<close>

text \<open>
  C37: \<open>send\<close> closes the connection it dialed exactly once, last, on every path; it returns nil only when the whole
  input was written, and a \<open>listen\<close> handler that reads those bytes in whatever chunks to the end records
  that input and closes its side.
\<close>

theorem send_reaches_listener:
  assumes "copy_complete env" "Send_Run env c = (err, evs)"
    and "pe_SetDeadline p = None" "pe_read_error p = None"
  shows "(evs = [] \<or> last evs = ConnClosed \<and> count_list evs ConnClosed = 1) \<and>
    (err = None \<longrightarrow>
      (\<exists>sent. evs = [Dialed, Wrote sent, ConnClosed] \<and>
        sent = (case sd_Reader c of None \<Rightarrow> se_Stdin env | Some r \<Rightarrow> r) \<and>
        (concat (pe_chunks p) = sent \<longrightarrow>
          hd_received (handle_step (handle_step (start_handler p))) = Some sent \<and>
          hd_closes (handle_step (handle_step (start_handler p))) = 1)))"
proof -
  have "hd_received (handle_step (handle_step (start_handler p))) = Some (concat (pe_chunks p))"
    "hd_closes (handle_step (handle_step (start_handler p))) = 1"
    using assms(3,4) by (simp_all add: handle_step_def start_handler_def handler_close_def)
  with assms(1,2) show ?thesis
    by (auto simp: Send_Run_def copy_complete_def Let_def split: option.splits prod.splits)
qed

theorem send_reaches_listener_witness:
  "hd_received (handle_step (handle_step (start_handler
     \<lparr>pe_SetDeadline = None :: unit option, pe_chunks = [''he'', ''llo''], pe_read_error = None\<rparr>))) = Some ''hello''"
proof -
  let ?env = "\<lparr>se_Dial = (\<lambda>_ _. None :: unit option), se_Stdin = ''hello'', se_Copy = (\<lambda>s. (None, length s))\<rparr>"
  let ?p = "\<lparr>pe_SetDeadline = None :: unit option, pe_chunks = [''he'', ''llo''], pe_read_error = None\<rparr>"
  have "copy_complete ?env" by (simp add: copy_complete_def)
  moreover have "Send_Run ?env New_send = (None, [Dialed, Wrote ''hello'', ConnClosed])"
    by (simp add: Send_Run_def New_send_def Let_def)
  ultimately show ?thesis
    using send_reaches_listener [of ?env New_send None "[Dialed, Wrote ''hello'', ConnClosed]" ?p]
    by (simp add: New_send_def)
qed

end
