(* ===== verification/App.thy ===== *)
theory App
  imports Report Bench_Echo Jwt Dns Send
begin

text \<open>
  \<open>pkg/app/app.go\<close>: the commands with their help, the flags they define with the fields the flags start from, and
  what each command runs; and the exit of \<open>cmd/netdebug/main.go\<close>. Parsing a command line belongs to cobra and
  pflag; of them the model only uses that defining two flags of one command with the same name or the same
  shorthand panics.
\<close>

section \<open>Flags\<close>

datatype flag_value =
    FString string | FBool bool | FInt int | FDuration duration | FStrings "string list"
  | FMap "(string \<times> string) list" | FVar string

record flag =
  fl_name :: string
  fl_short :: string
  fl_default :: flag_value
  fl_usage :: string

definition mk_flag :: "string \<Rightarrow> string \<Rightarrow> flag_value \<Rightarrow> string \<Rightarrow> flag" where
  "mk_flag n s d u = \<lparr>fl_name = n, fl_short = s, fl_default = d, fl_usage = u\<rparr>"

definition bench_flags :: "'o Config \<Rightarrow> flag list" where
  \<open>bench_flags b =
     [mk_flag ''target'' ''t'' (FString (cf_Target b))
        ''Target address (host:port) of the echo server'',
      mk_flag ''plaintext'' [] (FBool (cf_Plaintext b))
        ''Use plaintext gRPC instead of TLS'',
      mk_flag ''tls-insecure-skip-verify'' [] (FBool (cf_TLSInsecureSkipVerify b))
        ''Skip TLS certificate verification; only meaningful without --plaintext'',
      mk_flag ''concurrency'' ''c'' (FInt (cf_Concurrency b))
        ''Number of concurrent workers'',
      mk_flag ''duration'' ''d'' (FDuration (cf_Duration b))
        ''Duration of the benchmark run'',
      mk_flag ''payload'' ''p'' (FVar (PayloadMix_String (Some (cf_Payload b))))
        ''Payload mix, e.g. "embedding-float" or "embedding-float:50,embedding-bytes:50"'',
      mk_flag ''embedding-dim'' [] (FInt (cf_EmbeddingDim b))
        ''Dimensions for embedding-float and embedding-bytes payload shapes'',
      mk_flag ''bytes-size'' [] (FInt (cf_BytesSize b))
        ''Size in bytes for the bytes payload shape'',
      mk_flag ''string-len'' [] (FInt (cf_StringLen b))
        ''Length in characters for the string payload shape'',
      mk_flag ''compression'' [] (FString (cf_Compression b))
        ''Compression codec: identity, gzip, snappy, zstd'',
      mk_flag ''conn-model'' [] (FString (cf_ConnModel b))
        ''Connection model: per-worker, shared, per-request'',
      mk_flag ''output'' [] (FString (cf_OutputFormat b))
        ''Output format: human, json'',
      mk_flag ''header'' [] (FMap (cf_Headers b))
        ''Repeatable header (key=value) attached to every outgoing gRPC request'',
      mk_flag ''label'' [] (FMap (cf_Labels b))
        ''Repeatable label (key=value) included verbatim in the JSON summary and the human header'']\<close>

definition dns_flags :: "Query \<Rightarrow> flag list" where
  \<open>dns_flags d =
     [mk_flag ''dns-server-addr'' ''d'' (FString (qu_ServerAddress d))
        ''DNS server address with port, e.g., 127.0.0.1:53, [::1]:53'',
      mk_flag ''type'' ''t'' (FVar (QueryType_String (qu_QueryType d)))
        ''Query type, e.g., mx, cname'']\<close>

definition echo_flags :: "enumflag \<Rightarrow> 'x EchoServer \<Rightarrow> JWTConfig \<Rightarrow> flag list" where
  \<open>echo_flags enumflag_New s jwtConf =
     [mk_flag ''host'' ''H'' (FString (sv_ListenHost s))
        ''Host to listen on'',
      mk_flag ''port'' ''p'' (FInt (sv_ListenPort s))
        ''Server port to listen on'',
      mk_flag ''tls-autogenerate'' [] (FBool (sv_TLSAutogen s))
        ''Automatically generate TLS key and cert'',
      mk_flag ''tls-key-file'' [] (FString (sv_TLSKeyPath s))
        ''Path to TLS key'',
      mk_flag ''tls-cert-file'' [] (FString (sv_TLSCertPath s))
        ''Path to TLS cert'',
      mk_flag ''jwt-header-name'' [] (FString (jw_HeaderName jwtConf))
        ''JWT header name'',
      mk_flag ''jwt-jwks-url'' [] (FString (jw_JWKSURL jwtConf))
        ''JWT JWKS URL'',
      mk_flag ''jwt-issuer-url'' [] (FString (jw_IssuerURL jwtConf))
        ''JWT issuer URL'',
      mk_flag ''jwt-audience'' [] (FString (jw_Audience jwtConf))
        ''JWT audience'',
      mk_flag ''jwt-signing-algorithms'' [] (FStrings (jw_SigningAlgorithms jwtConf))
        ''JWT supported signing algorithms'',
      mk_flag ''mode'' [] (FVar (fv_String (ServerModeVar enumflag_New ''mode'') (sv_Mode s)))
        ''Server mode: http, grpc, grpc+http'']\<close>

definition listen_flags :: "ListenServer \<Rightarrow> flag list" where
  \<open>listen_flags l =
     [mk_flag ''host'' ''H'' (FString (ln_Host l))
        ''Host to listen on'',
      mk_flag ''network'' ''n'' (FString (ln_Network l))
        ''Network to listen on, one of: tcp, tcp4, tcp6, unix, or unixpacket'',
      mk_flag ''port'' ''p'' (FInt (ln_Port l))
        ''Port number to listen on (0 = first available)'']\<close>

definition send_flags :: "SendClient \<Rightarrow> flag list" where
  \<open>send_flags s =
     [mk_flag ''network'' ''n'' (FString (sd_Network s))
        ''Network to send on, one of: tcp, tcp4, tcp6, unix, or unixpacket'',
      mk_flag ''address'' ''a'' (FString (sd_Address s))
        ''Address to send to'']\<close>

text \<open>
  A command with its help, the number of arguments it insists on and its flags. \<open>version\<close> is another package's.
\<close>

record command =
  cm_Use :: string
  cm_Short :: string
  cm_Long :: string
  cm_Example :: string
  cm_ExactArgs :: "nat option"
  cm_flags :: "flag list"

definition bench_long :: string where
  \<open>bench_long = join [CHR 0x0A]
     [''Drive load against a gRPC echo server with configurable payload shape,'',
      ''compression, and connection model.'',
      '''',
      ''Conn-model semantics differ depending on whether a service mesh is in the'',
      ''path. Without a mesh, kube-proxy load-balances per connection (L4), so'',
      ''"shared" pins every worker to one backend while "per-worker" gives N'',
      ''connections through the LB. With a mesh, the sidecar load-balances per'',
      ''request (L7), so "shared" still spreads work across backends. "per-request"'',
      ''forces a fresh TCP+TLS+HTTP/2 handshake on every call regardless of mesh,'',
      ''which is the way to surface connection-establishment cost.'',
      '''',
      ''Interpreting the output. The summary breaks total RPC time into "server"'',
      ''(from the EchoResponse.server_duration_ns field set by the handler) and'',
      ''"network" (total - server, which is wire time plus any proxy or mesh hops).'',
      ''"upstream" appears only when the response carries the'',
      ''x-envoy-upstream-service-time header that Envoy sets when an Istio sidecar'',
      ''fronts the backend; it covers the server-side proxy plus handler, so'',
      ''"network - upstream" isolates the client-proxy plus on-wire portion.'',
      '''',
      ''Backends are grouped by kubernetes.pod_name from the response, falling'',
      ''back to hostname and then the resolved peer address; the per-row "source"'',
      ''identifies which step in the chain produced the key. Backend skew is the'',
      ''ratio of max to min across backends, reported separately for request'',
      ''count and p99 latency; a large ratio is a single-replica problem, such as'',
      ''an overloaded pod, slow disk, or stuck retry loop. "Errors by code"'',
      ''buckets failures by gRPC status code and surfaces the top distinct'',
      ''messages per bucket.'',
      '''',
      ''Service mesh notes. Under Envoy/Istio, the upstream block is present and'',
      ''gives a direct read on server-side proxy plus handler time.'',
      ''Linkerd2-proxy does not emit an equivalent response-side timing header,'',
      ''so the upstream block reads "n/a" under linkerd even when a sidecar is in'',
      ''the path; the decomposition stops at total - server = client_proxy +'',
      ''network + server_proxy with no in-band split between those three.'',
      ''linkerd2-proxy's latency signal lives on the proxy's :4191/metrics'',
      ''Prometheus endpoint, which bench does not scrape.'']\<close>

definition newBenchCommand :: "'o Config \<Rightarrow> command" where
  "newBenchCommand b =
     \<lparr>cm_Use = ''bench'', cm_Short = ''Benchmark a gRPC echo server'', cm_Long = bench_long,
      cm_Example = ''netdebug bench --target=127.0.0.1:8080 --payload=embedding-float'' @
        '' --embedding-dim=1024 --concurrency=4 --duration=10s'',
      cm_ExactArgs = None, cm_flags = bench_flags b\<rparr>"

definition newDNSCommand :: "Query \<Rightarrow> command" where
  "newDNSCommand d =
     \<lparr>cm_Use = ''dns'', cm_Short = ''Perform DNS query'', cm_Long = [], cm_Example = ''netdebug dns -t mx r8y.org'',
      cm_ExactArgs = Some 1, cm_flags = dns_flags d\<rparr>"

definition newEchoCommand :: "enumflag \<Rightarrow> 'x EchoServer \<Rightarrow> command" where
  "newEchoCommand enumflag_New s =
     \<lparr>cm_Use = ''echo'', cm_Short = ''HTTP echo server'', cm_Long = [], cm_Example = ''netdebug echo -v=3'',
      cm_ExactArgs = None,
      cm_flags = echo_flags enumflag_New s
        \<lparr>jw_HeaderName = [], jw_JWKSURL = [], jw_IssuerURL = [], jw_Audience = [], jw_SigningAlgorithms = []\<rparr>\<rparr>"

definition newListenCommand :: "ListenServer \<Rightarrow> command" where
  "newListenCommand l =
     \<lparr>cm_Use = ''listen'', cm_Short = ''Listen for connection'', cm_Long = [], cm_Example = ''netdebug listen -p 15921'',
      cm_ExactArgs = None, cm_flags = listen_flags l\<rparr>"

definition newSendCommand :: "SendClient \<Rightarrow> command" where
  "newSendCommand s =
     \<lparr>cm_Use = ''send'', cm_Short = ''Send packet'', cm_Long = [], cm_Example = ''date | netdebug send -a 192.168.11.1:15921'',
      cm_ExactArgs = None, cm_flags = send_flags s\<rparr>"

text \<open>
  The root, with usage and errors silenced: cobra prints neither when a command fails. The persistent flags are those
  of klog, so every command gets them too, and cobra adds \<open>help\<close>.
\<close>

record root_command =
  rc_Use :: string
  rc_Short :: string
  rc_SilenceUsage :: bool
  rc_SilenceErrors :: bool
  rc_commands :: "command list"
  rc_persistent :: "flag list"

definition root_commands :: "host \<Rightarrow> string \<Rightarrow> enumflag \<Rightarrow> command list" where
  "root_commands h dnsServer enumflag_New =
     [newBenchCommand (New :: nat Config), newDNSCommand (New_query dnsServer),
      newEchoCommand enumflag_New (NewServer h :: unit EchoServer), newListenCommand New_listen,
      newSendCommand New_send]"

definition NewRootCommand :: "host \<Rightarrow> string \<Rightarrow> enumflag \<Rightarrow> command \<Rightarrow> root_command" where
  "NewRootCommand h dnsServer enumflag_New version =
     \<lparr>rc_Use = ''netdebug'', rc_Short = ''A collection of network debugging tools'', rc_SilenceUsage = True,
      rc_SilenceErrors = True, rc_commands = root_commands h dnsServer enumflag_New @ [version],
      rc_persistent = []\<rparr>"

definition New_app :: "host \<Rightarrow> string \<Rightarrow> enumflag \<Rightarrow> command \<Rightarrow> flag list \<Rightarrow> root_command" where
  "New_app h dnsServer enumflag_New version klog_flags =
     (NewRootCommand h dnsServer enumflag_New version)\<lparr>rc_persistent := klog_flags\<rparr>"

text \<open>The condition under which pflag accepts a set of flags.\<close>

definition flags_ok :: "flag list \<Rightarrow> bool" where
  "flags_ok fs \<longleftrightarrow> distinct (map fl_name fs) \<and> distinct (filter (\<lambda>s. s \<noteq> []) (map fl_short fs)) \<and>
     list_all (\<lambda>f. length (fl_short f) \<le> 1) fs"

definition help_flag :: flag where
  "help_flag = mk_flag ''help'' ''h'' (FBool False) ''help for the command''"

section \<open>Commands\<close>

datatype 'x dns_error = WrongArgs nat | EmptyName | QueryFailed 'x

definition query_name :: "string \<Rightarrow> string" where
  "query_name arg = (if \<not> prefix ''.'' arg then arg @ ''.'' else arg)"

definition dns_command ::
  "(dns_Msg \<Rightarrow> string \<Rightarrow> 'x + string \<times> string) \<Rightarrow> nat \<Rightarrow> Query \<Rightarrow> string list \<Rightarrow> 'x dns_error option \<times> string" where
  "dns_command exchange mid d args =
     (if length args \<noteq> 1 then (Some (WrongArgs (length args)), [])
      else if args ! 0 = [] then (Some EmptyName, [])
      else (case Query_Run exchange mid (d\<lparr>qu_QueryName := query_name (args ! 0)\<rparr>) of
              (err, out) \<Rightarrow> (map_option QueryFailed err, out)))"

datatype 'x echo_return = JWTMisconfigured jwt_error | ServerReturned "'x server_return"

definition echo_command ::
  "oidc \<Rightarrow> 'x crypto \<Rightarrow> 'x tls_env \<Rightarrow> 'x EchoServer \<Rightarrow> JWTConfig \<Rightarrow> fs \<Rightarrow>
   'x echo_return \<times> ('x EchoServer \<times> fs) option" where
  "echo_command newVerifier cy env s jwtConf fs =
     (if jw_HeaderName jwtConf \<noteq> [] then
        (case JWT newVerifier jwtConf of
           Inl err \<Rightarrow> (JWTMisconfigured err, None)
         | Inr ext \<Rightarrow>
             (case Server_Run cy env (InstallExtension s ext) fs of (ret, served, _) \<Rightarrow> (ServerReturned ret, served)))
      else (case Server_Run cy env s fs of (ret, served, _) \<Rightarrow> (ServerReturned ret, served)))"

text \<open>\<open>runAdapter\<close> hands the command's context to a run function and ignores the arguments.\<close>

definition runAdapter :: "('c \<Rightarrow> 'r) \<Rightarrow> 'c \<Rightarrow> string list \<Rightarrow> 'r" where
  "runAdapter f ctx args = f ctx"

section \<open>main\<close>

text \<open>
  How the command can end: it returns, with an error or none, it panics on the goroutine of \<open>main\<close>, or another
  goroutine panics. A signal that kills the process is not an end of the program's own.
\<close>

datatype 'x ending = Returns "'x option" | PanicsInMain | PanicsInGoroutine

datatype 'x main_event = Executed | Flushed | PrintedError 'x | PanicTrace | Exited nat

text \<open>
  \<open>run\<close> executes the command and flushes the log on the way out: after a return, and as a deferred call while
  the goroutine of \<open>main\<close> unwinds, but not when another goroutine ends the process. \<open>main\<close> exits with 1 on an
  error; after a panic the runtime prints its trace and exits with 2.
\<close>

fun run_events :: "'x ending \<Rightarrow> 'x main_event list" where
  "run_events (Returns err) = [Executed, Flushed]"
| "run_events PanicsInMain = [Flushed]"
| "run_events PanicsInGoroutine = []"

definition main_events :: "'x ending \<Rightarrow> 'x main_event list" where
  "main_events e =
     run_events e @
     (case e of
        Returns None \<Rightarrow> []
      | Returns (Some err) \<Rightarrow> [PrintedError err, Exited 1]
      | _ \<Rightarrow> [PanicTrace, Exited 2])"

text \<open>The status of the process: that of the exit, or 0 when \<open>main\<close> returns.\<close>

fun status_of :: "'x main_event list \<Rightarrow> nat" where
  "status_of [] = 0"
| "status_of (Exited n # evs) = n"
| "status_of (e # evs) = status_of evs"

section \<open>Lemmas\<close>

lemma flags_ok_append:
  "flags_ok (xs @ ys) \<longleftrightarrow> flags_ok xs \<and> flags_ok ys \<and> set (map fl_name xs) \<inter> set (map fl_name ys) = {} \<and>
    set (filter (\<lambda>s. s \<noteq> []) (map fl_short xs)) \<inter> set (filter (\<lambda>s. s \<noteq> []) (map fl_short ys)) = {}"
  unfolding flags_ok_def by auto

lemmas flag_defs = bench_flags_def dns_flags_def echo_flags_def listen_flags_def send_flags_def mk_flag_def
  help_flag_def

lemmas command_defs = newBenchCommand_def newDNSCommand_def newEchoCommand_def newListenCommand_def newSendCommand_def

definition example_jwt :: JWTConfig where
  "example_jwt = \<lparr>jw_HeaderName = ''authorization'', jw_JWKSURL = ''https://idp/keys'', jw_IssuerURL = [],
     jw_Audience = ''netdebug'', jw_SigningAlgorithms = []\<rparr>"

section \<open>Properties\<close>

text \<open>
  Building the command line never panics: in every command its own flags and \<open>help\<close> have different names
  and shorthands, and so do they with persistent flags that only use the shorthand \<open>v\<close> and other names.
\<close>

theorem flags_never_clash:
  assumes "netdebug = New_app h dnsServer enumflag_New version persistent"
    and "flags_ok persistent" "\<forall>f\<in>set persistent. fl_short f \<in> {[], ''v''}"
    and "\<forall>cm\<in>set (rc_commands netdebug). \<forall>f\<in>set persistent. fl_name f \<notin> fl_name ` set (help_flag # cm_flags cm)"
    and "cm \<in> set (rc_commands netdebug)" "cm \<noteq> version"
  shows "flags_ok (rc_persistent netdebug @ help_flag # cm_flags cm)"
proof -
  have cm: "cm \<in> set (root_commands h dnsServer enumflag_New)" "rc_persistent netdebug = persistent"
    using assms(1,5,6) by (auto simp: New_app_def NewRootCommand_def)
  have "\<forall>cm\<in>set (root_commands h dnsServer enumflag_New).
      flags_ok (help_flag # cm_flags cm) \<and> list_all (\<lambda>f. fl_short f \<noteq> ''v'') (help_flag # cm_flags cm)"
    by (simp add: root_commands_def command_defs flags_ok_def flag_defs)
  then have own: "flags_ok (help_flag # cm_flags cm)" "\<forall>f\<in>set (help_flag # cm_flags cm). fl_short f \<noteq> ''v''"
    using cm(1) by (auto simp: list_all_iff)
  have names: "set (map fl_name persistent) \<inter> set (map fl_name (help_flag # cm_flags cm)) = {}"
    using bspec [OF assms(4,5)] by auto
  have "s = ''v''" if "s \<in> set (filter (\<lambda>s. s \<noteq> []) (map fl_short persistent))" for s
    using assms(3) that by auto
  moreover have "s \<noteq> ''v''" if "s \<in> set (filter (\<lambda>s. s \<noteq> []) (map fl_short (help_flag # cm_flags cm)))" for s
    using own(2) that by (metis (no_types, lifting) filter_is_subset imageE list.set_map subsetD)
  ultimately have "set (filter (\<lambda>s. s \<noteq> []) (map fl_short persistent)) \<inter>
      set (filter (\<lambda>s. s \<noteq> []) (map fl_short (help_flag # cm_flags cm))) = {}"
    by blast
  with names show ?thesis unfolding flags_ok_append cm(2) using assms(2) own(1) by blast
qed

theorem flags_never_clash_witness:
  "flags_ok ([mk_flag ''v'' ''v'' (FInt 0) []] @ help_flag # cm_flags (newListenCommand New_listen))"
proof -
  let ?version = "\<lparr>cm_Use = ''version'', cm_Short = [], cm_Long = [], cm_Example = [], cm_ExactArgs = None, cm_flags = []\<rparr>"
  let ?root = "New_app example_host ''127.0.0.1:53'' example_enumflag ?version [mk_flag ''v'' ''v'' (FInt 0) []]"
  have "rc_commands ?root = root_commands example_host ''127.0.0.1:53'' example_enumflag @ [?version]"
    "rc_persistent ?root = [mk_flag ''v'' ''v'' (FInt 0) []]"
    by (simp_all add: New_app_def NewRootCommand_def)
  then show ?thesis
    using flags_never_clash [OF refl, of "[mk_flag ''v'' ''v'' (FInt 0) []]" example_host "''127.0.0.1:53''"
        example_enumflag ?version "newListenCommand New_listen"]
    by (simp add: root_commands_def command_defs flags_ok_def flag_defs)
qed

text \<open>
  C39: The name \<open>dns\<close> asks for. The command sends one question for its argument; it appends the final dot
  unless the argument starts with one. So a relative name is asked for as its absolute form, but a name
  that is already absolute gets a second dot, and a name with a leading dot gets none.
\<close>

theorem dns_command_question:
  assumes "arg \<noteq> []" "QueryType_Set table e v = (None, qu_QueryType d)"
  shows "dns_command exchange mid d [arg] =
    (case exchange
        \<lparr>dm_Id = mid, dm_RecursionDesired = qu_Recurse d,
         dm_Question = [\<lparr>dq_Name = query_name arg, dq_Qtype = DNSType (qu_QueryType d),
           dq_Qclass = DNSClass (qu_QueryClass d)\<rparr>]\<rparr> (qu_ServerAddress d) of
       Inl e \<Rightarrow> (Some (QueryFailed e), [])
     | Inr (reply, rtt) \<Rightarrow> (None, reply @ [CHR 0x0A] @ '';; rtt: '' @ rtt @ [CHR 0x0A])) \<and>
    qu_QueryType d = ToUpper table v \<and> qu_QueryType d \<in> {''A'', ''CNAME'', ''MX'', ''NS'', ''SRV'', ''TXT''} \<and>
    0 < DNSType (qu_QueryType d) \<and>
    (hd arg \<noteq> CHR ''.'' \<longrightarrow> query_name arg = arg @ ''.'') \<and>
    (hd arg \<noteq> CHR ''.'' \<and> last arg = CHR ''.'' \<longrightarrow> suffix ''..'' (query_name arg)) \<and>
    (hd arg = CHR ''.'' \<longrightarrow> query_name arg = arg)"
proof -
  have type: "QueryTypeMap (qu_QueryType d) \<noteq> None" "qu_QueryType d = ToUpper table v"
    using assms(2) by (auto simp: QueryType_Set_def Let_def split: if_splits)
  have pre: "prefix ''.'' arg \<longleftrightarrow> hd arg = CHR ''.''" using assms(1) by (cases arg) auto
  have "suffix ''..'' (arg @ ''.'')" if "last arg = CHR ''.''"
  proof -
    have "arg @ ''.'' = butlast arg @ ''..''"
      using append_butlast_last_id [OF assms(1)] that by (metis append.assoc append_Cons append_Nil)
    then show ?thesis by (metis suffixI)
  qed
  then show ?thesis
    using assms(1) pre DNSType_pos [OF type(1)] type(2) type(1) [unfolded QueryTypeMap_dom]
    by (simp add: dns_command_def query_name_def query_message_def Query_Run_def split: sum.split)
qed

theorem dns_command_question_witness:
  "suffix ''..'' (query_name ''github.com.'')"
proof -
  have "''github.com.'' \<noteq> []" "QueryType_Set (\<lambda>r. r) ''A'' ''mX'' = (None, qu_QueryType ((New_query ''127.0.0.1:53'')\<lparr>qu_QueryType := ''MX''\<rparr>))"
    by (simp, code_simp)
  from dns_command_question [OF this, of "\<lambda>_ _. Inl ()" 0]
  have "hd ''github.com.'' \<noteq> CHR ''.'' \<and> last ''github.com.'' = CHR ''.'' \<longrightarrow> suffix ''..'' (query_name ''github.com.'')"
    by (elim conjE)
  then show ?thesis by (rule mp) simp
qed

text \<open>
  C40: The addresses the two servers listen on, read back as \<open>net.Listen\<close> reads them: a host without colons and
  brackets and the port come out as configured, for both servers; a host with a colon and no bracket, such as
  an IPv6 address, is refused.
\<close>

theorem listen_addresses:
  assumes "host = sv_ListenHost s \<and> addr = server_addr s \<and> port = sv_ListenPort s \<or>
    host = ln_Host l \<and> addr = listen_addr l \<and> port = ln_Port l"
  shows "(set host \<inter> {CHR '':'', CHR ''['', CHR '']''} = {} \<longrightarrow> SplitHostPort addr = Inr (host, show_int port)) \<and>
    (CHR '':'' \<in> set host \<and> hd host \<noteq> CHR ''['' \<longrightarrow> SplitHostPort addr = Inl TooManyColons) \<and>
    (\<forall>ip. host = CHR ''['' # ip @ '']'' \<and> set ip \<inter> {CHR ''['', CHR '']''} = {} \<longrightarrow> SplitHostPort addr = Inr (ip, show_int port))"
proof -
  have "addr = host_port host port"
    using assms by (auto simp: host_port_def server_addr_def listen_addr_def)
  then show ?thesis
    using SplitHostPort_host_port [of host port] SplitHostPort_colons [of host port] SplitHostPort_bracketed [of _ port]
    by blast
qed

theorem listen_addresses_witness:
  "SplitHostPort (server_addr (NewServer example_host :: unit EchoServer)) = Inr ([], ''8080'') \<and>
   SplitHostPort (listen_addr (New_listen\<lparr>ln_Host := ''::1''\<rparr>)) = Inl TooManyColons"
proof -
  have "show_int 8080 = ''8080''"
    by (simp add: show_int_def show_nat.simps digit_def char_of_eq_iff)
  then show ?thesis
    using listen_addresses [of "[]" "NewServer example_host :: unit EchoServer" _ 8080 New_listen]
      listen_addresses [of "''::1''" "NewServer example_host :: unit EchoServer" _ 0 "New_listen\<lparr>ln_Host := ''::1''\<rparr>"]
    by (simp add: NewServer_def New_listen_def Let_def)
qed

text \<open>
  C38: The echo command with a JWT header. It refuses to start when the key set or the audience is missing; and
  when it serves, every request with a token in that header is echoed with exactly one more extension result, named
  after the header. For a token that verifies it holds the seven claims, each under its own key, and nothing else;
  for one that does not, only the error of the verifier.
\<close>

theorem echo_command_reports_token:
  fixes fs fs1 :: fs
  assumes "echo_command newVerifier cy env s jwtConf fs = (ret, served)" "jw_HeaderName jwtConf \<noteq> []"
    and "crypto_ok cy" "te_RemoveAll env = None" "\<forall>d. te_MkdirTemp env = Inr d \<longrightarrow> fresh_dir d fs"
  shows "(jw_JWKSURL jwtConf = [] \<or> jw_Audience jwtConf = [] \<longrightarrow> ret = JWTMisconfigured ErrMisconfigured \<and> served = None) \<and>
    (\<forall>s1 fs1 r. served = Some (s1, fs1) \<longrightarrow> Header_Get (hr_Header r) (jw_HeaderName jwtConf) \<noteq> [] \<longrightarrow>
      (\<exists>info. re_Extensions (getResultFromRequest p s1 r) = GetResult (sv_Extensions s) r @
          [\<lparr>er_Name = ''jwt:'' @ jw_HeaderName jwtConf, er_Info = Some info\<rparr>] \<and>
        distinct (map fst info) \<and>
        map_of info =
          (case newVerifier (jw_IssuerURL jwtConf) (jw_JWKSURL jwtConf) (jw_Audience jwtConf)
               (jw_SigningAlgorithms jwtConf) (Header_Get (hr_Header r) (jw_HeaderName jwtConf)) of
             Inl err \<Rightarrow> [''error'' \<mapsto> [err]]
           | Inr t \<Rightarrow> [''subject'' \<mapsto> [it_Subject t], ''issuer'' \<mapsto> [it_Issuer t], ''audience'' \<mapsto> it_Audience t,
               ''issued_at'' \<mapsto> [it_IssuedAt t], ''expires_at'' \<mapsto> [it_Expiry t], ''nonce'' \<mapsto> [it_Nonce t],
               ''access_token_hash'' \<mapsto> [it_AccessTokenHash t]])))"
proof -
  have exts: "sv_Extensions s1 = sv_Extensions t" if "Server_Run cy env t fs = (rt, Some (s1, fs1), x)" for t rt s1 fs1 x
  proof (cases "sv_TLSAutogen t")
    case True
    obtain res s2 fs2 where su: "setupTLSAutogen cy env t fs = (res, s2, fs2)" by (cases "setupTLSAutogen cy env t fs")
    from assms(3-5) su show ?thesis
      by (cases rule: setup_cases) (use that True su in \<open>auto simp: Server_Run_def split: option.splits\<close>)
  next
    case False
    then show ?thesis using that by (auto simp: Server_Run_def split: option.splits)
  qed
  have snoc: "GetResult (es @ [fn]) r = GetResult es r @ (case fn r of Inl err \<Rightarrow> [] | Inr res \<Rightarrow> res)"
    for es and fn :: "'x ExtensionFunc" and r by (simp add: GetResult_concat)
  have "re_Extensions (getResultFromRequest p s1 r) = GetResult (sv_Extensions s) r @
      [\<lparr>er_Name = ''jwt:'' @ jw_HeaderName jwtConf,
        er_Info = Some (jwt_info (newVerifier (jw_IssuerURL jwtConf) (jw_JWKSURL jwtConf) (jw_Audience jwtConf)
          (jw_SigningAlgorithms jwtConf) (Header_Get (hr_Header r) (jw_HeaderName jwtConf))))\<rparr>]"
    if "served = Some (s1, fs1)" "Header_Get (hr_Header r) (jw_HeaderName jwtConf) \<noteq> []" for s1 fs1 r
    using assms(1,2) that
    by (auto simp: echo_command_def JWT_def InstallExtension_def getResultFromRequest_def snoc jwt_extension_def
        Let_def split: prod.splits if_splits dest!: exts)
  moreover have "jw_JWKSURL jwtConf = [] \<or> jw_Audience jwtConf = [] \<longrightarrow>
      ret = JWTMisconfigured ErrMisconfigured \<and> served = None"
    using assms(1,2) by (auto simp: echo_command_def JWT_def split: prod.splits if_splits)
  ultimately show ?thesis using distinct_jwt_info jwt_info_claims by (intro conjI allI impI exI) auto
qed

text \<open>A verifier that knows one token, and a server that needs no certificate.\<close>

definition example_token :: IDToken where
  "example_token = \<lparr>it_Subject = ''alice'', it_Issuer = ''https://idp'', it_Audience = [''netdebug''],
     it_IssuedAt = ''2024-01-01T00:00:00Z'', it_Expiry = ''2024-01-02T00:00:00Z'', it_Nonce = ''n'',
     it_AccessTokenHash = ''h''\<rparr>"

definition example_oidc :: oidc where
  "example_oidc = (\<lambda>_ _ _ _ token. if token = ''t1'' then Inr example_token else Inl ''expired'')"

definition token_request :: "string \<Rightarrow> http_request" where
  "token_request token = (example_request ''/'' ''text/plain'')\<lparr>hr_Header := Some [(''Authorization'', [token])]\<rparr>"

lemma token_request_header: "Header_Get (hr_Header (token_request token)) ''authorization'' = token"
proof -
  have "CanonicalMIMEHeaderKey ''authorization'' = ''Authorization''" by code_simp
  then show ?thesis by (simp add: token_request_def Header_Get_def index_def)
qed

lemma plain_server_starts:
  "\<exists>s1 fs1. echo_command newVerifier cy env (NewServer example_host :: unit EchoServer) example_jwt fs =
     (ServerReturned NilReturn, Some (s1, fs1))"
  by (simp add: echo_command_def JWT_def example_jwt_def Server_Run_def NewServer_def InstallExtension_def
      validateTLSFlags_def Let_def)

theorem echo_command_reports_token_witness:
  "\<forall>p. \<exists>s1 fs1 good bad. echo_command example_oidc example_crypto example_tls_env (NewServer example_host :: unit EchoServer)
      example_jwt example_fs = (ServerReturned NilReturn, Some (s1, fs1)) \<and>
    re_Extensions (getResultFromRequest p s1 (token_request ''t1'')) =
      [\<lparr>er_Name = ''jwt:authorization'', er_Info = Some good\<rparr>] \<and>
    map_of good ''subject'' = Some [''alice''] \<and> map_of good ''issuer'' = Some [''https://idp''] \<and>
    map_of good ''error'' = None \<and>
    re_Extensions (getResultFromRequest p s1 (token_request ''t2'')) =
      [\<lparr>er_Name = ''jwt:authorization'', er_Info = Some bad\<rparr>] \<and> map_of bad = [''error'' \<mapsto> [''expired'']]"
proof
  fix p
  obtain s1 fs1 where r: "echo_command example_oidc example_crypto example_tls_env (NewServer example_host :: unit EchoServer)
      example_jwt example_fs = (ServerReturned NilReturn, Some (s1, fs1))"
    using plain_server_starts by blast
  have h: "jw_HeaderName example_jwt = ''authorization''" "te_RemoveAll example_tls_env = None"
    by (simp_all add: example_jwt_def example_tls_env_def)
  have e: "sv_Extensions (NewServer example_host :: unit EchoServer) = []" by (simp add: NewServer_def Let_def)
  have "jw_HeaderName example_jwt \<noteq> []" by (simp add: h)
  note c = echo_command_reports_token [OF r this example_crypto_ok h(2) example_fresh, THEN conjunct2, rule_format, OF refl]
  have claims: "\<exists>info. re_Extensions (getResultFromRequest p s1 (token_request token)) =
        [\<lparr>er_Name = ''jwt:authorization'', er_Info = Some info\<rparr>] \<and>
      map_of info = (case example_oidc [] ''https://idp/keys'' ''netdebug'' [] token of
         Inl err \<Rightarrow> [''error'' \<mapsto> [err]]
       | Inr t \<Rightarrow> [''subject'' \<mapsto> [it_Subject t], ''issuer'' \<mapsto> [it_Issuer t], ''audience'' \<mapsto> it_Audience t,
           ''issued_at'' \<mapsto> [it_IssuedAt t], ''expires_at'' \<mapsto> [it_Expiry t], ''nonce'' \<mapsto> [it_Nonce t],
           ''access_token_hash'' \<mapsto> [it_AccessTokenHash t]])" if "token \<noteq> []" for token
  proof -
    have "jw_IssuerURL example_jwt = []" "jw_JWKSURL example_jwt = ''https://idp/keys''"
      "jw_Audience example_jwt = ''netdebug''" "jw_SigningAlgorithms example_jwt = []"
      by (simp_all add: example_jwt_def)
    note c' = c [of "token_request token" p, unfolded h(1) this e token_request_header GetResult.simps(1) append_Nil]
    from c' [OF that] show ?thesis by fastforce
  qed
  show "\<exists>s1 fs1 good bad. echo_command example_oidc example_crypto example_tls_env (NewServer example_host :: unit EchoServer)
      example_jwt example_fs = (ServerReturned NilReturn, Some (s1, fs1)) \<and>
    re_Extensions (getResultFromRequest p s1 (token_request ''t1'')) =
      [\<lparr>er_Name = ''jwt:authorization'', er_Info = Some good\<rparr>] \<and>
    map_of good ''subject'' = Some [''alice''] \<and> map_of good ''issuer'' = Some [''https://idp''] \<and>
    map_of good ''error'' = None \<and>
    re_Extensions (getResultFromRequest p s1 (token_request ''t2'')) =
      [\<lparr>er_Name = ''jwt:authorization'', er_Info = Some bad\<rparr>] \<and> map_of bad = [''error'' \<mapsto> [''expired'']]"
    using r claims [of "''t1''"] claims [of "''t2''"] by (auto simp: example_oidc_def example_token_def)
qed

end
