(* ===== verification/Program.thy ===== *)
theory Program
  imports App
begin

text \<open>
  The program as a whole: one invocation of \<open>netdebug\<close>, from the command that cobra has chosen, with its flags and
  arguments already read, to the exit of \<open>main\<close>. A command that waits for the world can finish in many ways, so
  finishing is a relation: returning with or without an error and panicking are ways to finish, a run without end
  and a signal that kills the process are not.
\<close>

section \<open>An invocation\<close>

text \<open>\<open>Misused\<close> is a command line that cobra or pflag refuses, with the text of its error.\<close>

datatype ('o, 'x) invocation =
    RunBench "'o Config"
  | RunDns Query "string list"
  | RunEcho "'x EchoServer" JWTConfig
  | RunListen ListenServer
  | RunSend SendClient
  | Misused string

datatype ('e, 'x) command_error =
    BenchFailed "'e run_error"
  | ReportNotWritten 'x
  | DnsFailed "'x dns_error"
  | EchoFailed "'x echo_return"
  | ListenFailed 'x
  | SendNotDone "'x send_error"
  | UsageError string

datatype printout = ReportOutput writer report | TextOutput string

text \<open>Everything outside the program that one of the commands asks. The process starts with nothing dialed or written.\<close>

record ('e, 'o, 'x) machine =
  mc_grpc :: "('e, 'o) grpc_lib"
  mc_env :: "'e run_env"
  mc_orders :: map_orders
  mc_labels :: "(string \<times> string) order"
  mc_printable :: "rune \<Rightarrow> bool"
  mc_write :: "writer \<Rightarrow> report \<Rightarrow> 'x option"
  mc_exchange :: "dns_Msg \<Rightarrow> string \<Rightarrow> 'x + string \<times> string"
  mc_dns_id :: nat
  mc_oidc :: oidc
  mc_crypto :: "'x crypto"
  mc_tls :: "'x tls_env"
  mc_fs :: fs
  mc_Listen :: "string \<Rightarrow> string \<Rightarrow> 'x option"
  mc_send :: "'x send_env"

definition listen_bound :: "'x listen_state" where
  "listen_bound = listen_start\<lparr>li_run := AtAccept, li_open := True, li_listener := True, li_closer := CloserWaiting\<rparr>"

text \<open>
  \<open>Execute\<close> runs a command under \<open>context.Background()\<close>, which nothing cancels, and only \<open>echo\<close> derives one that a
  signal cancels. So the listener of the program takes the steps of a listener whose context is not done.
\<close>

definition uncancelled_step :: "'x listen_state \<Rightarrow> 'x listen_state \<Rightarrow> bool" where
  "uncancelled_step st st' \<longleftrightarrow> listen_step st st' \<and> \<not> li_ctx_done st'"

text \<open>How a bench run that has ended ends the command.\<close>

fun bench_ending :: "('e, 'x) run_return \<Rightarrow> ('e, 'x) command_error ending option" where
  "bench_ending NilError = Some (Returns None)"
| "bench_ending (RunError e) = Some (Returns (Some (BenchFailed e)))"
| "bench_ending (WriteError x) = Some (Returns (Some (ReportNotWritten x)))"
| "bench_ending RunPanicked = Some PanicsInGoroutine"
| "bench_ending RunAborted = Some PanicsInMain"
| "bench_ending StillRunning = None"

inductive finishes ::
  "('e, 'o, 'x) machine \<Rightarrow> ('o, 'x) invocation \<Rightarrow> printout list \<Rightarrow> ('e, 'x) command_error ending \<Rightarrow> bool" for m where
  bench: "Config_Run (mc_grpc m) (mc_env m) (mc_orders m) (mc_labels m) (mc_printable m) (mc_write m) sched c
      world0 = (ret, w) \<Longrightarrow> bench_ending ret = Some e \<Longrightarrow>
    finishes m (RunBench c) (map (\<lambda>(wr, r). ReportOutput wr r) (rev (written w))) e"
| dns: "dns_command (mc_exchange m) (mc_dns_id m) q args = (err, out) \<Longrightarrow>
    finishes m (RunDns q args) [TextOutput out] (Returns (map_option DnsFailed err))"
| echo_refused: "echo_command (mc_oidc m) (mc_crypto m) (mc_tls m) s jwtConf (mc_fs m) = (ret, None) \<Longrightarrow>
    ret \<noteq> ServerReturned ServerPanic \<Longrightarrow> finishes m (RunEcho s jwtConf) [] (Returns (Some (EchoFailed ret)))"
| echo_panics: "echo_command (mc_oidc m) (mc_crypto m) (mc_tls m) s jwtConf (mc_fs m) = (ServerReturned ServerPanic, None) \<Longrightarrow>
    finishes m (RunEcho s jwtConf) [] PanicsInMain"
| echo_served: "echo_command (mc_oidc m) (mc_crypto m) (mc_tls m) s jwtConf (mc_fs m) =
      (ServerReturned NilReturn, Some (s1, fs1)) \<Longrightarrow>
    serve_step\<^sup>*\<^sup>* serve_start st \<Longrightarrow> serve_returned st \<Longrightarrow> finishes m (RunEcho s jwtConf) [] (Returns None)"
| listen_refused: "mc_Listen m (ln_Network l) (listen_addr l) = Some e \<Longrightarrow>
    finishes m (RunListen l) [] (Returns (Some (ListenFailed e)))"
| listen_served: "mc_Listen m (ln_Network l) (listen_addr l) = None \<Longrightarrow>
    uncancelled_step\<^sup>*\<^sup>* listen_bound st \<Longrightarrow> li_run st = RunReturned err \<Longrightarrow>
    finishes m (RunListen l) [] (Returns (map_option ListenFailed err))"
| send: "Send_Run (mc_send m) c = (err, evs) \<Longrightarrow> finishes m (RunSend c) [] (Returns (map_option SendNotDone err))"
| misused: "finishes m (Misused e) [] (Returns (Some (UsageError e)))"


inductive_cases finishes_bench: "finishes m (RunBench c) out err"
inductive_cases finishes_dns: "finishes m (RunDns q args) out err"
inductive_cases finishes_echo: "finishes m (RunEcho s jwtConf) out err"
inductive_cases finishes_listen: "finishes m (RunListen l) out err"
inductive_cases finishes_send: "finishes m (RunSend c) out err"
inductive_cases finishes_misused: "finishes m (Misused e) out err"

section \<open>What decides the exit of each command\<close>



text \<open>How \<open>Server_Run\<close> gets to \<open>serve\<close>.\<close>

definition server_starts :: "('e, 'o, 'x) machine \<Rightarrow> 'x EchoServer \<Rightarrow> bool" where
  "server_starts m s \<longleftrightarrow> validateTLSFlags s = None \<and>
     (sv_TLSAutogen s \<longrightarrow> (\<exists>d. fst (setupTLSAutogen (mc_crypto m) (mc_tls m) s (mc_fs m)) = Ok d))"


lemma setup_without_extensions:
  "fst (setupTLSAutogen cy env (InstallExtension s ext) fs) = fst (setupTLSAutogen cy env s fs)"
  by (simp add: setupTLSAutogen_def InstallExtension_def Let_def split: sum.split checked.split prod.split option.split)

lemma server_starts_extension [simp]: "server_starts m (InstallExtension s ext) = server_starts m s"
  by (simp add: server_starts_def setup_without_extensions) (simp add: InstallExtension_def validateTLSFlags_def)







section \<open>Properties\<close>











end
