(* ===== verification/Spec2Isabelle.thy ===== *)
theory Spec2Isabelle
  imports Program
begin

text \<open>
  A verification development for \<open>netdebug\<close> (\<open>src/pkg\<close>, \<open>src/cmd/netdebug\<close>), a command line tool with five
  commands: \<open>bench\<close> measures an echo server over gRPC, \<open>echo\<close> is that server (HTTP, gRPC or both), \<open>listen\<close>
  and \<open>send\<close> are the two ends of a raw stream, \<open>dns\<close> asks one question.

  \<^bold>\<open>The program and the theories.\<close>

  \<^item> Bench, from the flags to the report. \<open>Config\<close> holds the configuration, \<open>Validate\<close> and the metadata
    of a call (\<open>bench/config.go\<close>). \<open>Payload\<close> is the grammar of the payload mix, the weighted selector and the
    request builder (\<open>payload.go\<close>). \<open>Conn\<close> has the connection pools and their sources (\<open>conn.go\<close>),
    \<open>Compression\<close> the byte counters that gRPC fills for every call (\<open>compression.go\<close>), \<open>Worker\<close> the loop of
    one worker as a step function over a program counter (\<open>worker.go\<close>). \<open>Run\<close> is \<open>Config.run\<close>: it opens the pool,
    interleaves the workers, closes the pool and aggregates. \<open>Summary\<close> holds the records of a result and of a
    summary (\<open>result.go\<close>, \<open>summary.go\<close>); \<open>Latency\<close>, \<open>Backends\<close>, \<open>Errors\<close> and \<open>Aggregator\<close> compute the summary
    (\<open>aggregator.go\<close>). \<open>Report\<close> and \<open>Report_Json\<close> print it (\<open>report.go\<close>, \<open>report_json.go\<close>), and \<open>Config_Run\<close> in
    \<open>Report\<close> is the whole command.
  \<^item> Echo. \<open>Echo_Result\<close> collects what is echoed from a request and from the process and carries it in a context
    (\<open>echo/result\<close>); \<open>Echopb\<close> has the messages and \<open>Echo_Grpc\<close> the stubs (\<open>echo/v1/echo.pb.go\<close>,
    \<open>echo_grpc.pb.go\<close>); \<open>Echo_Service\<close> answers a call from that context (\<open>echo/v1/server.go\<close>); \<open>Cert_Authority\<close>
    generates certificates (\<open>cert_ca.go\<close>); \<open>Jwt\<close> is the token extension (\<open>extensions/jwt.go\<close>); \<open>Echo_Server\<close>
    has the mode flag, the TLS flags with the files of a generated certificate, the mux with its patterns and handlers,
    the HTTP server and the two goroutines of \<open>serve\<close> with the connections they wait for (\<open>echo.go\<close>).
  \<^item> \<open>Listen\<close> (\<open>listen/listen.go\<close>), \<open>Send\<close> (\<open>send/send.go\<close>), \<open>Dns\<close> (\<open>dns/dns.go\<close>, \<open>dns/flags.go\<close>) and
    \<open>App\<close>, the commands with their help and flags (\<open>app/app.go\<close>). \<open>Program\<close> is one invocation of the whole program, from
    the command that was chosen to the exit of \<open>main\<close> (\<open>cmd/netdebug/main.go\<close>).
  \<^item> \<open>Bench_Echo\<close> puts the two ends together: a request that bench builds goes through the client stub, the
    route of the echo server and the handler of the service, and its reply through the worker into the summary.
  \<^item> Of Go's library, as far as the program uses it: \<open>Prelude\<close> (64-bit integers, strings as bytes, \<open>sort.Slice\<close>,
    the loop that fills a map with buckets), \<open>Float64\<close>, \<open>Gostr\<close> (UTF-8, \<open>strings\<close>), \<open>Strconv\<close>, \<open>Durations\<close>,
    \<open>Gofmt\<close>, \<open>Json\<close>, \<open>Http\<close> and \<open>Netaddr\<close>. \<open>Transitions\<close> holds what the step relations share.

  \<^bold>\<open>Interfaces.\<close> The contract of \<open>sort.Slice\<close> is the locale \<open>slice_sort\<close>, interpreted on every order the program sorts
  by; its client lemmas say that a sorted list of distinct keys does not depend on the order of the input. A dialer is
  the locale \<open>dialer\<close>, a source of connections \<open>conn_source\<close>, a pool \<open>conn_pool\<close>; the last is interpreted on
  the three connection models, and the lemmas about a worker and about a run are proved inside it once. The locales
  \<open>step_system\<close>, \<open>budgeted_system\<close> and \<open>simulation\<close> are interpreted on the listener and on \<open>serve\<close>.

  \<^bold>\<open>What is shown.\<close>

  \<^item> Resources: under every interleaving a run uses only open connections and closes each exactly once; the listener
    closes every accepted connection exactly once; the server leaves no generated key behind; \<open>send\<close> closes last.
  \<^item> Progress: a run returns, and a started run writes exactly one report as its last act, of the results its workers
    recorded. \<open>serve\<close> never returns before its signal; after it, its end depends on the clients: it returns once the last
    connection is closed, in as many steps as connections are open and five more, and not while one stays open.
  \<^item> Panics: a run of a validated configuration panics neither in a worker nor in the caller while its sizes can be
    allocated and its weights add up to a positive total; \<open>Pick\<close> panics exactly when they do not.
  \<^item> Results: the summary counts every recorded result once, does not depend on the order of results or on the
    iteration order of maps, and its percentiles are exact nearest ranks in spite of floating point; a run reports every
    call it sent, except for at most one per worker that ended with the run.
  \<^item> Text: the payload mix, durations, shapes and latency blocks survive being printed and read back; the JSON report
    loses nothing; error messages cannot add lines to the text report.
  \<^item> The exit: the program ends with status 0, with one printed error and status 1, or with a panic and status 2, in which
    case the log is flushed only if the goroutine of \<open>main\<close> panicked; what status 0 means is stated for every command.
    The text of \<open>--mode\<close> decides where a request goes.
  \<^item> The two ends: a successful call is what the service answered to exactly that request, and a run against
    one server has at most one backend with successful calls.
  \<^item> Where the code falls short of what it means to do, the theorem states what it does: weights whose sum overflows
    make \<open>Pick\<close> panic, sizes that cannot be allocated pass \<open>Validate\<close>, an open connection keeps \<open>serve\<close> from ending, the
    listener of the command line is never told to stop, an unset \<open>POD_NAME\<close> becomes a backend, a generated certificate prevents a second run, an
    absolute name gets a second dot, an IPv6 host cannot be listened on, the health service has no status for the
    service.

  \<^bold>\<open>Conventions.\<close>

  \<^item> A Go string is its bytes. \<open>int\<close> and \<open>int64\<close> are integers with the wrap-around written out (\<open>wrap64\<close>) where it can
    happen; enums and status codes of fixed width are words. A \<open>float64\<close> is the rational it denotes, rounded after
    every operation, with unbounded exponents (the program stays between \<open>2 ^ (-70)\<close> and \<open>2 ^ 200\<close>) and without fused
    multiply-add, as on amd64.
  \<^item> A nil pointer is \<open>None\<close>. Errors are values of a sum or option type; a parse error whose text the
    program only wraps carries no text. A panic is a branch of its own and ends the process. \<open>make\<close> and
    \<open>strings.Repeat\<close> panic for a negative length and above \<open>maxAlloc\<close>, the \<open>2 ^ 48\<close> bytes at which the Go runtime
    refuses an allocation on 64-bit Linux.
  \<^item> Go does not fix the order in which it ranges over a map, so a function that does takes that order as a
    parameter, which has to be \<open>fair\<close>: to list exactly the entries.
  \<^item> What the program asks of the outside is a parameter: the clock, the random source, gRPC (\<open>run_env\<close>,
    \<open>grpc_lib\<close>, \<open>grpc_status\<close>, \<open>echoerClient\<close>), the file system and the host, the crypto libraries (\<open>crypto\<close>, with their
    documented laws in \<open>crypto_ok\<close>), the enum-flag library (\<open>enumflag_ok\<close>), the OIDC verifier, the DNS library, the
    peers of a socket; \<open>machine\<close> in \<open>Program\<close> puts those of the five commands together. \<open>grpc_transport\<close> states what
    the two ends rely on from gRPC. Every such hypothesis is met by a concrete example.
  \<^item> The scheduler of a run is a list of worker numbers, and a worker takes one step each time it is
    named. When the context is done from tick \<open>N\<close> on, \<open>8 * (N - t) + 3 * c\<close> turns for each of the \<open>c\<close> workers
    are enough, where \<open>t\<close> is the tick at the start: a worker that is not finished lets a tick pass every few
    steps, and three more steps take it from the loop test to its end. The listener and \<open>serve\<close> are inductive
    step relations; a \<open>serve\<close> that is shutting down is bounded by a budget of its state, which counts the open connections.
  \<^item> The trace of the world lists dials, calls, closes and the reports handed to a writer, so their order can be stated.

  \<^bold>\<open>Not modelled.\<close> The reflection code of the protobuf messages; log output; the parsing of the command line by cobra
  and pflag, except that two flags of one command with the same name panic, so an invocation starts with the flags
  already stored; the \<open>version\<close> command, which is another package's; the redirects of \<open>ServeMux\<close>, which are a
  parameter (\<open>mux_own\<close>); the limit of \<open>url.ParseQuery\<close> on the number of parameters; running out of memory below
  \<open>maxAlloc\<close>; signals that kill the process; the spelling of a JSON document.
\<close>

end
